(* ===== verification/Prelude.thy ===== *)
theory Prelude
  imports Main "HOL-Library.Word" "HOL-Library.Monad_Syntax"
begin

text \<open>
  Shared vocabulary of the development: the machine types of the C sources, access to
  C arrays with the out-of-range case written out, the collections of rewrite rules the
  component theories extend, and generic lemmas on lists and words.
\<close>

unbundle bit_operations_syntax

subsection \<open>Machine types\<close>

type_synonym byte = "8 word"
type_synonym u16 = "16 word"
type_synonym u32 = "32 word"

subsection \<open>Collections\<close>

named_theorems reg_consts \<open>the values of the register masks and constants of the headers\<close>

subsection \<open>C arrays\<close>

text \<open>
  An array is a list. Reading or writing outside of it is undefined behaviour in C; the
  model makes it visible as \<^const>\<open>None\<close>.
\<close>

definition array_load :: "'a list \<Rightarrow> nat \<Rightarrow> 'a option" where
  "array_load xs i = (if i < length xs then Some (xs ! i) else None)"

definition array_store :: "'a list \<Rightarrow> nat \<Rightarrow> 'a \<Rightarrow> 'a list option" where
  "array_store xs i v = (if i < length xs then Some (xs[i := v]) else None)"

lemma array_load_in [simp]: "i < length xs \<Longrightarrow> array_load xs i = Some (xs ! i)"
  by (simp add: array_load_def)

lemma array_store_in [simp]: "i < length xs \<Longrightarrow> array_store xs i v = Some (xs[i := v])"
  by (simp add: array_store_def)

lemma array_load_out [simp]: "length xs \<le> i \<Longrightarrow> array_load xs i = None"
  by (simp add: array_load_def)

lemma array_store_out [simp]: "length xs \<le> i \<Longrightarrow> array_store xs i v = None"
  by (simp add: array_store_def)

subsection \<open>Words\<close>

lemma unat_byte_bound: "unat (x :: byte) < 256"
  using unsigned_less [of x] by simp

lemma unat_u16_bound: "unat (x :: u16) < 65536"
  using unsigned_less [of x] by simp

lemma unat_ucast_byte [simp]: "unat (ucast (x :: byte) :: u16) = unat x"
  using unat_byte_bound [of x] by (simp add: unsigned_ucast_eq take_bit_nat_eq_self)

lemma word_unat_eqI: "unat (a :: 'a :: len word) = unat b \<Longrightarrow> a = b"
  by (simp add: word_unat_eq_iff)

lemma unat_Suc_below:
  assumes "unat (c :: 'a :: len word) < unat (s :: 'a word)"
  shows "unat (c + 1) = Suc (unat c)"
proof -
  have "unat s < 2 ^ LENGTH('a)" by (rule unsigned_less)
  with assms have "Suc (unat c) < 2 ^ LENGTH('a)" by linarith
  then show ?thesis by (simp add: unat_word_ariths)
qed

lemma unat_pred: "unat (c :: 'a :: len word) \<noteq> 0 \<Longrightarrow> unat (c - 1) = unat c - 1"
  by (metis unat_eq_0 unat_minus_one)

subsection \<open>Bounded loops\<close>

text \<open>The ranges of the counted loops, evaluated.\<close>

lemma upt_loops:
  "[0..<3] = [0, 1, 2]" "[1..<4] = [1, 2, 3]" "[0..<4] = [0, 1, 2, 3]"
  "[0..<7] = [0, 1, 2, 3, 4, 5, 6]" "[0..<8] = [0, 1, 2, 3, 4, 5, 6, 7]"
  by (simp_all add: upt_conv_Cons)

subsection \<open>The 256 bytes\<close>

definition all_bytes :: "byte list" where
  "all_bytes =
  [0x00, 0x01, 0x02, 0x03, 0x04, 0x05, 0x06, 0x07, 0x08, 0x09, 0x0a, 0x0b, 0x0c, 0x0d, 0x0e, 0x0f,
   0x10, 0x11, 0x12, 0x13, 0x14, 0x15, 0x16, 0x17, 0x18, 0x19, 0x1a, 0x1b, 0x1c, 0x1d, 0x1e, 0x1f,
   0x20, 0x21, 0x22, 0x23, 0x24, 0x25, 0x26, 0x27, 0x28, 0x29, 0x2a, 0x2b, 0x2c, 0x2d, 0x2e, 0x2f,
   0x30, 0x31, 0x32, 0x33, 0x34, 0x35, 0x36, 0x37, 0x38, 0x39, 0x3a, 0x3b, 0x3c, 0x3d, 0x3e, 0x3f,
   0x40, 0x41, 0x42, 0x43, 0x44, 0x45, 0x46, 0x47, 0x48, 0x49, 0x4a, 0x4b, 0x4c, 0x4d, 0x4e, 0x4f,
   0x50, 0x51, 0x52, 0x53, 0x54, 0x55, 0x56, 0x57, 0x58, 0x59, 0x5a, 0x5b, 0x5c, 0x5d, 0x5e, 0x5f,
   0x60, 0x61, 0x62, 0x63, 0x64, 0x65, 0x66, 0x67, 0x68, 0x69, 0x6a, 0x6b, 0x6c, 0x6d, 0x6e, 0x6f,
   0x70, 0x71, 0x72, 0x73, 0x74, 0x75, 0x76, 0x77, 0x78, 0x79, 0x7a, 0x7b, 0x7c, 0x7d, 0x7e, 0x7f,
   0x80, 0x81, 0x82, 0x83, 0x84, 0x85, 0x86, 0x87, 0x88, 0x89, 0x8a, 0x8b, 0x8c, 0x8d, 0x8e, 0x8f,
   0x90, 0x91, 0x92, 0x93, 0x94, 0x95, 0x96, 0x97, 0x98, 0x99, 0x9a, 0x9b, 0x9c, 0x9d, 0x9e, 0x9f,
   0xa0, 0xa1, 0xa2, 0xa3, 0xa4, 0xa5, 0xa6, 0xa7, 0xa8, 0xa9, 0xaa, 0xab, 0xac, 0xad, 0xae, 0xaf,
   0xb0, 0xb1, 0xb2, 0xb3, 0xb4, 0xb5, 0xb6, 0xb7, 0xb8, 0xb9, 0xba, 0xbb, 0xbc, 0xbd, 0xbe, 0xbf,
   0xc0, 0xc1, 0xc2, 0xc3, 0xc4, 0xc5, 0xc6, 0xc7, 0xc8, 0xc9, 0xca, 0xcb, 0xcc, 0xcd, 0xce, 0xcf,
   0xd0, 0xd1, 0xd2, 0xd3, 0xd4, 0xd5, 0xd6, 0xd7, 0xd8, 0xd9, 0xda, 0xdb, 0xdc, 0xdd, 0xde, 0xdf,
   0xe0, 0xe1, 0xe2, 0xe3, 0xe4, 0xe5, 0xe6, 0xe7, 0xe8, 0xe9, 0xea, 0xeb, 0xec, 0xed, 0xee, 0xef,
   0xf0, 0xf1, 0xf2, 0xf3, 0xf4, 0xf5, 0xf6, 0xf7, 0xf8, 0xf9, 0xfa, 0xfb, 0xfc, 0xfd, 0xfe, 0xff]"

lemma all_bytes_upt: "all_bytes = map word_of_nat [0..<256]"
  by code_simp

lemma all_bytes_length: "length all_bytes = 256"
  by (simp add: all_bytes_upt)

lemma all_bytes_nth: "all_bytes ! unat x = x"
  using unat_byte_bound [of x] by (simp add: all_bytes_upt)

lemma zip_all_bytes:
  assumes "list_all P (zip all_bytes ys)" "length ys = 256"
  shows "P (x, ys ! unat x)"
proof -
  have "(zip all_bytes ys) ! unat x = (x, ys ! unat x)"
    using assms(2) unat_byte_bound [of x] by (simp add: all_bytes_length all_bytes_nth)
  then show ?thesis
    using assms unat_byte_bound [of x] by (auto simp: list_all_length all_bytes_length dest!: spec)
qed

subsection \<open>Results of calls\<close>

text \<open>
  Every result the call returns satisfies \<open>Q\<close>; a call that does not return has none.
\<close>

definition returns :: "'a option \<Rightarrow> ('a \<Rightarrow> bool) \<Rightarrow> bool" where
  "returns r Q \<longleftrightarrow> (\<forall>x. r = Some x \<longrightarrow> Q x)"

lemma returns_simps [simp]:
  "returns None Q" "returns (Some x) Q = Q x"
  "returns (Option.bind m f) Q = returns m (\<lambda>x. returns (f x) Q)"
  by (auto simp: returns_def split: option.splits bind_split)

lemma returnsD: "returns r Q \<Longrightarrow> r = Some x \<Longrightarrow> Q x"
  by (simp add: returns_def)

lemma returns_mono: "returns r P \<Longrightarrow> (\<And>x. P x \<Longrightarrow> Q x) \<Longrightarrow> returns r Q"
  by (simp add: returns_def)

lemma returns_if:
  "(b \<Longrightarrow> returns x Q) \<Longrightarrow> (\<not> b \<Longrightarrow> returns y Q) \<Longrightarrow> returns (if b then x else y) Q"
  by simp

text \<open>A loop that returns: the property is carried by induction on the recursive calls.\<close>

lemma returns_loopI: "P \<Longrightarrow> (\<And>y. r = Some y \<Longrightarrow> P \<longrightarrow> Q y) \<Longrightarrow> returns r Q"
  by (simp add: returns_def)

text \<open>The call returns, and its result satisfies \<open>Q\<close>.\<close>

definition yields :: "'a option \<Rightarrow> ('a \<Rightarrow> bool) \<Rightarrow> bool" where
  "yields r Q \<longleftrightarrow> (\<exists>x. r = Some x \<and> Q x)"

lemma yields_simps [simp]:
  "\<not> yields None Q" "yields (Some x) Q = Q x"
  "yields (Option.bind m f) Q = yields m (\<lambda>x. yields (f x) Q)"
  by (auto simp: yields_def bind_eq_Some_conv)

lemma yields_mono: "yields r P \<Longrightarrow> (\<And>x. P x \<Longrightarrow> Q x) \<Longrightarrow> yields r Q"
  by (auto simp: yields_def)

end
