(* ===== verification/RingBuffer.thy ===== *)
theory RingBuffer
  imports Prelude
begin

text \<open>
  \<^verbatim>\<open>LUFA/Drivers/Misc/RingBuffer.h\<close>: the byte ring buffer between the USB receive path
  and the command interpreter. The record has the fields of \<^verbatim>\<open>RingBuffer_t\<close>; its four
  pointers are offsets into the storage array, which is kept beside them. The critical
  sections (\<^verbatim>\<open>GlobalInterruptDisable\<close> \<dots> \<^verbatim>\<open>SetGlobalInterruptMask\<close>) make the updates of
  \<^verbatim>\<open>Count\<close> atomic, so every operation is one step here. The locale \<open>byte_fifo\<close> is the
  contract the clients rely on; the interpretation at the end discharges it for the code.
\<close>

subsection \<open>The structure and its operations\<close>

record RingBuffer_t =
  rb_In :: nat
  rb_Out :: nat
  rb_Start :: nat
  rb_End :: nat
  rb_Size :: u16
  rb_Count :: u16
  rb_Data :: "byte list"

definition RingBuffer_InitBuffer :: "byte list \<Rightarrow> u16 \<Rightarrow> RingBuffer_t" where
  "RingBuffer_InitBuffer DataPtr Size =
     \<lparr>rb_In = 0, rb_Out = 0, rb_Start = 0, rb_End = unat Size,
      rb_Size = Size, rb_Count = 0, rb_Data = DataPtr\<rparr>"

definition RingBuffer_GetCount :: "RingBuffer_t \<Rightarrow> u16" where
  "RingBuffer_GetCount b = rb_Count b"

definition RingBuffer_GetFreeCount :: "RingBuffer_t \<Rightarrow> u16" where
  "RingBuffer_GetFreeCount b = rb_Size b - RingBuffer_GetCount b"

definition RingBuffer_IsEmpty :: "RingBuffer_t \<Rightarrow> bool" where
  "RingBuffer_IsEmpty b \<longleftrightarrow> RingBuffer_GetCount b = 0"

definition RingBuffer_IsFull :: "RingBuffer_t \<Rightarrow> bool" where
  "RingBuffer_IsFull b \<longleftrightarrow> RingBuffer_GetCount b = rb_Size b"

text \<open>The pointer increment with its wrap at \<^verbatim>\<open>End\<close>, as both operations write it.\<close>

definition rb_advance :: "RingBuffer_t \<Rightarrow> nat \<Rightarrow> nat" where
  "rb_advance b p = (if p + 1 = rb_End b then rb_Start b else p + 1)"

definition RingBuffer_Insert :: "RingBuffer_t \<Rightarrow> byte \<Rightarrow> RingBuffer_t option" where
  "RingBuffer_Insert b Data = do {
     d \<leftarrow> array_store (rb_Data b) (rb_In b) Data;
     Some (b\<lparr>rb_Data := d, rb_In := rb_advance b (rb_In b), rb_Count := rb_Count b + 1\<rparr>)
   }"

definition RingBuffer_Remove :: "RingBuffer_t \<Rightarrow> (byte \<times> RingBuffer_t) option" where
  "RingBuffer_Remove b = do {
     Data \<leftarrow> array_load (rb_Data b) (rb_Out b);
     Some (Data, b\<lparr>rb_Out := rb_advance b (rb_Out b), rb_Count := rb_Count b - 1\<rparr>)
   }"

definition RingBuffer_Peek :: "RingBuffer_t \<Rightarrow> byte option" where
  "RingBuffer_Peek b = array_load (rb_Data b) (rb_Out b)"

subsection \<open>Invariant and abstraction\<close>

text \<open>
  \<open>rb_invar\<close>: the storage has \<open>Size\<close> bytes, both pointers lie inside, and the write
  pointer is \<open>Count\<close> places after the read pointer, modulo \<open>Size\<close>. \<open>rb_contents\<close> is the
  queue a ring represents: \<open>Count\<close> bytes read from \<open>Out\<close> on, wrapping.
\<close>

definition rb_invar :: "RingBuffer_t \<Rightarrow> bool" where
  "rb_invar b \<longleftrightarrow>
     0 < rb_Size b \<and> length (rb_Data b) = unat (rb_Size b) \<and>
     rb_Start b = 0 \<and> rb_End b = unat (rb_Size b) \<and>
     rb_Out b < unat (rb_Size b) \<and> unat (rb_Count b) \<le> unat (rb_Size b) \<and>
     rb_In b = (rb_Out b + unat (rb_Count b)) mod unat (rb_Size b)"

definition rb_contents :: "RingBuffer_t \<Rightarrow> byte list" where
  "rb_contents b =
     map (\<lambda>i. rb_Data b ! ((rb_Out b + i) mod unat (rb_Size b))) [0..<unat (rb_Count b)]"

lemma rb_contents_length [simp]: "length (rb_contents b) = unat (rb_Count b)"
  by (simp add: rb_contents_def)

lemma rb_sizes:
  assumes "rb_invar b"
  shows "0 < unat (rb_Size b)" "rb_In b < unat (rb_Size b)" "rb_Out b < unat (rb_Size b)"
  using assms by (auto simp: rb_invar_def word_less_nat_alt)

lemma rb_advance_mod:
  assumes "rb_invar b" "p < unat (rb_Size b)"
  shows "rb_advance b p = (p + 1) mod unat (rb_Size b)"
  using assms by (auto simp: rb_advance_def rb_invar_def)

text \<open>Writing at \<open>In\<close> does not touch the slots of the stored bytes unless the ring is full.\<close>

lemma mod_slots_distinct:
  fixes n :: nat
  assumes "i < c" "c < n" "out < n"
  shows "(out + i) mod n \<noteq> (out + c) mod n"
proof
  assume "(out + i) mod n = (out + c) mod n"
  then have "n dvd (out + c) - (out + i)"
    using assms mod_eq_dvd_iff_nat [of "out + i" "out + c" n] by simp
  then have "n dvd c - i" by simp
  with assms show False by (auto dest: dvd_imp_le)
qed

subsection \<open>The contract\<close>

text \<open>
  What a client of a bounded byte queue relies on. \<open>contents\<close> is the list of stored
  elements in the order they leave.
\<close>

locale byte_fifo =
  fixes ins :: "'q \<Rightarrow> 'a \<Rightarrow> 'q option"
    and rem :: "'q \<Rightarrow> ('a \<times> 'q) option"
    and peek :: "'q \<Rightarrow> 'a option"
    and is_empty :: "'q \<Rightarrow> bool"
    and is_full :: "'q \<Rightarrow> bool"
    and capacity :: "'q \<Rightarrow> nat"
    and invar :: "'q \<Rightarrow> bool"
    and contents :: "'q \<Rightarrow> 'a list"
  assumes empty_iff: "invar q \<Longrightarrow> is_empty q \<longleftrightarrow> contents q = []"
    and full_iff: "invar q \<Longrightarrow> is_full q \<longleftrightarrow> length (contents q) = capacity q"
    and within: "invar q \<Longrightarrow> length (contents q) \<le> capacity q"
    and ins_ok: "invar q \<Longrightarrow> \<not> is_full q \<Longrightarrow>
      \<exists>q'. ins q x = Some q' \<and> invar q' \<and> contents q' = contents q @ [x] \<and> capacity q' = capacity q"
    and rem_ok: "invar q \<Longrightarrow> \<not> is_empty q \<Longrightarrow>
      \<exists>q'. rem q = Some (hd (contents q), q') \<and> invar q' \<and> contents q' = tl (contents q)
        \<and> capacity q' = capacity q"
    and peek_ok: "invar q \<Longrightarrow> \<not> is_empty q \<Longrightarrow> peek q = Some (hd (contents q))"
begin

text \<open>Inserting a whole list, and draining the queue completely.\<close>

fun ins_all :: "'q \<Rightarrow> 'a list \<Rightarrow> 'q option" where
  "ins_all q [] = Some q"
| "ins_all q (x # xs) = (case ins q x of None \<Rightarrow> None | Some q' \<Rightarrow> ins_all q' xs)"

fun rem_n :: "nat \<Rightarrow> 'q \<Rightarrow> ('a list \<times> 'q) option" where
  "rem_n 0 q = Some ([], q)"
| "rem_n (Suc n) q = (case rem q of None \<Rightarrow> None
     | Some (x, q') \<Rightarrow> map_option (\<lambda>(xs, r). (x # xs, r)) (rem_n n q'))"

lemma ins_all_ok:
  "invar q \<Longrightarrow> length (contents q) + length xs \<le> capacity q \<Longrightarrow>
   \<exists>q'. ins_all q xs = Some q' \<and> invar q' \<and> contents q' = contents q @ xs \<and> capacity q' = capacity q"
proof (induction xs arbitrary: q)
  case Nil
  then show ?case by simp
next
  case (Cons x xs)
  then have "\<not> is_full q" by (simp add: full_iff)
  with Cons.prems(1) obtain q1 where q1: "ins q x = Some q1" "invar q1"
      "contents q1 = contents q @ [x]" "capacity q1 = capacity q"
    using ins_ok by blast
  with Cons.prems(2) Cons.IH [of q1] show ?case by auto
qed

lemma rem_n_ok:
  "invar q \<Longrightarrow> n \<le> length (contents q) \<Longrightarrow>
   \<exists>q'. rem_n n q = Some (take n (contents q), q') \<and> invar q' \<and> contents q' = drop n (contents q)
     \<and> capacity q' = capacity q"
proof (induction n arbitrary: q)
  case 0
  then show ?case by simp
next
  case (Suc n)
  then have ne: "contents q \<noteq> []" by auto
  with Suc.prems(1) obtain q1 where q1: "rem q = Some (hd (contents q), q1)" "invar q1"
      "contents q1 = tl (contents q)" "capacity q1 = capacity q"
    using rem_ok empty_iff by blast
  with Suc.prems(2) obtain q2 where "rem_n n q1 = Some (take n (contents q1), q2)" "invar q2"
      "contents q2 = drop n (contents q1)" "capacity q2 = capacity q1"
    using Suc.IH [of q1] by (metis Suc_le_D Suc_le_mono length_tl diff_Suc_1)
  with q1 ne show ?case by (cases "contents q") auto
qed

text \<open>First in, first out: bytes inserted behind what is queued leave after it, in order.\<close>

lemma fifo_order:
  assumes "invar q" "length (contents q) + length xs \<le> capacity q"
  shows "\<exists>q1 q2. ins_all q xs = Some q1 \<and>
    rem_n (length (contents q) + length xs) q1 = Some (contents q @ xs, q2) \<and> is_empty q2"
proof -
  obtain q1 where q1: "ins_all q xs = Some q1" "invar q1" "contents q1 = contents q @ xs"
    using ins_all_ok [OF assms] by blast
  then obtain q2 where "rem_n (length (contents q1)) q1 = Some (contents q1, q2)" "invar q2"
      "contents q2 = []"
    using rem_n_ok [of q1 "length (contents q1)"] by auto
  with q1 show ?thesis by (auto simp: empty_iff)
qed

end

subsection \<open>The ring buffer meets the contract\<close>

lemma rb_empty_iff: "RingBuffer_IsEmpty b \<longleftrightarrow> rb_contents b = []"
  by (simp add: RingBuffer_IsEmpty_def RingBuffer_GetCount_def rb_contents_def unat_eq_0)

lemma rb_full_iff: "RingBuffer_IsFull b \<longleftrightarrow> length (rb_contents b) = unat (rb_Size b)"
  by (auto simp: RingBuffer_IsFull_def RingBuffer_GetCount_def intro: word_unat_eqI)

lemma rb_insert_ok:
  assumes inv: "rb_invar b" and nf: "\<not> RingBuffer_IsFull b"
  shows "\<exists>b'. RingBuffer_Insert b x = Some b' \<and> rb_invar b' \<and> rb_contents b' = rb_contents b @ [x]
    \<and> rb_Size b' = rb_Size b"
proof -
  let ?n = "unat (rb_Size b)" and ?c = "unat (rb_Count b)"
  let ?b = "b\<lparr>rb_Data := (rb_Data b)[rb_In b := x], rb_In := rb_advance b (rb_In b),
     rb_Count := rb_Count b + 1\<rparr>"
  have lt: "?c < ?n"
    using inv nf by (auto simp: rb_invar_def rb_full_iff)
  note sz = rb_sizes [OF inv]
  have cnt: "unat (rb_Count b + 1) = Suc ?c" by (rule unat_Suc_below [OF lt])
  have "RingBuffer_Insert b x = Some ?b"
    using inv sz by (simp add: RingBuffer_Insert_def rb_invar_def)
  moreover have "rb_invar ?b"
    using inv lt cnt sz rb_advance_mod [OF inv sz(2)] by (auto simp: rb_invar_def mod_Suc_eq)
  moreover have "rb_contents ?b = rb_contents b @ [x]"
  proof -
    have "rb_In b = (rb_Out b + ?c) mod ?n" "length (rb_Data b) = ?n"
      using inv by (auto simp: rb_invar_def)
    moreover from this have "rb_In b \<noteq> (rb_Out b + i) mod ?n" if "i < ?c" for i
      using mod_slots_distinct [OF that lt sz(3)] by metis
    ultimately show ?thesis
      using sz by (simp add: rb_contents_def cnt nth_list_update_neq [of "rb_In b"])
  qed
  ultimately show ?thesis by simp
qed

lemma rb_remove_ok:
  assumes inv: "rb_invar b" and ne: "\<not> RingBuffer_IsEmpty b"
  shows "\<exists>b'. RingBuffer_Remove b = Some (hd (rb_contents b), b') \<and> rb_invar b' \<and>
    rb_contents b' = tl (rb_contents b) \<and> rb_Size b' = rb_Size b"
proof -
  let ?n = "unat (rb_Size b)" and ?c = "unat (rb_Count b)"
  let ?b = "b\<lparr>rb_Out := rb_advance b (rb_Out b), rb_Count := rb_Count b - 1\<rparr>"
  note sz = rb_sizes [OF inv]
  have pos: "?c \<noteq> 0" using ne by (simp add: RingBuffer_IsEmpty_def RingBuffer_GetCount_def unat_eq_0)
  then obtain k where k: "?c = Suc k" by (cases ?c) auto
  have cnt: "unat (rb_Count b - 1) = k" using unat_pred [OF pos] k by simp
  have len: "length (rb_Data b) = ?n" using inv by (simp add: rb_invar_def)
  have cons: "rb_contents b = rb_Data b ! rb_Out b #
      map (\<lambda>i. rb_Data b ! ((rb_Out b + Suc i) mod ?n)) [0..<k]"
    using sz by (simp add: rb_contents_def k map_upt_Suc del: upt_Suc)
  have "RingBuffer_Remove b = Some (hd (rb_contents b), ?b)"
    using sz len by (simp add: RingBuffer_Remove_def cons)
  moreover have "rb_invar ?b"
    using inv k cnt sz rb_advance_mod [OF inv sz(3)] by (auto simp: rb_invar_def mod_simps)
  moreover have "rb_contents ?b = tl (rb_contents b)"
    using rb_advance_mod [OF inv sz(3)] by (simp add: cons) (simp add: rb_contents_def cnt mod_simps)
  ultimately show ?thesis by simp
qed

lemma rb_peek_ok:
  "rb_invar b \<Longrightarrow> \<not> RingBuffer_IsEmpty b \<Longrightarrow> RingBuffer_Peek b = Some (hd (rb_contents b))"
  using rb_remove_ok [of b] by (auto simp: RingBuffer_Peek_def RingBuffer_Remove_def bind_eq_Some_conv)

lemma rb_init_ok:
  "0 < n \<Longrightarrow> length d = unat n \<Longrightarrow> rb_invar (RingBuffer_InitBuffer d n)"
  "rb_contents (RingBuffer_InitBuffer d n) = []"
  by (auto simp: rb_invar_def RingBuffer_InitBuffer_def rb_contents_def word_less_nat_alt)

interpretation ring: byte_fifo RingBuffer_Insert RingBuffer_Remove RingBuffer_Peek
  RingBuffer_IsEmpty RingBuffer_IsFull "\<lambda>b. unat (rb_Size b)" rb_invar rb_contents
proof unfold_locales
  show "length (rb_contents q) \<le> unat (rb_Size q)" if "rb_invar q" for q
    using that by (simp add: rb_invar_def)
qed (use rb_insert_ok rb_remove_ok in \<open>fastforce simp: rb_empty_iff rb_full_iff rb_peek_ok\<close>)+

subsection \<open>Properties\<close>

text \<open>C11: The ring buffer implements a bounded queue. On a well-formed buffer that is not full,
  an insertion stays inside the storage, keeps the buffer well-formed and appends the byte to
  the queue; on one that is not empty, a removal returns the oldest byte, which is also what
  peek shows, and leaves the rest of the queue in order.\<close>

theorem ring_implements_queue:
  assumes "rb_invar b"
  shows "(\<not> RingBuffer_IsFull b \<longrightarrow> (\<exists>b'. RingBuffer_Insert b v = Some b' \<and> rb_invar b' \<and>
      rb_contents b' = rb_contents b @ [v] \<and> RingBuffer_GetCount b' = RingBuffer_GetCount b + 1)) \<and>
    (\<not> RingBuffer_IsEmpty b \<longrightarrow> (\<exists>x xs b'. rb_contents b = x # xs \<and> RingBuffer_Peek b = Some x \<and>
      RingBuffer_Remove b = Some (x, b') \<and> rb_invar b' \<and> rb_contents b' = xs))"
proof (intro conjI impI)
  assume "\<not> RingBuffer_IsFull b"
  with rb_insert_ok [OF assms this, of v] show "\<exists>b'. RingBuffer_Insert b v = Some b' \<and> rb_invar b' \<and>
      rb_contents b' = rb_contents b @ [v] \<and> RingBuffer_GetCount b' = RingBuffer_GetCount b + 1"
    by (auto simp: RingBuffer_Insert_def RingBuffer_GetCount_def bind_eq_Some_conv)
next
  assume ne: "\<not> RingBuffer_IsEmpty b"
  then show "\<exists>x xs b'. rb_contents b = x # xs \<and> RingBuffer_Peek b = Some x \<and>
      RingBuffer_Remove b = Some (x, b') \<and> rb_invar b' \<and> rb_contents b' = xs"
    using rb_remove_ok [OF assms ne] rb_peek_ok [OF assms ne]
    by (cases "rb_contents b") (auto simp: rb_empty_iff)
qed

theorem ring_implements_queue_witness:
  "(\<exists>b'. RingBuffer_Insert ((RingBuffer_InitBuffer [9, 0] 2)\<lparr>rb_In := 1, rb_Count := 1\<rparr>) 7 = Some b' \<and>
      rb_contents b' = [9, 7]) \<and>
   (\<exists>b'. RingBuffer_Remove ((RingBuffer_InitBuffer [9, 0] 2)\<lparr>rb_In := 1, rb_Count := 1\<rparr>) = Some (9, b'))"
  using ring_implements_queue [of "(RingBuffer_InitBuffer [9, 0] 2)\<lparr>rb_In := 1, rb_Count := 1\<rparr>" 7]
  by (auto simp: rb_invar_def RingBuffer_InitBuffer_def RingBuffer_IsEmpty_def RingBuffer_IsFull_def
      RingBuffer_GetCount_def rb_contents_def)

text \<open>C22: First in, first out. Any sequence of bytes that fits into a freshly initialised buffer
  can be inserted, and comes out again complete and in the same order, leaving the buffer empty.\<close>

theorem ring_first_in_first_out:
  assumes "0 < n" "length storage = unat n" "length xs \<le> unat n"
  shows "\<exists>b b'. ring.ins_all (RingBuffer_InitBuffer storage n) xs = Some b \<and>
    ring.rem_n (length xs) b = Some (xs, b') \<and> RingBuffer_IsEmpty b'"
  using ring.fifo_order [OF rb_init_ok(1) [OF assms(1,2)], of xs] assms(3) rb_init_ok(2) [of storage n]
  by (simp add: RingBuffer_InitBuffer_def)

theorem ring_first_in_first_out_witness:
  "\<exists>b b'. ring.ins_all (RingBuffer_InitBuffer [0, 0, 0, 0, 0] 5) [1, 2, 3] = Some b \<and>
    ring.rem_n (length [1, 2, 3 :: byte]) b = Some ([1, 2, 3], b') \<and> RingBuffer_IsEmpty b'"
  by (rule ring_first_in_first_out) simp_all

end
