(* ===== verification/Firmware.thy ===== *)
theory Firmware
  imports Prelude RingBuffer
begin

text \<open>
  The state of the oscilloscope firmware: the registers of the ATxmega32A4U the sources
  program, the RAM arrays the USB controller reads and writes on its own, and the static
  variables of the USB stack and of the serial port built on it.

  The register layout and the bit masks are those of the device header of the compiler
  (\<open>avr/io.h\<close>). Everything the hardware may change by itself is in the record
  \<open>xmega\<close>. What it does is not fixed: the field \<open>sched\<close> of the firmware state holds
  the pending asynchronous steps of host and hardware as arbitrary functions on
  \<open>xmega\<close>, and each time the firmware samples a status register one of them happens.

  The field \<open>fault\<close> is raised, and stays raised, by an access through a null or an
  unset pointer and by an access outside of an array. The field \<open>sent\<close> is a history
  variable: the packets handed to the USB controller for transmission.
\<close>

unbundle bit_operations_syntax

subsection \<open>USB controller\<close>

text \<open>
  One half of an endpoint. The C code names it by a pointer into the endpoint table of the
  controller, or into the table of FIFOs, which have the same shape.
\<close>

datatype epref = EpOUT nat | EpIN nat

text \<open>The RAM arrays that serve as packet buffers (\<open>usb_serial.c\<close>).\<close>

datatype ram_obj = Notification_fifo | Notification_fifo2 | In_fifo | Out_fifo

record usb_ep =
  EP_STATUS :: byte
  EP_CTRL :: byte
  EP_CNT :: u16
  EP_DATAPTR :: "ram_obj option"

text \<open>\<open>USB_EPPTR\<close>: whether the endpoint table pointer was set up.\<close>

record usb_t =
  USB_CTRLA :: byte
  USB_CTRLB :: byte
  USB_ADDR :: byte
  USB_INTCTRLA :: byte
  USB_INTCTRLB :: byte
  USB_INTFLAGSA :: byte
  USB_INTFLAGSB :: byte
  USB_CAL0 :: byte
  USB_CAL1 :: byte
  USB_EPPTR :: bool

subsection \<open>Other peripherals\<close>

record adc_ch_t =
  CH_CTRL :: byte
  CH_MUXCTRL :: byte
  CH_INTCTRL :: byte

record adc_t =
  ADC_CTRLA :: byte
  ADC_CTRLB :: byte
  ADC_REFCTRL :: byte
  ADC_EVCTRL :: byte
  ADC_PRESCALER :: byte
  ADC_INTFLAGS :: byte
  ADC_CAL :: u16
  ADC_CH0 :: adc_ch_t

record dma_ch_t =
  DCH_CTRLA :: byte
  DCH_REPCNT :: byte
  DCH_TRFCNT :: u16
  DCH_ADDRCTRL :: byte
  DCH_TRIGSRC :: byte
  DCH_SRCADDR0 :: byte
  DCH_SRCADDR1 :: byte
  DCH_SRCADDR2 :: byte
  DCH_DESTADDR0 :: byte
  DCH_DESTADDR1 :: byte
  DCH_DESTADDR2 :: byte

record dma_t =
  DMA_CTRL :: byte
  DMA_INTFLAGS :: byte
  DMA_CH0 :: dma_ch_t
  DMA_CH1 :: dma_ch_t
  DMA_CH2 :: dma_ch_t

record tc0_t =
  TC_CTRLA :: byte
  TC_INTCTRLA :: byte
  TC_INTFLAGS :: byte
  TC_CNT :: u16
  TC_PER :: u16

record tc2_t =
  TC2_CTRLA :: byte
  TC2_CTRLB :: byte
  TC2_CTRLC :: byte
  TC2_CTRLE :: byte
  TC2_INTFLAGS :: byte
  TC2_LCNT :: byte
  TC2_HCNT :: byte
  TC2_LPER :: byte
  TC2_HPER :: byte
  TC2_LCMP :: "byte list"
  TC2_HCMP :: "byte list"

record port_t =
  PORT_OUT :: byte
  PORT_DIR :: byte
  PORT_INTCTRL :: byte
  PORT_INT0MASK :: byte
  PORT_INTFLAGS :: byte
  PORT_PIN2CTRL :: byte
  PORT_PIN3CTRL :: byte
  PORT_PIN5CTRL :: byte

text \<open>
  \<open>USART_RX\<close>: the receive buffer behind the data register; \<open>USART_TX\<close>: the bytes
  written to the data register so far.
\<close>

record usart_t =
  USART_STATUS :: byte
  USART_CTRLA :: byte
  USART_CTRLB :: byte
  USART_CTRLC :: byte
  USART_BAUDCTRLA :: byte
  USART_RX :: "byte list"
  USART_TX :: "byte list"

text \<open>Clock, power, event and interrupt controllers.\<close>

record sys_t =
  OSC_CTRL :: byte
  OSC_STATUS :: byte
  OSC_DFLLCTRL :: byte
  OSC_PLLCTRL :: byte
  DFLLRC2M_CTRL :: byte
  DFLLRC32M_CTRL :: byte
  CLK_CTRL :: byte
  CLK_PSCTRL :: byte
  CLK_USBCTRL :: byte
  PMIC_CTRL :: byte
  SLEEP_CTRL :: byte
  EVSYS_CH0MUX :: byte
  NVM_CMD :: byte
  PR_PRGEN :: byte
  PR_PRPA :: byte
  PR_PRPB :: byte
  PR_PRPC :: byte
  PR_PRPD :: byte
  PR_PRPE :: byte
  PR_PRPF :: byte

text \<open>
  The microcontroller. \<open>sigrow\<close> is the production signature row, which
  \<open>pgm_read_byte\<close> reads instead of the program memory \<open>progmem\<close> while the NVM
  command selects it; \<open>scopeBuf\<close> is the sample
  buffer the DMA controller fills.
\<close>

record xmega =
  usb :: usb_t
  eptable :: "epref \<Rightarrow> usb_ep"
  FrameNum :: u16
  ram :: "ram_obj \<Rightarrow> byte list"
  adca :: adc_t
  dma :: dma_t
  tcd0 :: tc0_t
  tcc2 :: tc2_t
  porta :: port_t
  portc :: port_t
  portd :: port_t
  usartc0 :: usart_t
  usartd1 :: usart_t
  sys :: sys_t
  sigrow :: "byte \<Rightarrow> byte"
  progmem :: "byte \<Rightarrow> byte"
  scopeBuf :: "byte list"

subsection \<open>Register masks of the device header\<close>

definition USB_EP_STALL_bm :: byte where "USB_EP_STALL_bm = 0x04"
definition USB_EP_INTDSBL_bm :: byte where "USB_EP_INTDSBL_bm = 0x08"
definition USB_EP_PINGPONG_bm :: byte where "USB_EP_PINGPONG_bm = 0x10"
definition USB_EP_TYPE_gm :: byte where "USB_EP_TYPE_gm = 0xC0"
definition USB_EP_TYPE_CONTROL_gc :: byte where "USB_EP_TYPE_CONTROL_gc = 0x40"
definition USB_EP_TYPE_BULK_gc :: byte where "USB_EP_TYPE_BULK_gc = 0x80"
definition USB_EP_TYPE_ISOCHRONOUS_gc :: byte where "USB_EP_TYPE_ISOCHRONOUS_gc = 0xC0"
definition USB_EP_TOGGLE_bm :: byte where "USB_EP_TOGGLE_bm = 0x01"
definition USB_EP_BUSNACK0_bm :: byte where "USB_EP_BUSNACK0_bm = 0x02"
definition USB_EP_SETUP_bm :: byte where "USB_EP_SETUP_bm = 0x10"
definition USB_EP_TRNCOMPL0_bm :: byte where "USB_EP_TRNCOMPL0_bm = 0x20"
definition USB_EP_OVF_bm :: byte where "USB_EP_OVF_bm = 0x40"

lemmas ep_masks =
  USB_EP_STALL_bm_def USB_EP_INTDSBL_bm_def USB_EP_PINGPONG_bm_def USB_EP_TYPE_gm_def
  USB_EP_TYPE_CONTROL_gc_def USB_EP_TYPE_BULK_gc_def USB_EP_TYPE_ISOCHRONOUS_gc_def
  USB_EP_TOGGLE_bm_def USB_EP_BUSNACK0_bm_def USB_EP_SETUP_bm_def USB_EP_TRNCOMPL0_bm_def
  USB_EP_OVF_bm_def

definition USB_ENABLE_bm :: byte where "USB_ENABLE_bm = 0x80"
definition USB_SPEED_bm :: byte where "USB_SPEED_bm = 0x40"
definition USB_STFRNUM_bm :: byte where "USB_STFRNUM_bm = 0x10"
definition USB_ATTACH_bm :: byte where "USB_ATTACH_bm = 0x01"
definition USB_SOFIE_bm :: byte where "USB_SOFIE_bm = 0x80"
definition USB_BUSEVIE_bm :: byte where "USB_BUSEVIE_bm = 0x40"
definition USB_INTLVL_gm :: byte where "USB_INTLVL_gm = 0x03"
definition USB_SOFIF_bm :: byte where "USB_SOFIF_bm = 0x80"
definition USB_SUSPENDIF_bm :: byte where "USB_SUSPENDIF_bm = 0x40"
definition USB_RESUMEIF_bm :: byte where "USB_RESUMEIF_bm = 0x20"
definition USB_RSTIF_bm :: byte where "USB_RSTIF_bm = 0x10"

lemmas usb_masks =
  USB_ENABLE_bm_def USB_SPEED_bm_def USB_STFRNUM_bm_def USB_ATTACH_bm_def USB_SOFIE_bm_def
  USB_BUSEVIE_bm_def USB_INTLVL_gm_def USB_SOFIF_bm_def USB_SUSPENDIF_bm_def
  USB_RESUMEIF_bm_def USB_RSTIF_bm_def

subsection \<open>Static variables of the USB stack\<close>

text \<open>\<open>Endpoint_FIFO_t\<close>: the packet buffer of one half of an endpoint.\<close>

record Endpoint_FIFO_t =
  Data :: "ram_obj option"
  Length :: byte
  Position :: byte

text \<open>\<open>USB_Request_Header_t\<close>: the setup packet of a control request.\<close>

record USB_Request_Header_t =
  bmRequestType :: byte
  bRequest :: byte
  wValue :: u16
  wIndex :: u16
  wLength :: u16

text \<open>\<open>USB_Endpoint_Table_t\<close>: how an endpoint is to be configured.\<close>

record USB_Endpoint_Table_t =
  Address :: byte
  Size :: u16
  Type :: byte
  Banks :: byte

record CDC_LineEncoding_t =
  BaudRateBPS :: u32
  CharFormat :: byte
  ParityType :: byte
  DataBits :: byte

text \<open>\<open>USB_ClassInfo_CDC_Device_t\<close>, the groups Config and State one after the other.\<close>

record USB_ClassInfo_CDC_Device_t =
  ControlInterfaceNumber :: byte
  DataINEndpoint :: USB_Endpoint_Table_t
  DataOUTEndpoint :: USB_Endpoint_Table_t
  NotificationEndpoint :: USB_Endpoint_Table_t
  HostToDevice :: u16
  DeviceToHost :: u16
  LineEncoding :: CDC_LineEncoding_t

datatype USB_Device_States_t =
    DEVICE_STATE_Unattached
  | DEVICE_STATE_Powered
  | DEVICE_STATE_Default
  | DEVICE_STATE_Addressed
  | DEVICE_STATE_Configured
  | DEVICE_STATE_Suspended

record fw =
  hw :: xmega
  sched :: "(xmega \<Rightarrow> xmega) list"
  fault :: bool
  sent :: "(epref \<times> byte list) list"
  sreg_I :: bool
  DeviceState :: USB_Device_States_t
  ConfigurationNumber :: byte
  IsInitialized :: bool
  ControlRequest :: USB_Request_Header_t
  SelectedEndpoint :: byte
  SelectedHandle :: "epref option"
  SelectedFIFO :: "epref option"
  FIFOs :: "epref \<Rightarrow> Endpoint_FIFO_t"
  CDC :: USB_ClassInfo_CDC_Device_t
  ok_to_send :: bool
  USBtoUSART_Buffer :: RingBuffer_t

subsection \<open>Access to the registers\<close>

abbreviation upd_usb :: "(usb_t \<Rightarrow> usb_t) \<Rightarrow> fw \<Rightarrow> fw" where
  "upd_usb f \<equiv> hw_update (usb_update f)"

abbreviation upd_sys :: "(sys_t \<Rightarrow> sys_t) \<Rightarrow> fw \<Rightarrow> fw" where
  "upd_sys f \<equiv> hw_update (sys_update f)"

text \<open>An interrupt flag is cleared by writing a one to it.\<close>

definition write_flags :: "byte \<Rightarrow> byte \<Rightarrow> byte" where
  "write_flags v flags = flags AND NOT v"

definition raise_fault :: "fw \<Rightarrow> fw" where
  "raise_fault s = s\<lparr>fault := True\<rparr>"

lemma raise_fault_fields [simp]:
  "fault (raise_fault s)" "hw (raise_fault s) = hw s" "sched (raise_fault s) = sched s"
  by (simp_all add: raise_fault_def)

end
