(* ===== verification/Endpoint.thy ===== *)
theory Endpoint
  imports Firmware
begin

text \<open>
  Endpoint management without waiting, from \<open>Endpoint_XMEGA.h\<close> and
  \<open>Endpoint_XMEGA.c\<close>: selection, configuration, the packet buffers behind the selected
  endpoint, and the accesses to the endpoint control and status bytes.
\<close>

unbundle bit_operations_syntax

subsection \<open>Constants\<close>

definition ENDPOINT_TOTAL_ENDPOINTS :: nat where "ENDPOINT_TOTAL_ENDPOINTS = 16"
definition ENDPOINT_EPNUM_MASK :: byte where "ENDPOINT_EPNUM_MASK = 0x0F"
definition ENDPOINT_DIR_IN :: byte where "ENDPOINT_DIR_IN = 0x80"
definition ENDPOINT_CONTROLEP :: byte where "ENDPOINT_CONTROLEP = 0"
definition EP_TYPE_CONTROL :: byte where "EP_TYPE_CONTROL = 0"
definition EP_TYPE_ISOCHRONOUS :: byte where "EP_TYPE_ISOCHRONOUS = 1"
definition EP_TYPE_BULK :: byte where "EP_TYPE_BULK = 2"
definition EP_TYPE_INTERRUPT :: byte where "EP_TYPE_INTERRUPT = 3"
definition USB_Device_ControlEndpointSize :: u16 where "USB_Device_ControlEndpointSize = 8"

lemmas ep_consts =
  ENDPOINT_TOTAL_ENDPOINTS_def ENDPOINT_EPNUM_MASK_def ENDPOINT_DIR_IN_def
  ENDPOINT_CONTROLEP_def EP_TYPE_CONTROL_def EP_TYPE_ISOCHRONOUS_def EP_TYPE_BULK_def
  EP_TYPE_INTERRUPT_def USB_Device_ControlEndpointSize_def

subsection \<open>The selected endpoint\<close>

text \<open>The half of an endpoint that an endpoint address names.\<close>

definition is_IN :: "byte \<Rightarrow> bool" where
  "is_IN addr \<longleftrightarrow> addr AND ENDPOINT_DIR_IN \<noteq> 0"

definition ep_of :: "byte \<Rightarrow> epref" where
  "ep_of addr = (let n = unat (addr AND ENDPOINT_EPNUM_MASK) in
     if is_IN addr then EpIN n else EpOUT n)"

definition Endpoint_SelectEndpoint :: "byte \<Rightarrow> fw \<Rightarrow> fw" where
  "Endpoint_SelectEndpoint addr s =
     s\<lparr>SelectedEndpoint := addr,
       SelectedFIFO := Some (ep_of addr),
       SelectedHandle := (if USB_EPPTR (usb (hw s)) then Some (ep_of addr) else None)\<rparr>"

text \<open>
  What the selected pointers refer to. A write through an unset pointer is a fault; a read
  through one yields the cleared record, which a C program image starts with.
\<close>

definition ep_zero :: usb_ep where
  "ep_zero = \<lparr>EP_STATUS = 0, EP_CTRL = 0, EP_CNT = 0, EP_DATAPTR = None\<rparr>"

definition fifo_zero :: Endpoint_FIFO_t where
  "fifo_zero = \<lparr>Data = None, Length = 0, Position = 0\<rparr>"

definition Handle :: "fw \<Rightarrow> usb_ep" where
  "Handle s = (case SelectedHandle s of None \<Rightarrow> ep_zero | Some e \<Rightarrow> eptable (hw s) e)"

definition FIFO :: "fw \<Rightarrow> Endpoint_FIFO_t" where
  "FIFO s = (case SelectedFIFO s of None \<Rightarrow> fifo_zero | Some e \<Rightarrow> FIFOs s e)"

definition upd_Handle :: "(usb_ep \<Rightarrow> usb_ep) \<Rightarrow> fw \<Rightarrow> fw" where
  "upd_Handle f s = (case SelectedHandle s of
     None \<Rightarrow> raise_fault s
   | Some e \<Rightarrow> hw_update (eptable_update (\<lambda>t. t(e := f (t e)))) s)"

definition upd_FIFO :: "(Endpoint_FIFO_t \<Rightarrow> Endpoint_FIFO_t) \<Rightarrow> fw \<Rightarrow> fw" where
  "upd_FIFO f s = (case SelectedFIFO s of
     None \<Rightarrow> raise_fault s
   | Some e \<Rightarrow> FIFOs_update (\<lambda>t. t(e := f (t e))) s)"

definition Endpoint_GetCurrentEndpoint :: "fw \<Rightarrow> byte" where
  "Endpoint_GetCurrentEndpoint s = SelectedEndpoint s"

definition Endpoint_GetEndpointDirection :: "fw \<Rightarrow> byte" where
  "Endpoint_GetEndpointDirection s = SelectedEndpoint s AND ENDPOINT_DIR_IN"

subsection \<open>Configuration\<close>

text \<open>
  The buffer size code of an endpoint. The loop doubles a 16-bit value until it reaches the
  wanted size.
\<close>

partial_function (option) ep_size_loop :: "u16 \<Rightarrow> byte \<Rightarrow> u16 \<Rightarrow> byte option" where
  "ep_size_loop Bytes MaskVal CheckBytes =
     (if CheckBytes < Bytes
      then ep_size_loop Bytes (MaskVal + 1) (push_bit 1 CheckBytes)
      else Some MaskVal)"

definition Endpoint_BytesToEPSizeMask :: "u16 \<Rightarrow> byte option" where
  "Endpoint_BytesToEPSizeMask Bytes = ep_size_loop Bytes 0 8"

definition Endpoint_ConfigureEndpoint_PRV :: "byte \<Rightarrow> byte \<Rightarrow> byte \<Rightarrow> fw \<Rightarrow> bool \<times> fw" where
  "Endpoint_ConfigureEndpoint_PRV addr Config Sz s =
    (let s = Endpoint_SelectEndpoint addr s;
         s = upd_Handle (EP_CTRL_update (\<lambda>_. 0)) s;
         s = upd_Handle (EP_STATUS_update (\<lambda>_. if is_IN addr then USB_EP_BUSNACK0_bm else 0)) s;
         s = upd_Handle (EP_CTRL_update (\<lambda>_. Config)) s;
         s = upd_Handle (EP_CNT_update (\<lambda>_. 0)) s;
         s = upd_Handle (EP_DATAPTR_update (\<lambda>_. Data (FIFO s))) s;
         s = upd_FIFO (Length_update (\<lambda>_. if is_IN addr then Sz else 0)) s;
         s = upd_FIFO (Position_update (\<lambda>_. 0)) s
     in (True, s))"

definition Endpoint_ConfigureEndpoint ::
  "byte \<Rightarrow> byte \<Rightarrow> u16 \<Rightarrow> byte \<Rightarrow> fw \<Rightarrow> (bool \<times> fw) option" where
  "Endpoint_ConfigureEndpoint addr Typ Sz Bnks s = do {
     mask \<leftarrow> Endpoint_BytesToEPSizeMask Sz;
     let EPConfigMask = USB_EP_INTDSBL_bm OR (if Bnks > 1 then USB_EP_PINGPONG_bm else 0) OR mask;
     if ENDPOINT_TOTAL_ENDPOINTS \<le> unat (addr AND ENDPOINT_EPNUM_MASK) then Some (False, s)
     else let EPConfigMask = EPConfigMask AND NOT USB_EP_PINGPONG_bm in
     if Sz > 64 then Some (False, s)
     else let EPConfigMask =
            EPConfigMask OR (if Typ = EP_TYPE_CONTROL then USB_EP_TYPE_CONTROL_gc
              else if Typ = EP_TYPE_ISOCHRONOUS then USB_EP_TYPE_ISOCHRONOUS_gc
              else USB_EP_TYPE_BULK_gc);
          s = (if Typ = EP_TYPE_CONTROL
               then snd (Endpoint_ConfigureEndpoint_PRV (addr XOR ENDPOINT_DIR_IN) EPConfigMask (ucast Sz) s)
               else s)
     in Some (Endpoint_ConfigureEndpoint_PRV addr EPConfigMask (ucast Sz) s)
   }"

fun Endpoint_ConfigureEndpointTable :: "USB_Endpoint_Table_t list \<Rightarrow> fw \<Rightarrow> (bool \<times> fw) option" where
  "Endpoint_ConfigureEndpointTable [] s = Some (True, s)"
| "Endpoint_ConfigureEndpointTable (t # ts) s =
     (if Address t = 0 then Endpoint_ConfigureEndpointTable ts s
      else do {
        (ok, s) \<leftarrow> Endpoint_ConfigureEndpoint (Address t) (Type t) (Size t) (Banks t) s;
        if ok then Endpoint_ConfigureEndpointTable ts s else Some (False, s)
      })"

text \<open>The endpoint table is reached through the table pointer of the controller.\<close>

definition upd_table :: "epref \<Rightarrow> (usb_ep \<Rightarrow> usb_ep) \<Rightarrow> fw \<Rightarrow> fw" where
  "upd_table e f s =
     (if USB_EPPTR (usb (hw s)) then hw_update (eptable_update (\<lambda>t. t(e := f (t e)))) s
      else raise_fault s)"

definition Endpoint_ClearEndpoints :: "fw \<Rightarrow> fw" where
  "Endpoint_ClearEndpoints s =
     fold (\<lambda>n s. upd_table (EpOUT n) (EP_CTRL_update (\<lambda>_. 0))
                   (upd_table (EpIN n) (EP_CTRL_update (\<lambda>_. 0)) s))
       [0..<ENDPOINT_TOTAL_ENDPOINTS] s"

subsection \<open>Packet buffers\<close>

definition Endpoint_BytesInEndpoint :: "fw \<Rightarrow> u16" where
  "Endpoint_BytesInEndpoint s =
     (if is_IN (SelectedEndpoint s) then ucast (Position (FIFO s))
      else ucast (Length (FIFO s)) - ucast (Position (FIFO s)))"

definition Endpoint_IsReadWriteAllowed :: "fw \<Rightarrow> bool" where
  "Endpoint_IsReadWriteAllowed s \<longleftrightarrow> Position (FIFO s) < Length (FIFO s)"

definition Endpoint_ResetEndpoint :: "byte \<Rightarrow> fw \<Rightarrow> fw" where
  "Endpoint_ResetEndpoint addr s =
     (let n = unat (addr AND ENDPOINT_EPNUM_MASK) in
      if is_IN addr then FIFOs_update (\<lambda>t. t(EpIN n := (t (EpIN n))\<lparr>Position := 0\<rparr>)) s
      else FIFOs_update (\<lambda>t. t(EpOUT n := (t (EpOUT n))\<lparr>Position := 0\<rparr>)) s)"

definition Endpoint_Read_8 :: "fw \<Rightarrow> byte \<times> fw" where
  "Endpoint_Read_8 s =
    (let pos = unat (Position (FIFO s));
         s' = upd_FIFO (Position_update (\<lambda>p. p + 1)) s
     in case Data (FIFO s) of
          None \<Rightarrow> (0, raise_fault s')
        | Some b \<Rightarrow> (case array_load (ram (hw s) b) pos of
              None \<Rightarrow> (0, raise_fault s')
            | Some v \<Rightarrow> (v, s')))"

definition Endpoint_Write_8 :: "byte \<Rightarrow> fw \<Rightarrow> fw" where
  "Endpoint_Write_8 v s =
    (let pos = unat (Position (FIFO s));
         s' = upd_FIFO (Position_update (\<lambda>p. p + 1)) s
     in case Data (FIFO s) of
          None \<Rightarrow> raise_fault s'
        | Some b \<Rightarrow> (case array_store (ram (hw s) b) pos v of
              None \<Rightarrow> raise_fault s'
            | Some xs \<Rightarrow> hw_update (ram_update (\<lambda>m. m(b := xs))) s'))"

definition Endpoint_Discard_8 :: "fw \<Rightarrow> fw" where
  "Endpoint_Discard_8 s = upd_FIFO (Position_update (\<lambda>p. p + 1)) s"

definition Endpoint_Read_16_LE :: "fw \<Rightarrow> u16 \<times> fw" where
  "Endpoint_Read_16_LE s =
    (let (Byte0, s) = Endpoint_Read_8 s; (Byte1, s) = Endpoint_Read_8 s
     in (push_bit 8 (ucast Byte1) OR ucast Byte0, s))"

definition Endpoint_Read_16_BE :: "fw \<Rightarrow> u16 \<times> fw" where
  "Endpoint_Read_16_BE s =
    (let (Byte0, s) = Endpoint_Read_8 s; (Byte1, s) = Endpoint_Read_8 s
     in (push_bit 8 (ucast Byte0) OR ucast Byte1, s))"

definition Endpoint_Write_16_LE :: "u16 \<Rightarrow> fw \<Rightarrow> fw" where
  "Endpoint_Write_16_LE v s =
     Endpoint_Write_8 (ucast (drop_bit 8 v)) (Endpoint_Write_8 (ucast (v AND 0xFF)) s)"

definition Endpoint_Write_16_BE :: "u16 \<Rightarrow> fw \<Rightarrow> fw" where
  "Endpoint_Write_16_BE v s =
     Endpoint_Write_8 (ucast (v AND 0xFF)) (Endpoint_Write_8 (ucast (drop_bit 8 v)) s)"

definition Endpoint_Discard_16 :: "fw \<Rightarrow> fw" where
  "Endpoint_Discard_16 s = Endpoint_Discard_8 (Endpoint_Discard_8 s)"

definition Endpoint_Read_32_LE :: "fw \<Rightarrow> u32 \<times> fw" where
  "Endpoint_Read_32_LE s =
    (let (Byte0, s) = Endpoint_Read_8 s; (Byte1, s) = Endpoint_Read_8 s;
         (Byte2, s) = Endpoint_Read_8 s; (Byte3, s) = Endpoint_Read_8 s
     in (push_bit 24 (ucast Byte3) OR push_bit 16 (ucast Byte2) OR push_bit 8 (ucast Byte1) OR
           ucast Byte0, s))"

definition Endpoint_Read_32_BE :: "fw \<Rightarrow> u32 \<times> fw" where
  "Endpoint_Read_32_BE s =
    (let (Byte0, s) = Endpoint_Read_8 s; (Byte1, s) = Endpoint_Read_8 s;
         (Byte2, s) = Endpoint_Read_8 s; (Byte3, s) = Endpoint_Read_8 s
     in (push_bit 24 (ucast Byte0) OR push_bit 16 (ucast Byte1) OR push_bit 8 (ucast Byte2) OR
           ucast Byte3, s))"

definition Endpoint_Write_32_LE :: "u32 \<Rightarrow> fw \<Rightarrow> fw" where
  "Endpoint_Write_32_LE v s =
    (let s = Endpoint_Write_8 (ucast (v AND 0xFF)) s;
         s = Endpoint_Write_8 (ucast (drop_bit 8 v)) s;
         s = Endpoint_Write_8 (ucast (drop_bit 16 v)) s
     in Endpoint_Write_8 (ucast (drop_bit 24 v)) s)"

definition Endpoint_Write_32_BE :: "u32 \<Rightarrow> fw \<Rightarrow> fw" where
  "Endpoint_Write_32_BE v s =
    (let s = Endpoint_Write_8 (ucast (drop_bit 24 v)) s;
         s = Endpoint_Write_8 (ucast (drop_bit 16 v)) s;
         s = Endpoint_Write_8 (ucast (drop_bit 8 v)) s
     in Endpoint_Write_8 (ucast (v AND 0xFF)) s)"

definition Endpoint_Discard_32 :: "fw \<Rightarrow> fw" where
  "Endpoint_Discard_32 s =
     Endpoint_Discard_8 (Endpoint_Discard_8 (Endpoint_Discard_8 (Endpoint_Discard_8 s)))"

subsection \<open>Control and status bytes\<close>

text \<open>
  \<open>Endpoint_ClearIN\<close> passes the bytes written so far to the controller. The history
  variable records them.
\<close>

definition fifo_bytes :: "fw \<Rightarrow> byte list" where
  "fifo_bytes s = (case Data (FIFO s) of
     None \<Rightarrow> [] | Some b \<Rightarrow> take (unat (Position (FIFO s))) (ram (hw s) b))"

definition log_packet :: "fw \<Rightarrow> fw" where
  "log_packet s = (case SelectedFIFO s of
     None \<Rightarrow> s | Some e \<Rightarrow> sent_update (\<lambda>l. l @ [(e, fifo_bytes s)]) s)"

definition Endpoint_ClearIN :: "fw \<Rightarrow> fw" where
  "Endpoint_ClearIN s =
    (let s = log_packet s;
         s = upd_Handle (EP_CNT_update (\<lambda>_. ucast (Position (FIFO s)))) s;
         s = upd_Handle (EP_STATUS_update (\<lambda>x. x AND NOT
               (USB_EP_TRNCOMPL0_bm OR USB_EP_BUSNACK0_bm OR USB_EP_OVF_bm))) s
     in upd_FIFO (Position_update (\<lambda>_. 0)) s)"

definition Endpoint_ClearOUT :: "fw \<Rightarrow> fw" where
  "Endpoint_ClearOUT s =
    (let s = upd_Handle (EP_STATUS_update (\<lambda>x. x AND NOT
               (USB_EP_TRNCOMPL0_bm OR USB_EP_BUSNACK0_bm OR USB_EP_OVF_bm))) s
     in upd_FIFO (Position_update (\<lambda>_. 0)) s)"

definition Endpoint_ClearSETUP :: "fw \<Rightarrow> fw" where
  "Endpoint_ClearSETUP s =
    (let s = Endpoint_SelectEndpoint (SelectedEndpoint s AND NOT ENDPOINT_DIR_IN) s;
         s = upd_Handle (EP_STATUS_update (\<lambda>x. x AND NOT
               (USB_EP_SETUP_bm OR USB_EP_TRNCOMPL0_bm OR USB_EP_BUSNACK0_bm OR USB_EP_OVF_bm))) s;
         s = upd_Handle (EP_STATUS_update (\<lambda>x. x OR USB_EP_TOGGLE_bm)) s;
         s = upd_FIFO (Position_update (\<lambda>_. 0)) s;
         s = Endpoint_SelectEndpoint (SelectedEndpoint s OR ENDPOINT_DIR_IN) s;
         s = upd_Handle (EP_STATUS_update (\<lambda>x. x OR USB_EP_TOGGLE_bm)) s
     in upd_FIFO (Position_update (\<lambda>_. 0)) s)"

definition Endpoint_StallTransaction :: "fw \<Rightarrow> fw" where
  "Endpoint_StallTransaction s =
    (let s = upd_Handle (EP_CTRL_update (\<lambda>x. x OR USB_EP_STALL_bm)) s
     in if EP_CTRL (Handle s) AND USB_EP_TYPE_gm = USB_EP_TYPE_CONTROL_gc
        then upd_Handle (EP_CTRL_update (\<lambda>x. x OR USB_EP_STALL_bm))
               (Endpoint_SelectEndpoint (SelectedEndpoint s XOR ENDPOINT_DIR_IN) s)
        else s)"

definition Endpoint_ClearStall :: "fw \<Rightarrow> fw" where
  "Endpoint_ClearStall s = upd_Handle (EP_CTRL_update (\<lambda>x. x AND NOT USB_EP_STALL_bm)) s"

definition Endpoint_IsStalled :: "fw \<Rightarrow> bool" where
  "Endpoint_IsStalled s \<longleftrightarrow> EP_CTRL (Handle s) AND USB_EP_STALL_bm \<noteq> 0"

definition Endpoint_IsConfigured :: "fw \<Rightarrow> bool" where
  "Endpoint_IsConfigured s \<longleftrightarrow> EP_CTRL (Handle s) AND USB_EP_TYPE_gm \<noteq> 0"

definition Endpoint_IsEnabled :: "fw \<Rightarrow> bool" where
  "Endpoint_IsEnabled s \<longleftrightarrow> True"

definition Endpoint_ResetDataToggle :: "fw \<Rightarrow> fw" where
  "Endpoint_ResetDataToggle s = upd_Handle (EP_STATUS_update (\<lambda>x. x AND NOT USB_EP_TOGGLE_bm)) s"

definition Endpoint_AbortPendingIN :: "fw \<Rightarrow> fw" where
  "Endpoint_AbortPendingIN s = upd_Handle (EP_STATUS_update (\<lambda>x. x OR USB_EP_BUSNACK0_bm)) s"

subsection \<open>Endpoint addresses\<close>

text \<open>The number an address carries; changing the direction bit keeps it.\<close>

definition ep_num :: "byte \<Rightarrow> nat" where
  "ep_num addr = unat (addr AND ENDPOINT_EPNUM_MASK)"

lemma ep_num_or [simp]: "ep_num (a OR ENDPOINT_DIR_IN) = ep_num a"
  by (simp add: ep_num_def ep_consts bit.conj_disj_distrib2)

lemma ep_num_andnot [simp]: "ep_num (a AND NOT ENDPOINT_DIR_IN) = ep_num a"
proof -
  have "(a AND NOT 0x80) AND 0x0F = a AND (NOT 0x80 AND 0x0F)" by (simp only: and.assoc)
  then show ?thesis by (simp add: ep_num_def ep_consts)
qed

lemma ep_num_xor [simp]: "ep_num (a XOR ENDPOINT_DIR_IN) = ep_num a"
  by (simp add: ep_num_def ep_consts bit.conj_xor_distrib2)

lemma is_IN_or [simp]: "is_IN (a OR ENDPOINT_DIR_IN)"
  by (simp add: is_IN_def ep_consts bit.conj_disj_distrib2 )

lemma is_IN_andnot [simp]: "\<not> is_IN (a AND NOT ENDPOINT_DIR_IN)"
  by (simp add: is_IN_def ep_consts and.assoc)

lemma ep_of_alt: "ep_of a = (if is_IN a then EpIN (ep_num a) else EpOUT (ep_num a))"
  by (simp add: ep_of_def ep_num_def)

lemma ep_num_less: "ep_num a < 16"
proof -
  have "a AND 0x0F \<le> 0x0F" by (rule word_and_le1)
  then show ?thesis by (simp add: ep_num_def ep_consts word_le_nat_alt)
qed

subsection \<open>The size code\<close>

text \<open>
  Up to 32768 bytes the loop ends with the least exponent whose bank holds the endpoint; above
  that the 16-bit value wraps to zero and the loop never ends.
\<close>

lemma size_loop_ends:
  assumes "unat Bytes \<le> 2 ^ 15" "j \<le> 12"
  shows "\<exists>k. ep_size_loop Bytes (of_nat j) (2 ^ (3 + j)) = Some (of_nat k) \<and> j \<le> k \<and> k \<le> 12 \<and>
    unat Bytes \<le> 8 * 2 ^ k \<and> (k = j \<or> 8 * 2 ^ (k - 1) < unat Bytes)"
  using assms(2)
proof (induction "12 - j" arbitrary: j rule: less_induct)
  case less
  have c: "unat (2 ^ (3 + j) :: u16) = 8 * 2 ^ j"
  proof -
    have "8 * 2 ^ j < (65536 :: nat)" using less.prems power_increasing [of j 12 "2 :: nat"] by simp
    moreover have "(2 ^ (3 + j) :: u16) = of_nat (8 * 2 ^ j)" by (simp add: power_add)
    ultimately show ?thesis by (simp only: unat_of_nat) simp
  qed
  show ?case
  proof (cases "(2 ^ (3 + j) :: u16) < Bytes")
    case False
    then show ?thesis
      using c less.prems by (subst ep_size_loop.simps) (auto simp: word_less_nat_alt intro!: exI [of _ j])
  next
    case True
    then have lt: "8 * 2 ^ j < unat Bytes" using c by (simp add: word_less_nat_alt)
    have "j \<noteq> 12" using lt assms(1) by auto
    then have j: "Suc j \<le> 12" using less.prems by simp
    have step: "ep_size_loop Bytes (of_nat j) (2 ^ (3 + j)) = ep_size_loop Bytes (of_nat (Suc j)) (2 ^ (3 + Suc j))"
      using True by (subst ep_size_loop.simps) (simp add: push_bit_eq_mult add.commute power_add mult.commute)
    show ?thesis
    proof -
      have "12 - Suc j < 12 - j" using j by simp
      from less.hyps [OF this j] obtain k where
        "ep_size_loop Bytes (of_nat (Suc j)) (2 ^ (3 + Suc j)) = Some (of_nat k)" "Suc j \<le> k" "k \<le> 12"
        "unat Bytes \<le> 8 * 2 ^ k" "k = Suc j \<or> 8 * 2 ^ (k - 1) < unat Bytes" by blast
      then show ?thesis using lt unfolding step by (intro exI [of _ k]) auto
    qed
  qed
qed

lemma BytesToEPSizeMask_small:
  assumes "Bytes \<le> 0x8000"
  shows "\<exists>k. Endpoint_BytesToEPSizeMask Bytes = Some (of_nat k) \<and> k \<le> 12 \<and>
    unat Bytes \<le> 8 * 2 ^ k \<and> (k = 0 \<or> 8 * 2 ^ (k - 1) < unat Bytes)"
  using size_loop_ends [of Bytes 0] assms
  by (simp add: Endpoint_BytesToEPSizeMask_def word_le_nat_alt)

definition size_steps :: "u16 set" where
  "size_steps = {8, 16, 32, 64, 128, 256, 512, 1024, 2048, 4096, 8192, 16384, 32768, 0}"

lemma size_steps_step:
  "c \<in> size_steps \<Longrightarrow> 0x8000 < Bytes \<Longrightarrow> c < Bytes \<and> push_bit 1 c \<in> size_steps"
  by (auto simp: size_steps_def word_less_nat_alt)

lemma size_loop_never:
  "ep_size_loop Bytes m c = Some y \<Longrightarrow> \<not> (c \<in> size_steps \<and> 0x8000 < Bytes)"
proof (erule ep_size_loop.raw_induct [rotated])
  fix f :: "u16 \<Rightarrow> byte \<Rightarrow> u16 \<Rightarrow> byte option" and Bytes m c y
  assume "\<And>Bytes m c y. f Bytes m c = Some y \<Longrightarrow> \<not> (c \<in> size_steps \<and> 0x8000 < Bytes)"
    and "(if c < Bytes then f Bytes (m + 1) (push_bit 1 c) else Some m) = Some y"
  then show "\<not> (c \<in> size_steps \<and> 0x8000 < Bytes)" using size_steps_step by metis
qed

lemma BytesToEPSizeMask_large: "0x8000 < Bytes \<Longrightarrow> Endpoint_BytesToEPSizeMask Bytes = None"
  using size_loop_never [of Bytes 0 8]
  by (cases "Endpoint_BytesToEPSizeMask Bytes") (auto simp: Endpoint_BytesToEPSizeMask_def size_steps_def)

lemma BytesToEPSizeMask_8 [simp]: "Endpoint_BytesToEPSizeMask 8 = Some 0"
  by (simp add: Endpoint_BytesToEPSizeMask_def ep_size_loop.simps)

lemma BytesToEPSizeMask_64 [simp]: "Endpoint_BytesToEPSizeMask 64 = Some 3"
  by (simp add: Endpoint_BytesToEPSizeMask_def ep_size_loop.simps)

subsection \<open>The effect of a configuration\<close>

lemma configure_PRV_eq:
  assumes "USB_EPPTR (usb (hw s))"
  shows "Endpoint_ConfigureEndpoint_PRV a c n s = (True, s\<lparr>
    SelectedEndpoint := a, SelectedFIFO := Some (ep_of a), SelectedHandle := Some (ep_of a),
    hw := (hw s)\<lparr>eptable := (eptable (hw s))(ep_of a := \<lparr>
      EP_STATUS = if is_IN a then USB_EP_BUSNACK0_bm else 0, EP_CTRL = c, EP_CNT = 0,
      EP_DATAPTR = Data (FIFOs s (ep_of a))\<rparr>)\<rparr>,
    FIFOs := (FIFOs s)(ep_of a := (FIFOs s (ep_of a))\<lparr>
      Length := if is_IN a then n else 0, Position := 0\<rparr>)\<rparr>)"
  using assms
  by (auto simp: Endpoint_ConfigureEndpoint_PRV_def Endpoint_SelectEndpoint_def upd_Handle_def
      upd_FIFO_def FIFO_def Let_def fun_eq_iff
      intro!: fw.equality xmega.equality usb_ep.equality Endpoint_FIFO_t.equality)

lemma ep_of_consts [simp]:
  "ep_of 0 = EpOUT 0" "ep_of 0x80 = EpIN 0" "ep_of 0x83 = EpIN 3" "ep_of 0x04 = EpOUT 4" "ep_of 0x82 = EpIN 2"
  "is_IN 0x80" "\<not> is_IN 0" "is_IN 0x83" "\<not> is_IN 4" "is_IN 0x82"
  by (simp_all add: ep_of_def is_IN_def ep_consts)

lemma clear_endpoints_fold:
  "USB_EPPTR (usb (hw s)) \<Longrightarrow>
   fold (\<lambda>n s. upd_table (EpOUT n) (EP_CTRL_update (\<lambda>_. 0))
                   (upd_table (EpIN n) (EP_CTRL_update (\<lambda>_. 0)) s)) [0..<k] s =
   s\<lparr>hw := (hw s)\<lparr>eptable := (\<lambda>e. if (case e of EpOUT n \<Rightarrow> n < k | EpIN n \<Rightarrow> n < k)
       then (eptable (hw s) e)\<lparr>EP_CTRL := 0\<rparr> else eptable (hw s) e)\<rparr>\<rparr>"
proof (induction k)
  case 0
  have "(case e of EpOUT n \<Rightarrow> n < 0 | EpIN n \<Rightarrow> n < 0) = False" for e by (cases e) auto
  then show ?case by simp
next
  case (Suc k)
  then show ?case
    by (auto simp: upd_table_def fun_eq_iff less_Suc_eq intro!: fw.equality xmega.equality split: epref.splits)
qed

lemma clear_endpoints_eq:
  "USB_EPPTR (usb (hw s)) \<Longrightarrow> Endpoint_ClearEndpoints s =
   s\<lparr>hw := (hw s)\<lparr>eptable := (\<lambda>e. if (case e of EpOUT n \<Rightarrow> n < 16 | EpIN n \<Rightarrow> n < 16)
       then (eptable (hw s) e)\<lparr>EP_CTRL := 0\<rparr> else eptable (hw s) e)\<rparr>\<rparr>"
  unfolding Endpoint_ClearEndpoints_def ENDPOINT_TOTAL_ENDPOINTS_def by (rule clear_endpoints_fold)

end
