(* ===== verification/UsbController.thy ===== *)
theory UsbController
  imports Endpoint
begin

text \<open>
  The USB controller driver: \<open>Device_XMEGA.h\<close>, \<open>USBInterrupt_XMEGA.h\<close>,
  \<open>USBInterrupt_XMEGA.c\<close>, \<open>USBController_XMEGA.h\<close> and \<open>USBController_XMEGA.c\<close>.
  The last section defines how asynchronous activity reaches the firmware: the hardware
  step that is next in the schedule, followed by the bus event interrupt if one is pending.
\<close>

unbundle bit_operations_syntax

subsection \<open>Device address, speed and serial number\<close>

definition USB_Device_GetFrameNumber :: "fw \<Rightarrow> u16" where
  "USB_Device_GetFrameNumber s = FrameNum (hw s)"

definition USB_Device_EnableSOFEvents :: "fw \<Rightarrow> fw" where
  "USB_Device_EnableSOFEvents = upd_usb (USB_INTCTRLA_update (\<lambda>x. x OR USB_SOFIE_bm))"

definition USB_Device_DisableSOFEvents :: "fw \<Rightarrow> fw" where
  "USB_Device_DisableSOFEvents = upd_usb (USB_INTCTRLA_update (\<lambda>x. x AND NOT USB_SOFIE_bm))"

definition USB_Device_SetLowSpeed :: "fw \<Rightarrow> fw" where
  "USB_Device_SetLowSpeed = upd_usb (USB_CTRLA_update (\<lambda>x. x AND NOT USB_SPEED_bm))"

definition USB_Device_SetFullSpeed :: "fw \<Rightarrow> fw" where
  "USB_Device_SetFullSpeed = upd_usb (USB_CTRLA_update (\<lambda>x. x OR USB_SPEED_bm))"

definition USB_Device_SetDeviceAddress :: "byte \<Rightarrow> fw \<Rightarrow> fw" where
  "USB_Device_SetDeviceAddress addr s = s"

definition USB_Device_EnableDeviceAddress :: "byte \<Rightarrow> fw \<Rightarrow> fw" where
  "USB_Device_EnableDeviceAddress addr = upd_usb (USB_ADDR_update (\<lambda>_. addr))"

definition USB_Device_IsAddressSet :: "fw \<Rightarrow> bool" where
  "USB_Device_IsAddressSet s \<longleftrightarrow> USB_ADDR (usb (hw s)) \<noteq> 0"

subsection \<open>Interrupt sources\<close>

datatype USB_Interrupts_t =
    USB_INT_BUSEVENTI
  | USB_INT_BUSEVENTI_Suspend
  | USB_INT_BUSEVENTI_Resume
  | USB_INT_BUSEVENTI_Reset
  | USB_INT_SOFI

fun USB_INT_Enable :: "USB_Interrupts_t \<Rightarrow> fw \<Rightarrow> fw" where
  "USB_INT_Enable USB_INT_BUSEVENTI s = upd_usb (USB_INTCTRLA_update (\<lambda>x. x OR USB_BUSEVIE_bm)) s"
| "USB_INT_Enable USB_INT_SOFI s = upd_usb (USB_INTCTRLA_update (\<lambda>x. x OR USB_SOFIE_bm)) s"
| "USB_INT_Enable _ s = s"

fun USB_INT_Disable :: "USB_Interrupts_t \<Rightarrow> fw \<Rightarrow> fw" where
  "USB_INT_Disable USB_INT_BUSEVENTI s =
     upd_usb (USB_INTCTRLA_update (\<lambda>x. x AND NOT USB_BUSEVIE_bm)) s"
| "USB_INT_Disable USB_INT_SOFI s = upd_usb (USB_INTCTRLA_update (\<lambda>x. x AND NOT USB_SOFIE_bm)) s"
| "USB_INT_Disable _ s = s"

text \<open>Writing the register \<open>INTFLAGSACLR\<close> clears flags, reading it returns them.\<close>

fun USB_INT_Clear :: "USB_Interrupts_t \<Rightarrow> fw \<Rightarrow> fw" where
  "USB_INT_Clear USB_INT_BUSEVENTI_Suspend s =
     upd_usb (USB_INTFLAGSA_update (write_flags USB_SUSPENDIF_bm)) s"
| "USB_INT_Clear USB_INT_BUSEVENTI_Resume s =
     upd_usb (USB_INTFLAGSA_update (write_flags USB_RESUMEIF_bm)) s"
| "USB_INT_Clear USB_INT_BUSEVENTI_Reset s =
     upd_usb (USB_INTFLAGSA_update (write_flags USB_RSTIF_bm)) s"
| "USB_INT_Clear USB_INT_SOFI s = upd_usb (USB_INTFLAGSA_update (write_flags USB_SOFIF_bm)) s"
| "USB_INT_Clear USB_INT_BUSEVENTI s = s"

fun USB_INT_IsEnabled :: "USB_Interrupts_t \<Rightarrow> fw \<Rightarrow> bool" where
  "USB_INT_IsEnabled USB_INT_BUSEVENTI s \<longleftrightarrow> USB_INTCTRLA (usb (hw s)) AND USB_BUSEVIE_bm \<noteq> 0"
| "USB_INT_IsEnabled USB_INT_SOFI s \<longleftrightarrow> USB_INTCTRLA (usb (hw s)) AND USB_SOFIE_bm \<noteq> 0"
| "USB_INT_IsEnabled _ s \<longleftrightarrow> False"

fun USB_INT_HasOccurred :: "USB_Interrupts_t \<Rightarrow> fw \<Rightarrow> bool" where
  "USB_INT_HasOccurred USB_INT_BUSEVENTI_Suspend s \<longleftrightarrow>
     USB_INTFLAGSA (usb (hw s)) AND USB_SUSPENDIF_bm \<noteq> 0"
| "USB_INT_HasOccurred USB_INT_BUSEVENTI_Resume s \<longleftrightarrow>
     USB_INTFLAGSA (usb (hw s)) AND USB_RESUMEIF_bm \<noteq> 0"
| "USB_INT_HasOccurred USB_INT_BUSEVENTI_Reset s \<longleftrightarrow>
     USB_INTFLAGSA (usb (hw s)) AND USB_RSTIF_bm \<noteq> 0"
| "USB_INT_HasOccurred USB_INT_SOFI s \<longleftrightarrow> USB_INTFLAGSA (usb (hw s)) AND USB_SOFIF_bm \<noteq> 0"
| "USB_INT_HasOccurred USB_INT_BUSEVENTI s \<longleftrightarrow> False"

definition USB_INT_DisableAllInterrupts :: "fw \<Rightarrow> fw" where
  "USB_INT_DisableAllInterrupts =
     upd_usb (\<lambda>u. u\<lparr>USB_INTCTRLA := USB_INTCTRLA u AND USB_INTLVL_gm, USB_INTCTRLB := 0\<rparr>)"

definition USB_INT_ClearAllInterrupts :: "fw \<Rightarrow> fw" where
  "USB_INT_ClearAllInterrupts =
     upd_usb (\<lambda>u. u\<lparr>USB_INTFLAGSA := write_flags 0xFF (USB_INTFLAGSA u),
                    USB_INTFLAGSB := write_flags 0xFF (USB_INTFLAGSB u)\<rparr>)"

subsection \<open>The bus event interrupt\<close>

text \<open>
  The events the application does not handle are linked to an empty stub; the connect and
  disconnect handlers of the application have an empty body.
\<close>

definition USB_Event_Stub :: "fw \<Rightarrow> fw" where
  "USB_Event_Stub s = s"

definition EVENT_USB_Device_Connect :: "fw \<Rightarrow> fw" where
  "EVENT_USB_Device_Connect s = s"

definition EVENT_USB_Device_Disconnect :: "fw \<Rightarrow> fw" where
  "EVENT_USB_Device_Disconnect s = s"

text \<open>
  The control endpoint. Its size is a constant for which the size computation ends (lemma
  \<open>configure_control_endpoint_eq\<close> below).
\<close>

definition configure_control_endpoint :: "fw \<Rightarrow> fw" where
  "configure_control_endpoint s =
    (case Endpoint_ConfigureEndpoint ENDPOINT_CONTROLEP EP_TYPE_CONTROL
            USB_Device_ControlEndpointSize 1 s of
       None \<Rightarrow> s | Some (ok, s') \<Rightarrow> s')"

text \<open>The four parts of the handler, in the order of the code.\<close>

definition isr_SOFI :: "fw \<Rightarrow> fw" where
  "isr_SOFI s =
     (if USB_INT_HasOccurred USB_INT_SOFI s \<and> USB_INT_IsEnabled USB_INT_SOFI s
      then USB_Event_Stub (USB_INT_Clear USB_INT_SOFI s) else s)"

definition isr_Suspend :: "fw \<Rightarrow> fw" where
  "isr_Suspend s =
     (if USB_INT_HasOccurred USB_INT_BUSEVENTI_Suspend s
      then EVENT_USB_Device_Disconnect
             ((USB_INT_Clear USB_INT_BUSEVENTI_Suspend s)\<lparr>DeviceState := DEVICE_STATE_Unattached\<rparr>)
      else s)"

definition isr_Resume :: "fw \<Rightarrow> fw" where
  "isr_Resume s =
     (if USB_INT_HasOccurred USB_INT_BUSEVENTI_Resume s
      then let s = USB_INT_Clear USB_INT_BUSEVENTI_Resume s
           in EVENT_USB_Device_Connect (s\<lparr>DeviceState :=
                (if ConfigurationNumber s \<noteq> 0 then DEVICE_STATE_Configured
                 else if USB_Device_IsAddressSet s then DEVICE_STATE_Addressed
                 else DEVICE_STATE_Powered)\<rparr>)
      else s)"

definition isr_Reset :: "fw \<Rightarrow> fw" where
  "isr_Reset s =
     (if USB_INT_HasOccurred USB_INT_BUSEVENTI_Reset s
      then let s = USB_INT_Clear USB_INT_BUSEVENTI_Reset s;
               s = s\<lparr>DeviceState := DEVICE_STATE_Default, ConfigurationNumber := 0\<rparr>;
               s = USB_Device_EnableDeviceAddress 0 s;
               s = Endpoint_ClearEndpoints s;
               s = configure_control_endpoint s
           in USB_Event_Stub s
      else s)"

definition ISR_USB_BUSEVENT_vect :: "fw \<Rightarrow> fw" where
  "ISR_USB_BUSEVENT_vect s = isr_Reset (isr_Resume (isr_Suspend (isr_SOFI s)))"

subsection \<open>Asynchronous activity\<close>

text \<open>
  The interrupt is taken when it is pending, its source is enabled, its level is enabled in
  the interrupt controller and interrupts are enabled globally.
\<close>

definition bus_event_pending :: "fw \<Rightarrow> bool" where
  "bus_event_pending s \<longleftrightarrow>
     (USB_INT_IsEnabled USB_INT_BUSEVENTI s \<and>
        (USB_INT_HasOccurred USB_INT_BUSEVENTI_Suspend s \<or>
         USB_INT_HasOccurred USB_INT_BUSEVENTI_Resume s \<or>
         USB_INT_HasOccurred USB_INT_BUSEVENTI_Reset s)) \<or>
     (USB_INT_IsEnabled USB_INT_SOFI s \<and> USB_INT_HasOccurred USB_INT_SOFI s)"

definition usb_level_enabled :: "fw \<Rightarrow> bool" where
  "usb_level_enabled s =
    (let lvl = USB_INTCTRLA (usb (hw s)) AND USB_INTLVL_gm; en = PMIC_CTRL (sys (hw s))
     in (lvl = 1 \<and> bit en 0) \<or> (lvl = 2 \<and> bit en 1) \<or> (lvl = 3 \<and> bit en 2))"

definition irq :: "fw \<Rightarrow> fw" where
  "irq s = (if sreg_I s \<and> usb_level_enabled s \<and> bus_event_pending s
            then ISR_USB_BUSEVENT_vect s else s)"

definition poll :: "fw \<Rightarrow> fw" where
  "poll s = irq (case sched s of [] \<Rightarrow> s | h # hs \<Rightarrow> s\<lparr>hw := h (hw s), sched := hs\<rparr>)"

definition SetGlobalInterruptMask :: "bool \<Rightarrow> fw \<Rightarrow> fw" where
  "SetGlobalInterruptMask en s = irq (s\<lparr>sreg_I := en\<rparr>)"

definition GlobalInterruptDisable :: "fw \<Rightarrow> fw" where
  "GlobalInterruptDisable s = s\<lparr>sreg_I := False\<rparr>"

subsection \<open>Signature row\<close>

definition NVM_CMD_NO_OPERATION_gc :: byte where "NVM_CMD_NO_OPERATION_gc = 0x00"
definition NVM_CMD_READ_CALIB_ROW_gc :: byte where "NVM_CMD_READ_CALIB_ROW_gc = 0x02"
definition offset_LOTNUM0 :: byte where "offset_LOTNUM0 = 0x08"
definition offset_COORDY1 :: byte where "offset_COORDY1 = 0x15"
definition offset_USBCAL0 :: byte where "offset_USBCAL0 = 0x1A"
definition offset_USBCAL1 :: byte where "offset_USBCAL1 = 0x1B"

definition set_NVM_CMD :: "byte \<Rightarrow> fw \<Rightarrow> fw" where
  "set_NVM_CMD c = upd_sys (NVM_CMD_update (\<lambda>_. c))"

definition pgm_read_byte :: "byte \<Rightarrow> fw \<Rightarrow> byte" where
  "pgm_read_byte a s =
     (if NVM_CMD (sys (hw s)) = NVM_CMD_READ_CALIB_ROW_gc then sigrow (hw s) a
      else progmem (hw s) a)"

definition INTERNAL_SERIAL_START_ADDRESS :: byte where
  "INTERNAL_SERIAL_START_ADDRESS = offset_LOTNUM0"

definition INTERNAL_SERIAL_LENGTH_BITS :: nat where
  "INTERNAL_SERIAL_LENGTH_BITS = 8 * (1 + (unat offset_COORDY1 - unat offset_LOTNUM0))"

definition serial_digit :: "byte \<Rightarrow> u16" where
  "serial_digit b = (if b \<ge> 10 then 55 + ucast b else 48 + ucast b)"

primrec serial_loop :: "nat \<Rightarrow> nat \<Rightarrow> byte \<Rightarrow> fw \<Rightarrow> u16 list \<times> fw" where
  "serial_loop 0 SerialCharNum SigReadAddress s = ([], s)"
| "serial_loop (Suc n) SerialCharNum SigReadAddress s =
    (let s = set_NVM_CMD NVM_CMD_READ_CALIB_ROW_gc s;
         SerialByte = pgm_read_byte SigReadAddress s;
         s = set_NVM_CMD 0 s;
         (SerialByte, SigReadAddress) =
           (if odd SerialCharNum then (drop_bit 4 SerialByte, SigReadAddress + 1)
            else (SerialByte, SigReadAddress));
         SerialByte = SerialByte AND 0x0F;
         (cs, s) = serial_loop n (Suc SerialCharNum) SigReadAddress s
     in (serial_digit SerialByte # cs, s))"

definition USB_Device_GetSerialString :: "fw \<Rightarrow> u16 list \<times> fw" where
  "USB_Device_GetSerialString s =
    (let CurrentGlobalInt = sreg_I s;
         s = GlobalInterruptDisable s;
         (cs, s) = serial_loop (INTERNAL_SERIAL_LENGTH_BITS div 4) 0 INTERNAL_SERIAL_START_ADDRESS s
     in (cs, SetGlobalInterruptMask CurrentGlobalInt s))"

subsection \<open>Start and stop\<close>

definition USB_OPT_BUSEVENT_PRIMED :: byte where "USB_OPT_BUSEVENT_PRIMED = 0x02"
definition USB_OPT_BUSEVENT_PRIHIGH :: byte where "USB_OPT_BUSEVENT_PRIHIGH = 0x04"
definition USB_OPT_PLLCLKSRC :: byte where "USB_OPT_PLLCLKSRC = 0x08"
definition USB_DEVICE_OPT_LOWSPEED :: byte where "USB_DEVICE_OPT_LOWSPEED = 0x01"

definition USB_Options :: byte where
  "USB_Options = USB_OPT_BUSEVENT_PRIMED OR USB_OPT_PLLCLKSRC"

definition CLK_USBSRC_PLL_gc :: byte where "CLK_USBSRC_PLL_gc = 0x00"
definition CLK_USBSRC_RC32M_gc :: byte where "CLK_USBSRC_RC32M_gc = 0x02"
definition CLK_USBSEN_bm :: byte where "CLK_USBSEN_bm = 0x01"
definition CLK_USBPSDIV_gp :: nat where "CLK_USBPSDIV_gp = 3"
definition F_USB :: nat where "F_USB = 6000000"

definition USB_Detach :: "fw \<Rightarrow> fw" where
  "USB_Detach = upd_usb (USB_CTRLB_update (\<lambda>x. x AND NOT USB_ATTACH_bm))"

definition USB_Attach :: "fw \<Rightarrow> fw" where
  "USB_Attach = upd_usb (USB_CTRLB_update (\<lambda>x. x OR USB_ATTACH_bm))"

definition USB_Controller_Enable :: "fw \<Rightarrow> fw" where
  "USB_Controller_Enable = upd_usb (USB_CTRLA_update (\<lambda>x. x OR USB_ENABLE_bm))"

definition USB_Controller_Disable :: "fw \<Rightarrow> fw" where
  "USB_Controller_Disable = upd_usb (USB_CTRLA_update (\<lambda>x. x AND NOT USB_ENABLE_bm))"

definition USB_Controller_Reset :: "fw \<Rightarrow> fw" where
  "USB_Controller_Reset s =
    (let s = upd_usb (USB_CTRLA_update (\<lambda>x. x AND NOT USB_ENABLE_bm)) s
     in upd_usb (USB_CTRLA_update (\<lambda>x. x OR USB_ENABLE_bm)) s)"

definition USB_Init_Device :: "fw \<Rightarrow> fw" where
  "USB_Init_Device s =
    (let s = s\<lparr>DeviceState := DEVICE_STATE_Unattached, ConfigurationNumber := 0\<rparr>;
         s = (if USB_Options AND USB_DEVICE_OPT_LOWSPEED \<noteq> 0 then USB_Device_SetLowSpeed s
              else USB_Device_SetFullSpeed s);
         s = configure_control_endpoint s;
         s = USB_INT_Enable USB_INT_BUSEVENTI s
     in USB_Attach s)"

function divider_loop :: "byte \<Rightarrow> byte \<Rightarrow> byte" where
  "divider_loop PrescalerNeeded DividerIndex =
     (if PrescalerNeeded > 0 then divider_loop (drop_bit 1 PrescalerNeeded) (DividerIndex + 1)
      else DividerIndex)"
  by auto
termination
proof (relation "measure (\<lambda>(p, _). unat p)")
  fix p d :: byte
  assume "p > 0"
  then have "0 < unat p" by (simp add: unat_gt_0 word_greater_zero_iff)
  then show "((drop_bit 1 p, d + 1), (p, d)) \<in> measure (\<lambda>(p, _). unat p)"
    by (simp add: drop_bit_Suc unat_div)
qed simp

declare divider_loop.simps [simp del]

definition USB_ResetInterface :: "fw \<Rightarrow> fw" where
  "USB_ResetInterface s =
    (let PrescalerNeeded = of_nat (F_USB div 6000000);
         DividerIndex = divider_loop PrescalerNeeded 0;
         s = upd_sys (CLK_USBCTRL_update (\<lambda>_. push_bit CLK_USBPSDIV_gp (DividerIndex - 1))) s;
         s = (if USB_Options AND USB_OPT_PLLCLKSRC \<noteq> 0
              then upd_sys (CLK_USBCTRL_update (\<lambda>x. x OR (CLK_USBSRC_PLL_gc OR CLK_USBSEN_bm))) s
              else upd_sys (CLK_USBCTRL_update (\<lambda>x. x OR (CLK_USBSRC_RC32M_gc OR CLK_USBSEN_bm))) s);
         s = USB_Device_SetDeviceAddress 0 s;
         s = USB_INT_DisableAllInterrupts s;
         s = USB_INT_ClearAllInterrupts s;
         s = USB_Controller_Reset s
     in USB_Init_Device s)"

definition USB_Init :: "fw \<Rightarrow> fw" where
  "USB_Init s =
    (let CurrentGlobalInt = sreg_I s;
         s = GlobalInterruptDisable s;
         s = set_NVM_CMD NVM_CMD_READ_CALIB_ROW_gc s;
         s = upd_usb (USB_CAL0_update (\<lambda>_. pgm_read_byte offset_USBCAL0 s)) s;
         s = upd_usb (USB_CAL1_update (\<lambda>_. pgm_read_byte offset_USBCAL1 s)) s;
         s = set_NVM_CMD NVM_CMD_NO_OPERATION_gc s;
         s = upd_usb (USB_EPPTR_update (\<lambda>_. True)) s;
         s = upd_usb (USB_CTRLA_update (\<lambda>_. USB_STFRNUM_bm OR of_nat (ENDPOINT_TOTAL_ENDPOINTS - 1))) s;
         s = (if USB_Options AND USB_OPT_BUSEVENT_PRIHIGH = USB_OPT_BUSEVENT_PRIHIGH
              then upd_usb (USB_INTCTRLA_update (\<lambda>_. 3)) s
              else if USB_Options AND USB_OPT_BUSEVENT_PRIMED = USB_OPT_BUSEVENT_PRIMED
              then upd_usb (USB_INTCTRLA_update (\<lambda>_. 2)) s
              else upd_usb (USB_INTCTRLA_update (\<lambda>_. 1)) s);
         s = SetGlobalInterruptMask CurrentGlobalInt s;
         s = s\<lparr>IsInitialized := True\<rparr>
     in USB_ResetInterface s)"

definition USB_Disable :: "fw \<Rightarrow> fw" where
  "USB_Disable s =
    (let s = USB_INT_DisableAllInterrupts s;
         s = USB_INT_ClearAllInterrupts s;
         s = USB_Detach s;
         s = USB_Controller_Disable s
     in s\<lparr>IsInitialized := False\<rparr>)"

subsection \<open>The control endpoint after a configuration\<close>

definition control_reset :: "fw \<Rightarrow> fw" where
  "control_reset s = s\<lparr>
    SelectedEndpoint := 0, SelectedFIFO := Some (EpOUT 0), SelectedHandle := Some (EpOUT 0),
    hw := (hw s)\<lparr>eptable := (eptable (hw s))(
      EpIN 0 := \<lparr>EP_STATUS = USB_EP_BUSNACK0_bm, EP_CTRL = 0x48, EP_CNT = 0,
                 EP_DATAPTR = Data (FIFOs s (EpIN 0))\<rparr>,
      EpOUT 0 := \<lparr>EP_STATUS = 0, EP_CTRL = 0x48, EP_CNT = 0,
                  EP_DATAPTR = Data (FIFOs s (EpOUT 0))\<rparr>)\<rparr>,
    FIFOs := (FIFOs s)(
      EpIN 0 := (FIFOs s (EpIN 0))\<lparr>Length := 8, Position := 0\<rparr>,
      EpOUT 0 := (FIFOs s (EpOUT 0))\<lparr>Length := 0, Position := 0\<rparr>)\<rparr>"

lemma configure_control_eq:
  assumes "USB_EPPTR (usb (hw s))"
  shows "Endpoint_ConfigureEndpoint ENDPOINT_CONTROLEP EP_TYPE_CONTROL USB_Device_ControlEndpointSize 1 s
    = Some (True, control_reset s)"
  using assms
  by (simp add: Endpoint_ConfigureEndpoint_def ep_consts ep_masks configure_PRV_eq control_reset_def)

lemma configure_control_endpoint_eq:
  "USB_EPPTR (usb (hw s)) \<Longrightarrow> configure_control_endpoint s = control_reset s"
  by (simp add: configure_control_endpoint_def configure_control_eq)

subsection \<open>What the parts of the interrupt change\<close>

lemma INT_Clear_fields [simp]:
  "eptable (hw (USB_INT_Clear i s)) = eptable (hw s)" "ram (hw (USB_INT_Clear i s)) = ram (hw s)"
  "scopeBuf (hw (USB_INT_Clear i s)) = scopeBuf (hw s)" "sys (hw (USB_INT_Clear i s)) = sys (hw s)"
  "USB_EPPTR (usb (hw (USB_INT_Clear i s))) = USB_EPPTR (usb (hw s))"
  "USB_ADDR (usb (hw (USB_INT_Clear i s))) = USB_ADDR (usb (hw s))"
  "FIFOs (USB_INT_Clear i s) = FIFOs s" "SelectedEndpoint (USB_INT_Clear i s) = SelectedEndpoint s"
  "SelectedHandle (USB_INT_Clear i s) = SelectedHandle s" "SelectedFIFO (USB_INT_Clear i s) = SelectedFIFO s"
  "CDC (USB_INT_Clear i s) = CDC s" "ControlRequest (USB_INT_Clear i s) = ControlRequest s"
  "fault (USB_INT_Clear i s) = fault s" "sched (USB_INT_Clear i s) = sched s"
  "USBtoUSART_Buffer (USB_INT_Clear i s) = USBtoUSART_Buffer s" "sent (USB_INT_Clear i s) = sent s"
  "ok_to_send (USB_INT_Clear i s) = ok_to_send s" "sreg_I (USB_INT_Clear i s) = sreg_I s"
  "ConfigurationNumber (USB_INT_Clear i s) = ConfigurationNumber s"
  "DeviceState (USB_INT_Clear i s) = DeviceState s"
  by (cases i; simp)+

text \<open>
  The parts before the bus reset change nothing but the interrupt flags and the device state.
\<close>

definition bus_state :: "fw \<Rightarrow> fw" where
  "bus_state s = s\<lparr>DeviceState := DEVICE_STATE_Unattached, hw := (hw s)\<lparr>usb := (usb (hw s))\<lparr>USB_INTFLAGSA := 0\<rparr>\<rparr>\<rparr>"

lemma INT_Clear_frame: "bus_state (USB_INT_Clear i s) = bus_state s"
  by (cases i) (simp_all add: bus_state_def)

lemma isr_frames:
  "bus_state (isr_SOFI s) = bus_state s" "bus_state (isr_Suspend s) = bus_state s"
  "bus_state (isr_Resume s) = bus_state s"
  by (simp_all add: isr_SOFI_def isr_Suspend_def isr_Resume_def INT_Clear_frame Let_def
      USB_Event_Stub_def EVENT_USB_Device_Connect_def EVENT_USB_Device_Disconnect_def)
     (simp_all add: bus_state_def)

end
