(* ===== verification/EndpointStream.thy ===== *)
theory EndpointStream
  imports UsbController
begin

text \<open>
  Waiting on endpoints (\<open>Endpoint_XMEGA.c\<close>) and the stream transfers built on it
  (\<open>EndpointStream_XMEGA.c\<close> and its templates). The status queries sample the hardware
  once. A waiting loop is a partial function: it has no value when it never returns.
\<close>

unbundle bit_operations_syntax

subsection \<open>Status queries\<close>

definition Endpoint_IsINReady :: "fw \<Rightarrow> bool \<times> fw" where
  "Endpoint_IsINReady s =
    (let s = poll s;
         s = Endpoint_SelectEndpoint (SelectedEndpoint s OR ENDPOINT_DIR_IN) s
     in (EP_STATUS (Handle s) AND USB_EP_BUSNACK0_bm \<noteq> 0, s))"

definition Endpoint_IsOUTReceived :: "fw \<Rightarrow> bool \<times> fw" where
  "Endpoint_IsOUTReceived s =
    (let s = poll s;
         s = Endpoint_SelectEndpoint (SelectedEndpoint s AND NOT ENDPOINT_DIR_IN) s
     in if EP_STATUS (Handle s) AND USB_EP_TRNCOMPL0_bm \<noteq> 0
        then (True, upd_FIFO (Length_update (\<lambda>_. ucast (EP_CNT (Handle s)))) s)
        else (False, s))"

definition Endpoint_IsSETUPReceived :: "fw \<Rightarrow> bool \<times> fw" where
  "Endpoint_IsSETUPReceived s =
    (let s = poll s;
         s = Endpoint_SelectEndpoint (SelectedEndpoint s AND NOT ENDPOINT_DIR_IN) s
     in if EP_STATUS (Handle s) AND USB_EP_SETUP_bm \<noteq> 0
        then (True, upd_FIFO (Length_update (\<lambda>_. ucast (EP_CNT (Handle s)))) s)
        else (False, s))"

subsection \<open>Waiting\<close>

text \<open>
  The polling loops of the control transfers. The result tells whether the awaited event
  came (or else the device was detached).
\<close>

partial_function (option) wait_OUTReceived :: "fw \<Rightarrow> (bool \<times> fw) option" where
  "wait_OUTReceived s =
     (case Endpoint_IsOUTReceived s of (r, s) \<Rightarrow>
        if r then Some (True, s)
        else if DeviceState s = DEVICE_STATE_Unattached then Some (False, s)
        else wait_OUTReceived s)"

partial_function (option) wait_INReady :: "fw \<Rightarrow> (bool \<times> fw) option" where
  "wait_INReady s =
     (case Endpoint_IsINReady s of (r, s) \<Rightarrow>
        if r then Some (True, s)
        else if DeviceState s = DEVICE_STATE_Unattached then Some (False, s)
        else wait_INReady s)"

text \<open>\<open>while (!(Endpoint_IsINReady()));\<close>\<close>

partial_function (option) spin_INReady :: "fw \<Rightarrow> fw option" where
  "spin_INReady s = (case Endpoint_IsINReady s of (r, s) \<Rightarrow> if r then Some s else spin_INReady s)"

definition REQDIR_DEVICETOHOST :: byte where "REQDIR_DEVICETOHOST = 0x80"

definition Endpoint_ClearStatusStage :: "fw \<Rightarrow> fw option" where
  "Endpoint_ClearStatusStage s =
     (if bmRequestType (ControlRequest s) AND REQDIR_DEVICETOHOST \<noteq> 0
      then do {
        (r, s) \<leftarrow> wait_OUTReceived s;
        Some (if r then Endpoint_ClearOUT s else s)
      }
      else do {
        (r, s) \<leftarrow> wait_INReady s;
        Some (if r then Endpoint_ClearIN s else s)
      })"

text \<open>
  The result codes of the ready wait and of the streams, which return the code of the wait
  unchanged: both enumerations number the shared codes alike.
\<close>

datatype ENDPOINT_RWSTREAM =
    NoError
  | EndpointStalled
  | DeviceDisconnected
  | BusSuspended
  | Timeout
  | IncompleteTransfer

definition USB_STREAM_TIMEOUT_MS :: byte where "USB_STREAM_TIMEOUT_MS = 100"

partial_function (option) ready_loop ::
  "byte \<Rightarrow> u16 \<Rightarrow> fw \<Rightarrow> (ENDPOINT_RWSTREAM \<times> fw) option" where
  "ready_loop TimeoutMSRem PreviousFrameNumber s =
     (case (if Endpoint_GetEndpointDirection s = ENDPOINT_DIR_IN then Endpoint_IsINReady s
            else Endpoint_IsOUTReceived s) of (ready, s) \<Rightarrow>
        if ready then Some (NoError, s)
        else if DeviceState s = DEVICE_STATE_Unattached then Some (DeviceDisconnected, s)
        else if DeviceState s = DEVICE_STATE_Suspended then Some (BusSuspended, s)
        else if Endpoint_IsStalled s then Some (EndpointStalled, s)
        else if USB_Device_GetFrameNumber s \<noteq> PreviousFrameNumber
        then if TimeoutMSRem = 0 then Some (Timeout, s)
             else ready_loop (TimeoutMSRem - 1) (USB_Device_GetFrameNumber s) s
        else ready_loop TimeoutMSRem PreviousFrameNumber s)"

definition Endpoint_WaitUntilReady :: "fw \<Rightarrow> (ENDPOINT_RWSTREAM \<times> fw) option" where
  "Endpoint_WaitUntilReady s = ready_loop USB_STREAM_TIMEOUT_MS (USB_Device_GetFrameNumber s) s"

subsection \<open>Stream template\<close>

text \<open>
  The template is instantiated by the byte transfer, by the routine that releases a full or
  empty bank, and by the start and direction of the walk through the buffer. The buffer is
  the array the pointer argument refers to; the stream pointer is an index into it.
\<close>

type_synonym transfer = "int \<Rightarrow> byte list \<Rightarrow> fw \<Rightarrow> byte list \<times> fw"

definition transfer_write :: transfer where
  "transfer_write i buf s =
     (if 0 \<le> i \<and> nat i < length buf then (buf, Endpoint_Write_8 (buf ! nat i) s)
      else (buf, raise_fault s))"

definition transfer_read :: transfer where
  "transfer_read i buf s =
     (let (v, s) = Endpoint_Read_8 s in
      if 0 \<le> i \<and> nat i < length buf then (buf[nat i := v], s) else (buf, raise_fault s))"

definition transfer_discard :: transfer where
  "transfer_discard i buf s = (buf, Endpoint_Discard_8 s)"

definition transfer_null :: transfer where
  "transfer_null i buf s = (buf, Endpoint_Write_8 0 s)"

partial_function (option) stream_loop ::
  "transfer \<Rightarrow> (fw \<Rightarrow> fw) \<Rightarrow> int \<Rightarrow> u16 \<Rightarrow> int \<Rightarrow> u16 \<Rightarrow> u16 option \<Rightarrow> byte list \<Rightarrow> fw \<Rightarrow>
     (ENDPOINT_RWSTREAM \<times> u16 option \<times> byte list \<times> fw) option" where
  "stream_loop xfer clr dir Len DataStream BytesInTransfer BytesProcessed buf s =
     (if Len = 0 then Some (NoError, BytesProcessed, buf, s)
      else if \<not> Endpoint_IsReadWriteAllowed s then
        (case BytesProcessed of
           Some n \<Rightarrow> Some (IncompleteTransfer, Some (n + BytesInTransfer), buf, clr s)
         | None \<Rightarrow> do {
             (e, s) \<leftarrow> Endpoint_WaitUntilReady (clr s);
             if e \<noteq> NoError then Some (e, BytesProcessed, buf, s)
             else stream_loop xfer clr dir Len DataStream BytesInTransfer BytesProcessed buf s
           })
      else (case xfer DataStream buf s of (buf, s) \<Rightarrow>
              stream_loop xfer clr dir (Len - 1) (DataStream + dir) (BytesInTransfer + 1)
                BytesProcessed buf s))"

definition stream_template ::
  "transfer \<Rightarrow> (fw \<Rightarrow> fw) \<Rightarrow> (u16 \<Rightarrow> int) \<Rightarrow> int \<Rightarrow> byte list \<Rightarrow> u16 \<Rightarrow> u16 option \<Rightarrow> fw \<Rightarrow>
     (ENDPOINT_RWSTREAM \<times> u16 option \<times> byte list \<times> fw) option" where
  "stream_template xfer clr offs dir buf Len BytesProcessed s = do {
     (e, s) \<leftarrow> Endpoint_WaitUntilReady s;
     if e \<noteq> NoError then Some (e, BytesProcessed, buf, s)
     else (case BytesProcessed of
        None \<Rightarrow> stream_loop xfer clr dir Len (offs Len) 0 None buf s
      | Some n \<Rightarrow> stream_loop xfer clr dir (Len - n) (offs Len + dir * uint n) 0 (Some n) buf s)
   }"

definition offset_LE :: "u16 \<Rightarrow> int" where "offset_LE Len = 0"
definition offset_BE :: "u16 \<Rightarrow> int" where "offset_BE Len = uint Len - 1"

definition Endpoint_Discard_Stream ::
  "u16 \<Rightarrow> u16 option \<Rightarrow> fw \<Rightarrow> (ENDPOINT_RWSTREAM \<times> u16 option \<times> byte list \<times> fw) option" where
  "Endpoint_Discard_Stream = stream_template transfer_discard Endpoint_ClearOUT offset_LE 1 []"

definition Endpoint_Null_Stream ::
  "u16 \<Rightarrow> u16 option \<Rightarrow> fw \<Rightarrow> (ENDPOINT_RWSTREAM \<times> u16 option \<times> byte list \<times> fw) option" where
  "Endpoint_Null_Stream = stream_template transfer_null Endpoint_ClearIN offset_LE 1 []"

definition Endpoint_Write_Stream_LE ::
  "byte list \<Rightarrow> u16 \<Rightarrow> u16 option \<Rightarrow> fw \<Rightarrow>
     (ENDPOINT_RWSTREAM \<times> u16 option \<times> byte list \<times> fw) option" where
  "Endpoint_Write_Stream_LE = stream_template transfer_write Endpoint_ClearIN offset_LE 1"

definition Endpoint_Write_Stream_BE ::
  "byte list \<Rightarrow> u16 \<Rightarrow> u16 option \<Rightarrow> fw \<Rightarrow>
     (ENDPOINT_RWSTREAM \<times> u16 option \<times> byte list \<times> fw) option" where
  "Endpoint_Write_Stream_BE = stream_template transfer_write Endpoint_ClearIN offset_BE (- 1)"

definition Endpoint_Read_Stream_LE ::
  "byte list \<Rightarrow> u16 \<Rightarrow> u16 option \<Rightarrow> fw \<Rightarrow>
     (ENDPOINT_RWSTREAM \<times> u16 option \<times> byte list \<times> fw) option" where
  "Endpoint_Read_Stream_LE = stream_template transfer_read Endpoint_ClearOUT offset_LE 1"

definition Endpoint_Read_Stream_BE ::
  "byte list \<Rightarrow> u16 \<Rightarrow> u16 option \<Rightarrow> fw \<Rightarrow>
     (ENDPOINT_RWSTREAM \<times> u16 option \<times> byte list \<times> fw) option" where
  "Endpoint_Read_Stream_BE = stream_template transfer_read Endpoint_ClearOUT offset_BE (- 1)"

text \<open>The streams out of program memory: the buffer is the flash array.\<close>

definition Endpoint_Write_PStream_LE ::
  "byte list \<Rightarrow> u16 \<Rightarrow> u16 option \<Rightarrow> fw \<Rightarrow>
     (ENDPOINT_RWSTREAM \<times> u16 option \<times> byte list \<times> fw) option" where
  "Endpoint_Write_PStream_LE = stream_template transfer_write Endpoint_ClearIN offset_LE 1"

definition Endpoint_Write_PStream_BE ::
  "byte list \<Rightarrow> u16 \<Rightarrow> u16 option \<Rightarrow> fw \<Rightarrow>
     (ENDPOINT_RWSTREAM \<times> u16 option \<times> byte list \<times> fw) option" where
  "Endpoint_Write_PStream_BE = stream_template transfer_write Endpoint_ClearIN offset_BE (- 1)"

subsection \<open>Control streams\<close>

datatype ENDPOINT_RWCSTREAM =
    RWC_NoError
  | RWC_HostAborted
  | RWC_DeviceDisconnected
  | RWC_BusSuspended

text \<open>The inner loop of the control write: fill the bank up to the size of the endpoint.\<close>

function control_fill ::
  "int \<Rightarrow> byte list \<Rightarrow> u16 \<Rightarrow> int \<Rightarrow> u16 \<Rightarrow> fw \<Rightarrow> u16 \<times> int \<times> u16 \<times> fw" where
  "control_fill dir buf Len DataStream BytesInEndpoint s =
     (if Len \<noteq> 0 \<and> BytesInEndpoint < USB_Device_ControlEndpointSize
      then control_fill dir buf (Len - 1) (DataStream + dir) (BytesInEndpoint + 1)
             (snd (transfer_write DataStream buf s))
      else (Len, DataStream, BytesInEndpoint, s))"
  by auto
termination
  by (relation "measure (\<lambda>(_, _, Len, _). unat Len)") (auto simp: measure_unat)

declare control_fill.simps [simp del]

text \<open>The wait for the status stage at the end of the control write.\<close>

partial_function (option) control_W_status :: "fw \<Rightarrow> (ENDPOINT_RWCSTREAM \<times> fw) option" where
  "control_W_status s =
     (case Endpoint_IsOUTReceived s of (r, s) \<Rightarrow>
        if r then Some (RWC_NoError, s)
        else if DeviceState s = DEVICE_STATE_Unattached then Some (RWC_DeviceDisconnected, s)
        else if DeviceState s = DEVICE_STATE_Suspended then Some (RWC_BusSuspended, s)
        else (case Endpoint_IsSETUPReceived s of (r, s) \<Rightarrow>
                if r then Some (RWC_HostAborted, s) else control_W_status s))"

partial_function (option) control_W_loop ::
  "int \<Rightarrow> byte list \<Rightarrow> u16 \<Rightarrow> int \<Rightarrow> bool \<Rightarrow> fw \<Rightarrow> (ENDPOINT_RWCSTREAM \<times> fw) option" where
  "control_W_loop dir buf Len DataStream LastPacketFull s =
     (if \<not> (Len \<noteq> 0 \<or> LastPacketFull) then control_W_status s
      else if DeviceState s = DEVICE_STATE_Unattached then Some (RWC_DeviceDisconnected, s)
      else if DeviceState s = DEVICE_STATE_Suspended then Some (RWC_BusSuspended, s)
      else (case Endpoint_IsSETUPReceived s of (r, s) \<Rightarrow>
        if r then Some (RWC_HostAborted, s)
        else (case Endpoint_IsOUTReceived s of (r, s) \<Rightarrow>
          if r then control_W_status s
          else (case Endpoint_IsINReady s of (r, s) \<Rightarrow>
            if r
            then (case control_fill dir buf Len DataStream (Endpoint_BytesInEndpoint s) s of
                    (Len, DataStream, BytesInEndpoint, s) \<Rightarrow>
                      control_W_loop dir buf Len DataStream
                        (BytesInEndpoint = USB_Device_ControlEndpointSize) (Endpoint_ClearIN s))
            else control_W_loop dir buf Len DataStream LastPacketFull s))))"

definition control_W_template ::
  "(u16 \<Rightarrow> int) \<Rightarrow> int \<Rightarrow> byte list \<Rightarrow> u16 \<Rightarrow> fw \<Rightarrow> (ENDPOINT_RWCSTREAM \<times> fw) option" where
  "control_W_template offs dir buf Len s =
    (let DataStream = offs Len;
         s = Endpoint_SelectEndpoint (SelectedEndpoint s OR ENDPOINT_DIR_IN) s;
         (Len, s) = (if Len > wLength (ControlRequest s) then (wLength (ControlRequest s), s)
                     else if Len = 0 then (Len, Endpoint_ClearIN s)
                     else (Len, s))
     in control_W_loop dir buf Len DataStream False s)"

definition Endpoint_Write_Control_Stream_LE ::
  "byte list \<Rightarrow> u16 \<Rightarrow> fw \<Rightarrow> (ENDPOINT_RWCSTREAM \<times> fw) option" where
  "Endpoint_Write_Control_Stream_LE = control_W_template offset_LE 1"

definition Endpoint_Write_Control_Stream_BE ::
  "byte list \<Rightarrow> u16 \<Rightarrow> fw \<Rightarrow> (ENDPOINT_RWCSTREAM \<times> fw) option" where
  "Endpoint_Write_Control_Stream_BE = control_W_template offset_BE (- 1)"

definition Endpoint_Write_Control_PStream_LE ::
  "byte list \<Rightarrow> u16 \<Rightarrow> fw \<Rightarrow> (ENDPOINT_RWCSTREAM \<times> fw) option" where
  "Endpoint_Write_Control_PStream_LE = control_W_template offset_LE 1"

definition Endpoint_Write_Control_PStream_BE ::
  "byte list \<Rightarrow> u16 \<Rightarrow> fw \<Rightarrow> (ENDPOINT_RWCSTREAM \<times> fw) option" where
  "Endpoint_Write_Control_PStream_BE = control_W_template offset_BE (- 1)"

text \<open>The inner loop of the control read: drain the bank.\<close>

function control_drain ::
  "int \<Rightarrow> byte list \<Rightarrow> u16 \<Rightarrow> int \<Rightarrow> fw \<Rightarrow> u16 \<times> int \<times> byte list \<times> fw" where
  "control_drain dir buf Len DataStream s =
     (if Len \<noteq> 0 \<and> Endpoint_BytesInEndpoint s \<noteq> 0
      then control_drain dir (fst (transfer_read DataStream buf s)) (Len - 1) (DataStream + dir)
             (snd (transfer_read DataStream buf s))
      else (Len, DataStream, buf, s))"
  by auto
termination
  by (relation "measure (\<lambda>(_, _, Len, _). unat Len)") (auto simp: measure_unat)

declare control_drain.simps [simp del]

partial_function (option) control_R_status :: "fw \<Rightarrow> (ENDPOINT_RWCSTREAM \<times> fw) option" where
  "control_R_status s =
     (case Endpoint_IsINReady s of (r, s) \<Rightarrow>
        if r then Some (RWC_NoError, s)
        else if DeviceState s = DEVICE_STATE_Unattached then Some (RWC_DeviceDisconnected, s)
        else if DeviceState s = DEVICE_STATE_Suspended then Some (RWC_BusSuspended, s)
        else control_R_status s)"

partial_function (option) control_R_loop ::
  "int \<Rightarrow> byte list \<Rightarrow> u16 \<Rightarrow> int \<Rightarrow> fw \<Rightarrow> (ENDPOINT_RWCSTREAM \<times> byte list \<times> fw) option" where
  "control_R_loop dir buf Len DataStream s =
     (if Len = 0 then do { (e, s) \<leftarrow> control_R_status s; Some (e, buf, s) }
      else if DeviceState s = DEVICE_STATE_Unattached then Some (RWC_DeviceDisconnected, buf, s)
      else if DeviceState s = DEVICE_STATE_Suspended then Some (RWC_BusSuspended, buf, s)
      else (case Endpoint_IsSETUPReceived s of (r, s) \<Rightarrow>
        if r then Some (RWC_HostAborted, buf, s)
        else (case Endpoint_IsOUTReceived s of (r, s) \<Rightarrow>
          if r then (case control_drain dir buf Len DataStream s of (Len, DataStream, buf, s) \<Rightarrow>
                       control_R_loop dir buf Len DataStream (Endpoint_ClearOUT s))
          else control_R_loop dir buf Len DataStream s)))"

definition control_R_template ::
  "(u16 \<Rightarrow> int) \<Rightarrow> int \<Rightarrow> byte list \<Rightarrow> u16 \<Rightarrow> fw \<Rightarrow> (ENDPOINT_RWCSTREAM \<times> byte list \<times> fw) option" where
  "control_R_template offs dir buf Len s =
    (let s = Endpoint_SelectEndpoint (SelectedEndpoint s AND NOT ENDPOINT_DIR_IN) s;
         s = (if Len = 0 then Endpoint_ClearOUT s else s)
     in control_R_loop dir buf Len (offs Len) s)"

definition Endpoint_Read_Control_Stream_LE ::
  "byte list \<Rightarrow> u16 \<Rightarrow> fw \<Rightarrow> (ENDPOINT_RWCSTREAM \<times> byte list \<times> fw) option" where
  "Endpoint_Read_Control_Stream_LE = control_R_template offset_LE 1"

definition Endpoint_Read_Control_Stream_BE ::
  "byte list \<Rightarrow> u16 \<Rightarrow> fw \<Rightarrow> (ENDPOINT_RWCSTREAM \<times> byte list \<times> fw) option" where
  "Endpoint_Read_Control_Stream_BE = control_R_template offset_BE (- 1)"

text \<open>
  The streams out of and into the EEPROM: the buffer is the EEPROM array. \<open>eeprom_update_byte\<close> leaves a
  byte that already has the value unwritten, which makes no difference to the array.
\<close>

definition Endpoint_Write_EStream_LE ::
  "byte list \<Rightarrow> u16 \<Rightarrow> u16 option \<Rightarrow> fw \<Rightarrow>
     (ENDPOINT_RWSTREAM \<times> u16 option \<times> byte list \<times> fw) option" where
  "Endpoint_Write_EStream_LE = stream_template transfer_write Endpoint_ClearIN offset_LE 1"

definition Endpoint_Write_EStream_BE ::
  "byte list \<Rightarrow> u16 \<Rightarrow> u16 option \<Rightarrow> fw \<Rightarrow>
     (ENDPOINT_RWSTREAM \<times> u16 option \<times> byte list \<times> fw) option" where
  "Endpoint_Write_EStream_BE = stream_template transfer_write Endpoint_ClearIN offset_BE (- 1)"

definition Endpoint_Read_EStream_LE ::
  "byte list \<Rightarrow> u16 \<Rightarrow> u16 option \<Rightarrow> fw \<Rightarrow>
     (ENDPOINT_RWSTREAM \<times> u16 option \<times> byte list \<times> fw) option" where
  "Endpoint_Read_EStream_LE = stream_template transfer_read Endpoint_ClearOUT offset_LE 1"

definition Endpoint_Read_EStream_BE ::
  "byte list \<Rightarrow> u16 \<Rightarrow> u16 option \<Rightarrow> fw \<Rightarrow>
     (ENDPOINT_RWSTREAM \<times> u16 option \<times> byte list \<times> fw) option" where
  "Endpoint_Read_EStream_BE = stream_template transfer_read Endpoint_ClearOUT offset_BE (- 1)"

definition Endpoint_Write_Control_EStream_LE ::
  "byte list \<Rightarrow> u16 \<Rightarrow> fw \<Rightarrow> (ENDPOINT_RWCSTREAM \<times> fw) option" where
  "Endpoint_Write_Control_EStream_LE = control_W_template offset_LE 1"

definition Endpoint_Write_Control_EStream_BE ::
  "byte list \<Rightarrow> u16 \<Rightarrow> fw \<Rightarrow> (ENDPOINT_RWCSTREAM \<times> fw) option" where
  "Endpoint_Write_Control_EStream_BE = control_W_template offset_BE (- 1)"

definition Endpoint_Read_Control_EStream_LE ::
  "byte list \<Rightarrow> u16 \<Rightarrow> fw \<Rightarrow> (ENDPOINT_RWCSTREAM \<times> byte list \<times> fw) option" where
  "Endpoint_Read_Control_EStream_LE = control_R_template offset_LE 1"

definition Endpoint_Read_Control_EStream_BE ::
  "byte list \<Rightarrow> u16 \<Rightarrow> fw \<Rightarrow> (ENDPOINT_RWCSTREAM \<times> byte list \<times> fw) option" where
  "Endpoint_Read_Control_EStream_BE = control_R_template offset_BE (- 1)"

end
