(* ===== verification/CdcDevice.thy ===== *)
theory CdcDevice
  imports EndpointStream
begin

text \<open>
  The CDC-ACM class driver (\<open>CDCClassDevice.c\<close>) on the one interface instance of the
  program, with the class event handlers of \<open>usb_serial.c\<close>.
\<close>

unbundle bit_operations_syntax

subsection \<open>Request constants\<close>

definition REQTYPE_CLASS :: byte where "REQTYPE_CLASS = 0x20"
definition REQREC_INTERFACE :: byte where "REQREC_INTERFACE = 0x01"
definition CDC_REQ_SetLineEncoding :: byte where "CDC_REQ_SetLineEncoding = 0x20"
definition CDC_REQ_GetLineEncoding :: byte where "CDC_REQ_GetLineEncoding = 0x21"
definition CDC_REQ_SetControlLineState :: byte where "CDC_REQ_SetControlLineState = 0x22"
definition CDC_REQ_SendBreak :: byte where "CDC_REQ_SendBreak = 0x23"
definition CDC_NOTIF_SerialState :: byte where "CDC_NOTIF_SerialState = 0x20"
definition CDC_CONTROL_LINE_OUT_DTR :: u16 where "CDC_CONTROL_LINE_OUT_DTR = 0x01"

lemmas cdc_consts =
  REQDIR_DEVICETOHOST_def REQTYPE_CLASS_def REQREC_INTERFACE_def CDC_REQ_SetLineEncoding_def
  CDC_REQ_GetLineEncoding_def CDC_REQ_SetControlLineState_def CDC_REQ_SendBreak_def
  CDC_NOTIF_SerialState_def CDC_CONTROL_LINE_OUT_DTR_def

subsection \<open>Event handlers of the application\<close>

definition EVENT_CDC_Device_LineEncodingChanged :: "fw \<Rightarrow> fw" where
  "EVENT_CDC_Device_LineEncodingChanged s = s"

definition EVENT_CDC_Device_ControLineStateChanged :: "fw \<Rightarrow> fw" where
  "EVENT_CDC_Device_ControLineStateChanged s =
     (if HostToDevice (CDC s) AND CDC_CONTROL_LINE_OUT_DTR \<noteq> 0 then s\<lparr>ok_to_send := True\<rparr>
      else s\<lparr>ok_to_send := False\<rparr>)"

definition CDC_Device_Event_Stub :: "fw \<Rightarrow> fw" where
  "CDC_Device_Event_Stub s = s"

subsection \<open>Control requests\<close>

definition CDC_GetLineEncoding :: "fw \<Rightarrow> fw option" where
  "CDC_GetLineEncoding s = do {
     s \<leftarrow> spin_INReady (Endpoint_ClearSETUP s);
     let s = Endpoint_Write_32_LE (BaudRateBPS (LineEncoding (CDC s))) s;
     let s = Endpoint_Write_8 (CharFormat (LineEncoding (CDC s))) s;
     let s = Endpoint_Write_8 (ParityType (LineEncoding (CDC s))) s;
     let s = Endpoint_Write_8 (DataBits (LineEncoding (CDC s))) s;
     Endpoint_ClearStatusStage (Endpoint_ClearIN s)
   }"

definition CDC_SetLineEncoding :: "fw \<Rightarrow> fw option" where
  "CDC_SetLineEncoding s = do {
     (r, s) \<leftarrow> wait_OUTReceived (Endpoint_ClearSETUP s);
     if \<not> r then Some s
     else do {
       let (v, s) = Endpoint_Read_32_LE s;
       let s = s\<lparr>CDC := (CDC s)\<lparr>LineEncoding := (LineEncoding (CDC s))\<lparr>BaudRateBPS := v\<rparr>\<rparr>\<rparr>;
       let (v, s) = Endpoint_Read_8 s;
       let s = s\<lparr>CDC := (CDC s)\<lparr>LineEncoding := (LineEncoding (CDC s))\<lparr>CharFormat := v\<rparr>\<rparr>\<rparr>;
       let (v, s) = Endpoint_Read_8 s;
       let s = s\<lparr>CDC := (CDC s)\<lparr>LineEncoding := (LineEncoding (CDC s))\<lparr>ParityType := v\<rparr>\<rparr>\<rparr>;
       let (v, s) = Endpoint_Read_8 s;
       let s = s\<lparr>CDC := (CDC s)\<lparr>LineEncoding := (LineEncoding (CDC s))\<lparr>DataBits := v\<rparr>\<rparr>\<rparr>;
       s \<leftarrow> Endpoint_ClearStatusStage (Endpoint_ClearOUT s);
       Some (EVENT_CDC_Device_LineEncodingChanged s)
     }
   }"

definition CDC_SetControlLineState :: "fw \<Rightarrow> fw option" where
  "CDC_SetControlLineState s = do {
     s \<leftarrow> Endpoint_ClearStatusStage (Endpoint_ClearSETUP s);
     let s = s\<lparr>CDC := (CDC s)\<lparr>HostToDevice := wValue (ControlRequest s)\<rparr>\<rparr>;
     Some (EVENT_CDC_Device_ControLineStateChanged s)
   }"

definition CDC_SendBreak :: "fw \<Rightarrow> fw option" where
  "CDC_SendBreak s = do {
     s \<leftarrow> Endpoint_ClearStatusStage (Endpoint_ClearSETUP s);
     Some (CDC_Device_Event_Stub s)
   }"

definition CDC_Device_ProcessControlRequest :: "fw \<Rightarrow> fw option" where
  "CDC_Device_ProcessControlRequest s =
    (let (r, s) = Endpoint_IsSETUPReceived s; q = ControlRequest s;
         from_host = REQTYPE_CLASS OR REQREC_INTERFACE;
         to_host = REQDIR_DEVICETOHOST OR REQTYPE_CLASS OR REQREC_INTERFACE
     in if \<not> r then Some s
        else if wIndex q \<noteq> ucast (ControlInterfaceNumber (CDC s)) then Some s
        else if bRequest q = CDC_REQ_GetLineEncoding
        then (if bmRequestType q = to_host then CDC_GetLineEncoding s else Some s)
        else if bRequest q = CDC_REQ_SetLineEncoding
        then (if bmRequestType q = from_host then CDC_SetLineEncoding s else Some s)
        else if bRequest q = CDC_REQ_SetControlLineState
        then (if bmRequestType q = from_host then CDC_SetControlLineState s else Some s)
        else if bRequest q = CDC_REQ_SendBreak
        then (if bmRequestType q = from_host then CDC_SendBreak s else Some s)
        else Some s)"

subsection \<open>Configuration\<close>

text \<open>\<open>memset\<close> of the state group of the interface.\<close>

definition clear_cdc_state :: "USB_ClassInfo_CDC_Device_t \<Rightarrow> USB_ClassInfo_CDC_Device_t" where
  "clear_cdc_state c = c\<lparr>HostToDevice := 0, DeviceToHost := 0,
     LineEncoding := \<lparr>BaudRateBPS = 0, CharFormat = 0, ParityType = 0, DataBits = 0\<rparr>\<rparr>"

definition CDC_Device_ConfigureEndpoints :: "fw \<Rightarrow> (bool \<times> fw) option" where
  "CDC_Device_ConfigureEndpoints s =
    (let s = s\<lparr>CDC := clear_cdc_state (CDC s)\<rparr>;
         s = s\<lparr>CDC := (CDC s)\<lparr>DataINEndpoint := (DataINEndpoint (CDC s))\<lparr>Type := EP_TYPE_BULK\<rparr>\<rparr>\<rparr>;
         s = s\<lparr>CDC := (CDC s)\<lparr>DataOUTEndpoint := (DataOUTEndpoint (CDC s))\<lparr>Type := EP_TYPE_BULK\<rparr>\<rparr>\<rparr>;
         s = s\<lparr>CDC := (CDC s)\<lparr>NotificationEndpoint :=
               (NotificationEndpoint (CDC s))\<lparr>Type := EP_TYPE_INTERRUPT\<rparr>\<rparr>\<rparr>
     in do {
       (ok, s) \<leftarrow> Endpoint_ConfigureEndpointTable [DataINEndpoint (CDC s)] s;
       if \<not> ok then Some (False, s) else do {
       (ok, s) \<leftarrow> Endpoint_ConfigureEndpointTable [DataOUTEndpoint (CDC s)] s;
       if \<not> ok then Some (False, s) else do {
       (ok, s) \<leftarrow> Endpoint_ConfigureEndpointTable [NotificationEndpoint (CDC s)] s;
       if \<not> ok then Some (False, s) else Some (True, s)
     }}})"

subsection \<open>Data\<close>

text \<open>The guard every data routine starts with.\<close>

definition cdc_down :: "fw \<Rightarrow> bool" where
  "cdc_down s \<longleftrightarrow> DeviceState s \<noteq> DEVICE_STATE_Configured \<or> BaudRateBPS (LineEncoding (CDC s)) = 0"

definition CDC_Device_Flush :: "fw \<Rightarrow> (ENDPOINT_RWSTREAM \<times> fw) option" where
  "CDC_Device_Flush s =
     (if cdc_down s then Some (DeviceDisconnected, s)
      else let s = Endpoint_SelectEndpoint (Address (DataINEndpoint (CDC s))) s in
      if Endpoint_BytesInEndpoint s = 0 then Some (NoError, s)
      else let BankFull = \<not> Endpoint_IsReadWriteAllowed s; s = Endpoint_ClearIN s in
      if BankFull then do {
        (e, s) \<leftarrow> Endpoint_WaitUntilReady s;
        if e \<noteq> NoError then Some (e, s) else Some (NoError, Endpoint_ClearIN s)
      }
      else Some (NoError, s))"

definition CDC_Device_USBTask :: "fw \<Rightarrow> fw option" where
  "CDC_Device_USBTask s =
     (if cdc_down s then Some s
      else let s = Endpoint_SelectEndpoint (Address (DataINEndpoint (CDC s))) s;
               (r, s) = Endpoint_IsINReady s
           in if r then do { (e, s) \<leftarrow> CDC_Device_Flush s; Some s } else Some s)"

definition CDC_Device_SendData :: "byte list \<Rightarrow> u16 \<Rightarrow> fw \<Rightarrow> (ENDPOINT_RWSTREAM \<times> fw) option" where
  "CDC_Device_SendData Buffer Len s =
     (if cdc_down s then Some (DeviceDisconnected, s)
      else do {
        (e, _, _, s) \<leftarrow> Endpoint_Write_Stream_LE Buffer Len None
                        (Endpoint_SelectEndpoint (Address (DataINEndpoint (CDC s))) s);
        Some (e, s)
      })"

definition CDC_Device_SendData_P :: "byte list \<Rightarrow> u16 \<Rightarrow> fw \<Rightarrow> (ENDPOINT_RWSTREAM \<times> fw) option" where
  "CDC_Device_SendData_P Buffer Len s =
     (if cdc_down s then Some (DeviceDisconnected, s)
      else do {
        (e, _, _, s) \<leftarrow> Endpoint_Write_PStream_LE Buffer Len None
                        (Endpoint_SelectEndpoint (Address (DataINEndpoint (CDC s))) s);
        Some (e, s)
      })"

text \<open>
  \<open>strlen\<close>: the distance to the first zero byte. The search leaves the array, a fault, when
  there is none.
\<close>

definition strlen :: "byte list \<Rightarrow> u16" where
  "strlen str = of_nat (length (takeWhile (\<lambda>c. c \<noteq> 0) str))"

definition check_string :: "byte list \<Rightarrow> fw \<Rightarrow> fw" where
  "check_string str s = (if 0 \<in> set str then s else raise_fault s)"

definition CDC_Device_SendString :: "byte list \<Rightarrow> fw \<Rightarrow> (ENDPOINT_RWSTREAM \<times> fw) option" where
  "CDC_Device_SendString str s =
     (if cdc_down s then Some (DeviceDisconnected, s)
      else do {
        (e, _, _, s) \<leftarrow> Endpoint_Write_Stream_LE str (strlen str) None
           (check_string str (Endpoint_SelectEndpoint (Address (DataINEndpoint (CDC s))) s));
        Some (e, s)
      })"

definition CDC_Device_SendString_P :: "byte list \<Rightarrow> fw \<Rightarrow> (ENDPOINT_RWSTREAM \<times> fw) option" where
  "CDC_Device_SendString_P str s =
     (if cdc_down s then Some (DeviceDisconnected, s)
      else do {
        (e, _, _, s) \<leftarrow> Endpoint_Write_PStream_LE str (strlen str) None
           (check_string str (Endpoint_SelectEndpoint (Address (DataINEndpoint (CDC s))) s));
        Some (e, s)
      })"

definition CDC_Device_SendByte :: "byte \<Rightarrow> fw \<Rightarrow> (ENDPOINT_RWSTREAM \<times> fw) option" where
  "CDC_Device_SendByte v s =
     (if cdc_down s then Some (DeviceDisconnected, s)
      else let s = Endpoint_SelectEndpoint (Address (DataINEndpoint (CDC s))) s in
      if \<not> Endpoint_IsReadWriteAllowed s then do {
        (e, s) \<leftarrow> Endpoint_WaitUntilReady (Endpoint_ClearIN s);
        if e \<noteq> NoError then Some (e, s) else Some (NoError, Endpoint_Write_8 v s)
      }
      else Some (NoError, Endpoint_Write_8 v s))"

definition CDC_Device_BytesReceived :: "fw \<Rightarrow> u16 \<times> fw" where
  "CDC_Device_BytesReceived s =
     (if cdc_down s then (0, s)
      else let s = Endpoint_SelectEndpoint (Address (DataOUTEndpoint (CDC s))) s;
               (r, s) = Endpoint_IsOUTReceived s
           in if r
              then (if Endpoint_BytesInEndpoint s = 0 then (0, Endpoint_ClearOUT s)
                    else (Endpoint_BytesInEndpoint s, s))
              else (0, s))"

text \<open>The received byte, or -1.\<close>

definition CDC_Device_ReceiveByte :: "fw \<Rightarrow> int \<times> fw" where
  "CDC_Device_ReceiveByte s =
     (if cdc_down s then (- 1, s)
      else let s = Endpoint_SelectEndpoint (Address (DataOUTEndpoint (CDC s))) s;
               (r, s) = Endpoint_IsOUTReceived s
           in if r
              then let (ReceivedByte, s) =
                         (if Endpoint_BytesInEndpoint s \<noteq> 0
                          then let (v, s) = Endpoint_Read_8 s in (uint v, s)
                          else (- 1, s))
                   in (ReceivedByte,
                       if Endpoint_BytesInEndpoint s = 0 then Endpoint_ClearOUT s else s)
              else (- 1, s))"

text \<open>The memory image of a setup packet, and of a 16-bit value, on this little endian machine.\<close>

definition bytes16 :: "u16 \<Rightarrow> byte list" where
  "bytes16 v = [ucast v, ucast (drop_bit 8 v)]"

definition header_bytes :: "USB_Request_Header_t \<Rightarrow> byte list" where
  "header_bytes q = [bmRequestType q, bRequest q] @ bytes16 (wValue q) @ bytes16 (wIndex q) @
     bytes16 (wLength q)"

definition CDC_Device_SendControlLineStateChange :: "fw \<Rightarrow> fw option" where
  "CDC_Device_SendControlLineStateChange s =
     (if cdc_down s then Some s
      else let s = Endpoint_SelectEndpoint (Address (NotificationEndpoint (CDC s))) s;
               Notification = \<lparr>bmRequestType = REQDIR_DEVICETOHOST OR REQTYPE_CLASS OR REQREC_INTERFACE,
                 bRequest = CDC_NOTIF_SerialState, wValue = 0, wIndex = 0, wLength = 2\<rparr>
      in do {
        (_, _, _, s) \<leftarrow> Endpoint_Write_Stream_LE (header_bytes Notification) 8 None s;
        (_, _, _, s) \<leftarrow> Endpoint_Write_Stream_LE (bytes16 (DeviceToHost (CDC s))) 2 None s;
        Some (Endpoint_ClearIN s)
      })"

end
