(* ===== verification/Descriptors.thy ===== *)
theory Descriptors
  imports CdcDevice
begin

text \<open>
  The USB descriptors of the device (\<open>Descriptors.c\<close>, \<open>Descriptors.h\<close>, with the
  structure types of \<open>StdDescriptors.h\<close> and \<open>CDCClassCommon.h\<close>) and the callback that
  looks one up. Each structure is a record; its packed little endian image in flash is a
  list of bytes.
\<close>

unbundle bit_operations_syntax

subsection \<open>Structure types\<close>

record USB_Descriptor_Header_t =
  hdr_Size :: byte
  hdr_Type :: byte

record USB_Descriptor_Device_t =
  dev_Header :: USB_Descriptor_Header_t
  dev_USBSpecification :: u16
  dev_Class :: byte
  dev_SubClass :: byte
  dev_Protocol :: byte
  dev_Endpoint0Size :: byte
  dev_VendorID :: u16
  dev_ProductID :: u16
  dev_ReleaseNumber :: u16
  dev_ManufacturerStrIndex :: byte
  dev_ProductStrIndex :: byte
  dev_SerialNumStrIndex :: byte
  dev_NumberOfConfigurations :: byte

record USB_Descriptor_Configuration_Header_t =
  cfg_Header :: USB_Descriptor_Header_t
  cfg_TotalConfigurationSize :: u16
  cfg_TotalInterfaces :: byte
  cfg_ConfigurationNumber :: byte
  cfg_ConfigurationStrIndex :: byte
  cfg_ConfigAttributes :: byte
  cfg_MaxPowerConsumption :: byte

record USB_Descriptor_Interface_t =
  if_Header :: USB_Descriptor_Header_t
  if_InterfaceNumber :: byte
  if_AlternateSetting :: byte
  if_TotalEndpoints :: byte
  if_Class :: byte
  if_SubClass :: byte
  if_Protocol :: byte
  if_InterfaceStrIndex :: byte

record USB_Descriptor_Endpoint_t =
  ep_Header :: USB_Descriptor_Header_t
  ep_EndpointAddress :: byte
  ep_Attributes :: byte
  ep_EndpointSize :: u16
  ep_PollingIntervalMS :: byte

record USB_CDC_Descriptor_FunctionalHeader_t =
  fh_Header :: USB_Descriptor_Header_t
  fh_Subtype :: byte
  fh_CDCSpecification :: u16

record USB_CDC_Descriptor_FunctionalACM_t =
  acm_Header :: USB_Descriptor_Header_t
  acm_Subtype :: byte
  acm_Capabilities :: byte

record USB_CDC_Descriptor_FunctionalUnion_t =
  un_Header :: USB_Descriptor_Header_t
  un_Subtype :: byte
  un_MasterInterfaceNumber :: byte
  un_SlaveInterfaceNumber :: byte

record USB_Descriptor_Configuration_t =
  Config :: USB_Descriptor_Configuration_Header_t
  CDC_CCI_Interface :: USB_Descriptor_Interface_t
  CDC_Functional_Header :: USB_CDC_Descriptor_FunctionalHeader_t
  CDC_Functional_ACM :: USB_CDC_Descriptor_FunctionalACM_t
  CDC_Functional_Union :: USB_CDC_Descriptor_FunctionalUnion_t
  CDC_NotificationEndpoint :: USB_Descriptor_Endpoint_t
  CDC_DCI_Interface :: USB_Descriptor_Interface_t
  CDC_DataOutEndpoint :: USB_Descriptor_Endpoint_t
  CDC_DataInEndpoint :: USB_Descriptor_Endpoint_t

record USB_Descriptor_String_t =
  str_Header :: USB_Descriptor_Header_t
  str_UnicodeString :: "u16 list"

subsection \<open>Memory images\<close>

definition hdr_bytes :: "USB_Descriptor_Header_t \<Rightarrow> byte list" where
  "hdr_bytes h = [hdr_Size h, hdr_Type h]"

definition device_bytes :: "USB_Descriptor_Device_t \<Rightarrow> byte list" where
  "device_bytes d = hdr_bytes (dev_Header d) @ bytes16 (dev_USBSpecification d) @
     [dev_Class d, dev_SubClass d, dev_Protocol d, dev_Endpoint0Size d] @
     bytes16 (dev_VendorID d) @ bytes16 (dev_ProductID d) @ bytes16 (dev_ReleaseNumber d) @
     [dev_ManufacturerStrIndex d, dev_ProductStrIndex d, dev_SerialNumStrIndex d,
      dev_NumberOfConfigurations d]"

definition cfg_header_bytes :: "USB_Descriptor_Configuration_Header_t \<Rightarrow> byte list" where
  "cfg_header_bytes c = hdr_bytes (cfg_Header c) @ bytes16 (cfg_TotalConfigurationSize c) @
     [cfg_TotalInterfaces c, cfg_ConfigurationNumber c, cfg_ConfigurationStrIndex c,
      cfg_ConfigAttributes c, cfg_MaxPowerConsumption c]"

definition interface_bytes :: "USB_Descriptor_Interface_t \<Rightarrow> byte list" where
  "interface_bytes i = hdr_bytes (if_Header i) @
     [if_InterfaceNumber i, if_AlternateSetting i, if_TotalEndpoints i, if_Class i,
      if_SubClass i, if_Protocol i, if_InterfaceStrIndex i]"

definition endpoint_bytes :: "USB_Descriptor_Endpoint_t \<Rightarrow> byte list" where
  "endpoint_bytes e = hdr_bytes (ep_Header e) @ [ep_EndpointAddress e, ep_Attributes e] @
     bytes16 (ep_EndpointSize e) @ [ep_PollingIntervalMS e]"

definition fheader_bytes :: "USB_CDC_Descriptor_FunctionalHeader_t \<Rightarrow> byte list" where
  "fheader_bytes f = hdr_bytes (fh_Header f) @ [fh_Subtype f] @ bytes16 (fh_CDCSpecification f)"

definition acm_bytes :: "USB_CDC_Descriptor_FunctionalACM_t \<Rightarrow> byte list" where
  "acm_bytes f = hdr_bytes (acm_Header f) @ [acm_Subtype f, acm_Capabilities f]"

definition union_bytes :: "USB_CDC_Descriptor_FunctionalUnion_t \<Rightarrow> byte list" where
  "union_bytes f = hdr_bytes (un_Header f) @
     [un_Subtype f, un_MasterInterfaceNumber f, un_SlaveInterfaceNumber f]"

definition configuration_bytes :: "USB_Descriptor_Configuration_t \<Rightarrow> byte list" where
  "configuration_bytes c = cfg_header_bytes (Config c) @ interface_bytes (CDC_CCI_Interface c) @
     fheader_bytes (CDC_Functional_Header c) @ acm_bytes (CDC_Functional_ACM c) @
     union_bytes (CDC_Functional_Union c) @ endpoint_bytes (CDC_NotificationEndpoint c) @
     interface_bytes (CDC_DCI_Interface c) @ endpoint_bytes (CDC_DataOutEndpoint c) @
     endpoint_bytes (CDC_DataInEndpoint c)"

definition string_bytes :: "USB_Descriptor_String_t \<Rightarrow> byte list" where
  "string_bytes d = hdr_bytes (str_Header d) @ concat (map bytes16 (str_UnicodeString d))"

text \<open>\<open>sizeof\<close> of the structures.\<close>

definition sizeof_Device :: nat where "sizeof_Device = 18"
definition sizeof_Configuration_Header :: nat where "sizeof_Configuration_Header = 9"
definition sizeof_Interface :: nat where "sizeof_Interface = 9"
definition sizeof_Endpoint :: nat where "sizeof_Endpoint = 7"
definition sizeof_FunctionalHeader :: nat where "sizeof_FunctionalHeader = 5"
definition sizeof_FunctionalACM :: nat where "sizeof_FunctionalACM = 4"
definition sizeof_FunctionalUnion :: nat where "sizeof_FunctionalUnion = 5"
definition sizeof_Configuration :: nat where "sizeof_Configuration = 62"

lemmas sizeof_defs =
  sizeof_Device_def sizeof_Configuration_Header_def sizeof_Interface_def sizeof_Endpoint_def
  sizeof_FunctionalHeader_def sizeof_FunctionalACM_def sizeof_FunctionalUnion_def
  sizeof_Configuration_def

subsection \<open>Constants\<close>

definition NO_DESCRIPTOR :: u16 where "NO_DESCRIPTOR = 0"
definition DTYPE_Device :: byte where "DTYPE_Device = 0x01"
definition DTYPE_Configuration :: byte where "DTYPE_Configuration = 0x02"
definition DTYPE_String :: byte where "DTYPE_String = 0x03"
definition DTYPE_Interface :: byte where "DTYPE_Interface = 0x04"
definition DTYPE_Endpoint :: byte where "DTYPE_Endpoint = 0x05"
definition DTYPE_CSInterface :: byte where "DTYPE_CSInterface = 0x24"
definition STRING_ID_Language :: byte where "STRING_ID_Language = 0"
definition STRING_ID_Manufacturer :: byte where "STRING_ID_Manufacturer = 1"
definition STRING_ID_Product :: byte where "STRING_ID_Product = 2"
definition USE_INTERNAL_SERIAL :: byte where "USE_INTERNAL_SERIAL = 0xDC"
definition INTERFACE_ID_CDC_CCI :: byte where "INTERFACE_ID_CDC_CCI = 0"
definition INTERFACE_ID_CDC_DCI :: byte where "INTERFACE_ID_CDC_DCI = 1"
definition CDC_NOTIFICATION_EPADDR :: byte where "CDC_NOTIFICATION_EPADDR = ENDPOINT_DIR_IN OR 2"
definition CDC_TX_EPADDR :: byte where "CDC_TX_EPADDR = ENDPOINT_DIR_IN OR 3"
definition CDC_RX_EPADDR :: byte where "CDC_RX_EPADDR = 4"
definition CDC_NOTIFICATION_EPSIZE :: u16 where "CDC_NOTIFICATION_EPSIZE = 8"
definition CDC_RX_EPSIZE :: u16 where "CDC_RX_EPSIZE = 64"
definition CDC_TX_EPSIZE :: u16 where "CDC_TX_EPSIZE = 64"
definition LANGUAGE_ID_ENG :: u16 where "LANGUAGE_ID_ENG = 0x0409"
definition FIXED_NUM_CONFIGURATIONS :: byte where "FIXED_NUM_CONFIGURATIONS = 1"

lemmas descriptor_consts =
  NO_DESCRIPTOR_def DTYPE_Device_def DTYPE_Configuration_def DTYPE_String_def DTYPE_Interface_def
  DTYPE_Endpoint_def DTYPE_CSInterface_def STRING_ID_Language_def STRING_ID_Manufacturer_def
  STRING_ID_Product_def USE_INTERNAL_SERIAL_def INTERFACE_ID_CDC_CCI_def INTERFACE_ID_CDC_DCI_def
  CDC_NOTIFICATION_EPADDR_def CDC_TX_EPADDR_def CDC_RX_EPADDR_def CDC_NOTIFICATION_EPSIZE_def
  CDC_RX_EPSIZE_def CDC_TX_EPSIZE_def LANGUAGE_ID_ENG_def FIXED_NUM_CONFIGURATIONS_def

definition VERSION_BCD :: "u16 \<Rightarrow> u16 \<Rightarrow> u16 \<Rightarrow> u16" where
  "VERSION_BCD Major Minor Revision =
     push_bit 8 (Major AND 0xFF) OR push_bit 4 (Minor AND 0x0F) OR (Revision AND 0x0F)"

definition header :: "nat \<Rightarrow> byte \<Rightarrow> USB_Descriptor_Header_t" where
  "header sz typ = \<lparr>hdr_Size = of_nat sz, hdr_Type = typ\<rparr>"

subsection \<open>The descriptors\<close>

definition DeviceDescriptor :: USB_Descriptor_Device_t where
  "DeviceDescriptor = \<lparr>
     dev_Header = header sizeof_Device DTYPE_Device,
     dev_USBSpecification = VERSION_BCD 1 1 0,
     dev_Class = 0x02, dev_SubClass = 0x00, dev_Protocol = 0x00,
     dev_Endpoint0Size = ucast USB_Device_ControlEndpointSize,
     dev_VendorID = 0x03EB, dev_ProductID = 0x204B, dev_ReleaseNumber = VERSION_BCD 0 0 1,
     dev_ManufacturerStrIndex = STRING_ID_Manufacturer,
     dev_ProductStrIndex = STRING_ID_Product,
     dev_SerialNumStrIndex = USE_INTERNAL_SERIAL,
     dev_NumberOfConfigurations = FIXED_NUM_CONFIGURATIONS\<rparr>"

definition endpoint_descriptor :: "byte \<Rightarrow> byte \<Rightarrow> u16 \<Rightarrow> byte \<Rightarrow> USB_Descriptor_Endpoint_t" where
  "endpoint_descriptor addr attr sz interval = \<lparr>
     ep_Header = header sizeof_Endpoint DTYPE_Endpoint,
     ep_EndpointAddress = addr, ep_Attributes = attr, ep_EndpointSize = sz,
     ep_PollingIntervalMS = interval\<rparr>"

definition ConfigurationDescriptor :: USB_Descriptor_Configuration_t where
  "ConfigurationDescriptor = \<lparr>
     Config = \<lparr>
       cfg_Header = header sizeof_Configuration_Header DTYPE_Configuration,
       cfg_TotalConfigurationSize = of_nat sizeof_Configuration,
       cfg_TotalInterfaces = 2, cfg_ConfigurationNumber = 1, cfg_ConfigurationStrIndex = 0,
       cfg_ConfigAttributes = 0x80 OR 0x40, cfg_MaxPowerConsumption = 50\<rparr>,
     CDC_CCI_Interface = \<lparr>
       if_Header = header sizeof_Interface DTYPE_Interface,
       if_InterfaceNumber = INTERFACE_ID_CDC_CCI, if_AlternateSetting = 0, if_TotalEndpoints = 1,
       if_Class = 0x02, if_SubClass = 0x02, if_Protocol = 0x01, if_InterfaceStrIndex = 0\<rparr>,
     CDC_Functional_Header = \<lparr>
       fh_Header = header sizeof_FunctionalHeader DTYPE_CSInterface,
       fh_Subtype = 0x00, fh_CDCSpecification = VERSION_BCD 1 1 0\<rparr>,
     CDC_Functional_ACM = \<lparr>
       acm_Header = header sizeof_FunctionalACM DTYPE_CSInterface,
       acm_Subtype = 0x02, acm_Capabilities = 0x06\<rparr>,
     CDC_Functional_Union = \<lparr>
       un_Header = header sizeof_FunctionalUnion DTYPE_CSInterface,
       un_Subtype = 0x06, un_MasterInterfaceNumber = INTERFACE_ID_CDC_CCI,
       un_SlaveInterfaceNumber = INTERFACE_ID_CDC_DCI\<rparr>,
     CDC_NotificationEndpoint =
       endpoint_descriptor CDC_NOTIFICATION_EPADDR EP_TYPE_INTERRUPT CDC_NOTIFICATION_EPSIZE 0xFF,
     CDC_DCI_Interface = \<lparr>
       if_Header = header sizeof_Interface DTYPE_Interface,
       if_InterfaceNumber = INTERFACE_ID_CDC_DCI, if_AlternateSetting = 0, if_TotalEndpoints = 2,
       if_Class = 0x0A, if_SubClass = 0x00, if_Protocol = 0x00, if_InterfaceStrIndex = 0\<rparr>,
     CDC_DataOutEndpoint = endpoint_descriptor CDC_RX_EPADDR EP_TYPE_BULK CDC_RX_EPSIZE 0x05,
     CDC_DataInEndpoint = endpoint_descriptor CDC_TX_EPADDR EP_TYPE_BULK CDC_TX_EPSIZE 0x05\<rparr>"

text \<open>
  A string descriptor made from a wide string literal: the size counts the characters, the
  object also holds the terminator of the literal.
\<close>

definition wide :: "string \<Rightarrow> u16 list" where
  "wide str = map of_char str"

definition USB_STRING_DESCRIPTOR :: "u16 list \<Rightarrow> USB_Descriptor_String_t" where
  "USB_STRING_DESCRIPTOR str = \<lparr>
     str_Header = header (2 + (2 * (length str + 1) - 2)) DTYPE_String,
     str_UnicodeString = str @ [0]\<rparr>"

definition LanguageString :: USB_Descriptor_String_t where
  "LanguageString = \<lparr>str_Header = header (2 + 2) DTYPE_String,
     str_UnicodeString = [LANGUAGE_ID_ENG]\<rparr>"

definition ManufacturerString :: USB_Descriptor_String_t where
  "ManufacturerString = USB_STRING_DESCRIPTOR (wide ''Dean Camera'')"

definition ProductString :: USB_Descriptor_String_t where
  "ProductString = USB_STRING_DESCRIPTOR (wide ''LUFA USB-RS232 Adapter'')"

subsection \<open>Lookup\<close>

text \<open>The address of a descriptor is modelled by the flash bytes it points to.\<close>

definition CALLBACK_USB_GetDescriptor :: "u16 \<Rightarrow> u16 \<Rightarrow> byte list option \<times> u16" where
  "CALLBACK_USB_GetDescriptor wValu wIndx =
    (let DescriptorType = ucast (drop_bit 8 wValu) :: byte;
         DescriptorNumber = ucast (wValu AND 0xFF) :: byte
     in if DescriptorType = DTYPE_Device
        then (Some (device_bytes DeviceDescriptor), of_nat sizeof_Device)
        else if DescriptorType = DTYPE_Configuration
        then (Some (configuration_bytes ConfigurationDescriptor), of_nat sizeof_Configuration)
        else if DescriptorType = DTYPE_String
        then (if DescriptorNumber = STRING_ID_Language
              then (Some (string_bytes LanguageString), ucast (hdr_Size (str_Header LanguageString)))
              else if DescriptorNumber = STRING_ID_Manufacturer
              then (Some (string_bytes ManufacturerString),
                    ucast (hdr_Size (str_Header ManufacturerString)))
              else if DescriptorNumber = STRING_ID_Product
              then (Some (string_bytes ProductString), ucast (hdr_Size (str_Header ProductString)))
              else (None, NO_DESCRIPTOR))
        else (None, NO_DESCRIPTOR))"

end
