(* ===== verification/StdRequests.thy ===== *)
theory StdRequests
  imports Descriptors
begin

text \<open>
  The standard control requests (\<open>DeviceStandardReq.c\<close>) and the device task that serves
  the control endpoint (\<open>USBTask.c\<close>), with the device event handlers of
  \<open>usb_serial.c\<close>.
\<close>

unbundle bit_operations_syntax

subsection \<open>Constants\<close>

definition REQREC_DEVICE :: byte where "REQREC_DEVICE = 0x00"
definition REQREC_ENDPOINT :: byte where "REQREC_ENDPOINT = 0x02"
definition CONTROL_REQTYPE_RECIPIENT :: byte where "CONTROL_REQTYPE_RECIPIENT = 0x1F"
definition REQ_GetStatus :: byte where "REQ_GetStatus = 0"
definition REQ_ClearFeature :: byte where "REQ_ClearFeature = 1"
definition REQ_SetFeature :: byte where "REQ_SetFeature = 3"
definition REQ_SetAddress :: byte where "REQ_SetAddress = 5"
definition REQ_GetDescriptor :: byte where "REQ_GetDescriptor = 6"
definition REQ_GetConfiguration :: byte where "REQ_GetConfiguration = 8"
definition REQ_SetConfiguration :: byte where "REQ_SetConfiguration = 9"
definition FEATURE_SEL_EndpointHalt :: byte where "FEATURE_SEL_EndpointHalt = 0"

lemmas request_consts =
  REQREC_DEVICE_def REQREC_ENDPOINT_def CONTROL_REQTYPE_RECIPIENT_def REQ_GetStatus_def
  REQ_ClearFeature_def REQ_SetFeature_def REQ_SetAddress_def REQ_GetDescriptor_def
  REQ_GetConfiguration_def REQ_SetConfiguration_def FEATURE_SEL_EndpointHalt_def

subsection \<open>Event handlers of the application\<close>

definition EVENT_USB_Device_ConfigurationChanged :: "fw \<Rightarrow> fw option" where
  "EVENT_USB_Device_ConfigurationChanged s =
     do { (_, s) \<leftarrow> CDC_Device_ConfigureEndpoints s; Some s }"

definition EVENT_USB_Device_ControlRequest :: "fw \<Rightarrow> fw option" where
  "EVENT_USB_Device_ControlRequest s = CDC_Device_ProcessControlRequest s"

subsection \<open>Requests\<close>

definition USB_Device_SetAddress :: "fw \<Rightarrow> fw option" where
  "USB_Device_SetAddress s =
    (let DeviceAddress = ucast (wValue (ControlRequest s) AND 0x7F) :: byte;
         s = USB_Device_SetDeviceAddress DeviceAddress s
     in do {
       s \<leftarrow> Endpoint_ClearStatusStage (Endpoint_ClearSETUP s);
       s \<leftarrow> spin_INReady s;
       let s = USB_Device_EnableDeviceAddress DeviceAddress s;
       Some (s\<lparr>DeviceState := (if DeviceAddress \<noteq> 0 then DEVICE_STATE_Addressed
                               else DEVICE_STATE_Default)\<rparr>)
     })"

definition USB_Device_SetConfiguration :: "fw \<Rightarrow> fw option" where
  "USB_Device_SetConfiguration s =
    (let cfg = ucast (wValue (ControlRequest s)) :: byte in
     if cfg > FIXED_NUM_CONFIGURATIONS then Some s
     else do {
       let s = Endpoint_ClearSETUP s;
       let s = s\<lparr>ConfigurationNumber := ucast (wValue (ControlRequest s))\<rparr>;
       s \<leftarrow> Endpoint_ClearStatusStage s;
       let s = (if ConfigurationNumber s \<noteq> 0 then s\<lparr>DeviceState := DEVICE_STATE_Configured\<rparr>
                else s\<lparr>DeviceState := (if USB_Device_IsAddressSet s then DEVICE_STATE_Configured
                                        else DEVICE_STATE_Powered)\<rparr>);
       EVENT_USB_Device_ConfigurationChanged s
     })"

definition USB_Device_GetConfiguration :: "fw \<Rightarrow> fw option" where
  "USB_Device_GetConfiguration s =
    (let s = Endpoint_ClearSETUP s;
         s = Endpoint_Write_8 (ConfigurationNumber s) s;
         s = Endpoint_ClearIN s
     in Endpoint_ClearStatusStage s)"

definition USB_Device_GetInternalSerialDescriptor :: "fw \<Rightarrow> fw option" where
  "USB_Device_GetInternalSerialDescriptor s =
    (let (UnicodeString, s) = USB_Device_GetSerialString s;
         SignatureDescriptor = \<lparr>
           str_Header = header (2 + 2 * (INTERNAL_SERIAL_LENGTH_BITS div 4)) DTYPE_String,
           str_UnicodeString = UnicodeString\<rparr>;
         s = Endpoint_ClearSETUP s
     in do {
       (_, s) \<leftarrow> Endpoint_Write_Control_Stream_LE (string_bytes SignatureDescriptor)
                  (of_nat (2 + 2 * (INTERNAL_SERIAL_LENGTH_BITS div 4))) s;
       Some (Endpoint_ClearOUT s)
     })"

definition USB_Device_GetDescriptor :: "fw \<Rightarrow> fw option" where
  "USB_Device_GetDescriptor s =
    (let q = ControlRequest s in
     if wValue q = push_bit 8 (ucast DTYPE_String) OR ucast USE_INTERNAL_SERIAL
     then USB_Device_GetInternalSerialDescriptor s
     else let (DescriptorPointer, DescriptorSize) = CALLBACK_USB_GetDescriptor (wValue q) (wIndex q) in
     if DescriptorSize = NO_DESCRIPTOR then Some s
     else do {
       (_, s) \<leftarrow> Endpoint_Write_Control_PStream_LE
                  (case DescriptorPointer of None \<Rightarrow> [] | Some bs \<Rightarrow> bs) DescriptorSize
                  (Endpoint_ClearSETUP s);
       Some (Endpoint_ClearOUT s)
     })"

text \<open>Remote wakeup and self power are compiled out, so the device status is zero.\<close>

definition USB_Device_GetStatus :: "fw \<Rightarrow> fw option" where
  "USB_Device_GetStatus s =
    (let q = ControlRequest s;
         reply = (\<lambda>CurrentStatus s.
           Endpoint_ClearStatusStage
             (Endpoint_ClearIN (Endpoint_Write_16_LE CurrentStatus (Endpoint_ClearSETUP s))))
     in if bmRequestType q = REQDIR_DEVICETOHOST OR REQREC_DEVICE then reply 0 s
        else if bmRequestType q = REQDIR_DEVICETOHOST OR REQREC_ENDPOINT
        then let EndpointIndex = ucast (wIndex q) AND ENDPOINT_EPNUM_MASK in
             if ENDPOINT_TOTAL_ENDPOINTS \<le> unat EndpointIndex then Some s
             else let s = Endpoint_SelectEndpoint EndpointIndex s;
                      CurrentStatus = (if Endpoint_IsStalled s then 1 else 0);
                      s = Endpoint_SelectEndpoint ENDPOINT_CONTROLEP s
                  in reply CurrentStatus s
        else Some s)"

definition USB_Device_ClearSetFeature :: "fw \<Rightarrow> fw option" where
  "USB_Device_ClearSetFeature s =
    (let q = ControlRequest s;
         finish = (\<lambda>s. Endpoint_ClearStatusStage
           (Endpoint_ClearSETUP (Endpoint_SelectEndpoint ENDPOINT_CONTROLEP s)))
     in if bmRequestType q AND CONTROL_REQTYPE_RECIPIENT = REQREC_ENDPOINT
        then if ucast (wValue q) = FEATURE_SEL_EndpointHalt
             then let EndpointIndex = ucast (wIndex q) AND ENDPOINT_EPNUM_MASK in
                  if EndpointIndex = ENDPOINT_CONTROLEP \<or>
                     ENDPOINT_TOTAL_ENDPOINTS \<le> unat EndpointIndex then Some s
                  else let s = Endpoint_SelectEndpoint EndpointIndex s;
                           s = (if Endpoint_IsEnabled s
                                then if bRequest q = REQ_SetFeature
                                     then Endpoint_StallTransaction s
                                     else Endpoint_ResetDataToggle
                                            (Endpoint_ResetEndpoint EndpointIndex (Endpoint_ClearStall s))
                                else s)
                       in finish s
             else finish s
        else Some s)"

subsection \<open>Dispatch\<close>

text \<open>
  The setup packet is read byte by byte into the request header, which is stored little
  endian.
\<close>

primrec read_bytes :: "nat \<Rightarrow> fw \<Rightarrow> byte list \<times> fw" where
  "read_bytes 0 s = ([], s)"
| "read_bytes (Suc n) s =
    (let (b, s) = Endpoint_Read_8 s; (bs, s) = read_bytes n s in (b # bs, s))"

definition le16 :: "byte \<Rightarrow> byte \<Rightarrow> u16" where
  "le16 lo hi = push_bit 8 (ucast hi) OR ucast lo"

definition request_of_bytes :: "byte list \<Rightarrow> USB_Request_Header_t" where
  "request_of_bytes bs = \<lparr>bmRequestType = bs ! 0, bRequest = bs ! 1, wValue = le16 (bs ! 2) (bs ! 3),
     wIndex = le16 (bs ! 4) (bs ! 5), wLength = le16 (bs ! 6) (bs ! 7)\<rparr>"

definition dispatch_standard :: "fw \<Rightarrow> fw option" where
  "dispatch_standard s =
    (let rt = bmRequestType (ControlRequest s); rq = bRequest (ControlRequest s);
         to_host = (\<lambda>rec. rt = REQDIR_DEVICETOHOST OR rec);
         from_host = (\<lambda>rec. rt = rec)
     in if rq = REQ_GetStatus
        then (if to_host REQREC_DEVICE \<or> to_host REQREC_ENDPOINT then USB_Device_GetStatus s else Some s)
        else if rq = REQ_ClearFeature \<or> rq = REQ_SetFeature
        then (if from_host REQREC_DEVICE \<or> from_host REQREC_ENDPOINT
              then USB_Device_ClearSetFeature s else Some s)
        else if rq = REQ_SetAddress
        then (if from_host REQREC_DEVICE then USB_Device_SetAddress s else Some s)
        else if rq = REQ_GetDescriptor
        then (if to_host REQREC_DEVICE \<or> to_host REQREC_INTERFACE
              then USB_Device_GetDescriptor s else Some s)
        else if rq = REQ_GetConfiguration
        then (if to_host REQREC_DEVICE then USB_Device_GetConfiguration s else Some s)
        else if rq = REQ_SetConfiguration
        then (if from_host REQREC_DEVICE then USB_Device_SetConfiguration s else Some s)
        else Some s)"

definition USB_Device_ProcessControlRequest :: "fw \<Rightarrow> fw option" where
  "USB_Device_ProcessControlRequest s =
    (let (bs, s) = read_bytes 8 s;
         s = s\<lparr>ControlRequest := request_of_bytes bs\<rparr>
     in do {
       s \<leftarrow> EVENT_USB_Device_ControlRequest s;
       let (r, s) = Endpoint_IsSETUPReceived s;
       s \<leftarrow> (if r then dispatch_standard s else Some s);
       let (r, s) = Endpoint_IsSETUPReceived s;
       Some (if r then Endpoint_StallTransaction (Endpoint_ClearSETUP s) else s)
     })"

subsection \<open>Device task\<close>

text \<open>
  The task looks at the device state, a volatile register which the bus event interrupt
  changes: asynchronous activity is sampled here.
\<close>

definition USB_DeviceTask :: "fw \<Rightarrow> fw option" where
  "USB_DeviceTask s =
    (let s = poll s in
     if DeviceState s = DEVICE_STATE_Unattached then Some s
     else let PrevEndpoint = Endpoint_GetCurrentEndpoint s;
              s = Endpoint_SelectEndpoint ENDPOINT_CONTROLEP s;
              (r, s) = Endpoint_IsSETUPReceived s
          in do {
            s \<leftarrow> (if r then USB_Device_ProcessControlRequest s else Some s);
            Some (Endpoint_SelectEndpoint PrevEndpoint s)
          })"

definition USB_USBTask :: "fw \<Rightarrow> fw option" where
  "USB_USBTask s = USB_DeviceTask s"

end
