(* ===== verification/UsbSerial.thy ===== *)
theory UsbSerial
  imports StdRequests
begin

text \<open>
  The serial port of the oscilloscope on top of the CDC class driver (\<open>usb_serial.c\<close>),
  and the standard library streams the class driver offers (the end of
  \<open>CDCClassDevice.c\<close>).
\<close>

unbundle bit_operations_syntax

subsection \<open>Initialisation\<close>

text \<open>The configuration group of the CDC interface instance.\<close>

definition endpoint_entry :: "byte \<Rightarrow> u16 \<Rightarrow> USB_Endpoint_Table_t" where
  "endpoint_entry addr sz = \<lparr>Address = addr, Size = sz, Type = 0, Banks = 1\<rparr>"

definition VirtualSerial_CDC_Interface :: USB_ClassInfo_CDC_Device_t where
  "VirtualSerial_CDC_Interface = \<lparr>
     ControlInterfaceNumber = INTERFACE_ID_CDC_CCI,
     DataINEndpoint = endpoint_entry CDC_TX_EPADDR CDC_TX_EPSIZE,
     DataOUTEndpoint = endpoint_entry CDC_RX_EPADDR CDC_RX_EPSIZE,
     NotificationEndpoint = endpoint_entry CDC_NOTIFICATION_EPADDR CDC_NOTIFICATION_EPSIZE,
     HostToDevice = 0, DeviceToHost = 0,
     LineEncoding = \<lparr>BaudRateBPS = 0, CharFormat = 0, ParityType = 0, DataBits = 0\<rparr>\<rparr>"

definition set_fifo_data :: "epref \<Rightarrow> ram_obj option \<Rightarrow> fw \<Rightarrow> fw" where
  "set_fifo_data e b s = FIFOs_update (\<lambda>t. t(e := (t e)\<lparr>Data := b\<rparr>)) s"

text \<open>The storage of the receive ring buffer has five bytes.\<close>

definition USBtoUSART_Buffer_Size :: u16 where "USBtoUSART_Buffer_Size = 5"

definition USB_serial_init :: "fw \<Rightarrow> fw" where
  "USB_serial_init s =
    (let s = fold (\<lambda>i s. set_fifo_data (EpIN i) None (set_fifo_data (EpOUT i) None s))
               [0..<ENDPOINT_TOTAL_ENDPOINTS] s;
         s = set_fifo_data (EpIN 0) (Some Notification_fifo) s;
         s = set_fifo_data (EpOUT 0) (Some Notification_fifo2) s;
         s = set_fifo_data (EpIN 3) (Some In_fifo) s;
         s = set_fifo_data (EpOUT 4) (Some Out_fifo) s;
         s = USB_Init s
     in s\<lparr>USBtoUSART_Buffer :=
           RingBuffer_InitBuffer (rb_Data (USBtoUSART_Buffer s)) USBtoUSART_Buffer_Size\<rparr>)"

subsection \<open>Sending\<close>

text \<open>The two tasks every waiting loop of the serial port runs.\<close>

definition serial_tasks :: "fw \<Rightarrow> fw option" where
  "serial_tasks s = do { s \<leftarrow> CDC_Device_USBTask s; USB_USBTask s }"

definition select_data_IN :: "fw \<Rightarrow> fw" where
  "select_data_IN s = Endpoint_SelectEndpoint (Address (DataINEndpoint (CDC s))) s"

partial_function (option) put_char_loop :: "byte \<Rightarrow> bool \<Rightarrow> fw \<Rightarrow> fw option" where
  "put_char_loop v needToSend s =
     (if DeviceState s = DEVICE_STATE_Configured \<and> ok_to_send s \<and> needToSend
      then (case Endpoint_IsINReady (select_data_IN s) of (r, s) \<Rightarrow>
        if r then do {
          (_, s) \<leftarrow> CDC_Device_SendByte v s;
          s \<leftarrow> serial_tasks s;
          put_char_loop v False s
        }
        else do {
          s \<leftarrow> serial_tasks s;
          put_char_loop v needToSend s
        })
      else Some s)"

definition USB_serial_put_char :: "byte \<Rightarrow> fw \<Rightarrow> fw option" where
  "USB_serial_put_char v s = put_char_loop v True s"

text \<open>
  What a buffer pointer refers to: a constant array, or a place in the sample buffer, which
  the DMA controller may be writing. The bytes of a chunk are taken when the chunk is handed
  to the class driver.
\<close>

datatype buffer = Static "byte list" | ScopeBuf nat

fun buf_bytes :: "buffer \<Rightarrow> fw \<Rightarrow> byte list" where
  "buf_bytes (Static bs) s = bs"
| "buf_bytes (ScopeBuf i) s = drop i (scopeBuf (hw s))"

fun buf_add :: "buffer \<Rightarrow> nat \<Rightarrow> buffer" where
  "buf_add (Static bs) n = Static (drop n bs)"
| "buf_add (ScopeBuf i) n = ScopeBuf (i + n)"

partial_function (option) USB_serial_put_buf :: "buffer \<Rightarrow> u16 \<Rightarrow> fw \<Rightarrow> fw option" where
  "USB_serial_put_buf buff len s =
     (if DeviceState s = DEVICE_STATE_Configured \<and> ok_to_send s \<and> len > 0
      then (case Endpoint_IsINReady (select_data_IN s) of (r, s) \<Rightarrow>
        if r then do {
          let toSend = min len (CDC_RX_EPSIZE - 1);
          (_, s) \<leftarrow> CDC_Device_SendData (buf_bytes buff s) toSend s;
          s \<leftarrow> serial_tasks s;
          USB_serial_put_buf (buf_add buff (unat toSend)) (len - toSend) s
        }
        else do {
          s \<leftarrow> serial_tasks s;
          USB_serial_put_buf buff len s
        })
      else Some s)"

definition USB_serial_put_string :: "byte list \<Rightarrow> fw \<Rightarrow> fw option" where
  "USB_serial_put_string str s = USB_serial_put_buf (Static str) (strlen str) (check_string str s)"

text \<open>The string is in flash; running past its end is a fault.\<close>

fun USB_serial_put_string_P_internal :: "byte list \<Rightarrow> fw \<Rightarrow> fw option" where
  "USB_serial_put_string_P_internal [] s = Some (raise_fault s)"
| "USB_serial_put_string_P_internal (c # cs) s =
     (if c = 0 then Some s
      else do { s \<leftarrow> USB_serial_put_char c s; USB_serial_put_string_P_internal cs s })"

subsection \<open>Receiving\<close>

definition ring_insert :: "byte \<Rightarrow> fw \<Rightarrow> fw" where
  "ring_insert v s = (case RingBuffer_Insert (USBtoUSART_Buffer s) v of
     None \<Rightarrow> raise_fault s | Some b \<Rightarrow> s\<lparr>USBtoUSART_Buffer := b\<rparr>)"

definition serial_receive :: "fw \<Rightarrow> fw" where
  "serial_receive s =
     (if \<not> RingBuffer_IsFull (USBtoUSART_Buffer s)
      then if DeviceState s = DEVICE_STATE_Configured
           then let (ReceivedByte, s) = CDC_Device_ReceiveByte s
                in if \<not> ReceivedByte < 0 then ring_insert (word_of_int ReceivedByte) s else s
           else s
      else s)"

partial_function (option) get_char_loop :: "fw \<Rightarrow> fw option" where
  "get_char_loop s =
     (if RingBuffer_IsEmpty (USBtoUSART_Buffer s)
      then do { s \<leftarrow> serial_tasks (serial_receive s); get_char_loop s }
      else Some s)"

definition USB_serial_get_char :: "fw \<Rightarrow> (byte \<times> fw) option" where
  "USB_serial_get_char s = do {
     s \<leftarrow> get_char_loop s;
     Some (case RingBuffer_Peek (USBtoUSART_Buffer s) of
             None \<Rightarrow> (0, raise_fault s)
           | Some ret \<Rightarrow> (case RingBuffer_Remove (USBtoUSART_Buffer s) of
                 None \<Rightarrow> (ret, raise_fault s)
               | Some (_, b) \<Rightarrow> (ret, s\<lparr>USBtoUSART_Buffer := b\<rparr>)))
   }"

definition USB_serial_get_short :: "fw \<Rightarrow> (u16 \<times> fw) option" where
  "USB_serial_get_short s = do {
     (hi, s) \<leftarrow> USB_serial_get_char s;
     (lo, s) \<leftarrow> USB_serial_get_char s;
     Some (push_bit 8 (ucast hi) OR ucast lo, s)
   }"

definition USB_serial_get_long :: "fw \<Rightarrow> (u32 \<times> fw) option" where
  "USB_serial_get_long s = do {
     (hi, s) \<leftarrow> USB_serial_get_short s;
     (lo, s) \<leftarrow> USB_serial_get_short s;
     Some (push_bit 16 (ucast hi) OR ucast lo, s)
   }"

subsection \<open>Standard library streams\<close>

definition FDEV_ERR :: int where "FDEV_ERR = - 1"
definition FDEV_EOF :: int where "FDEV_EOF = - 2"

definition CDC_Device_putchar :: "byte \<Rightarrow> fw \<Rightarrow> (int \<times> fw) option" where
  "CDC_Device_putchar c s = do {
     (e, s) \<leftarrow> CDC_Device_SendByte c s;
     Some (if e \<noteq> NoError then FDEV_ERR else 0, s)
   }"

definition CDC_Device_getchar :: "fw \<Rightarrow> int \<times> fw" where
  "CDC_Device_getchar s =
    (let (ReceivedByte, s) = CDC_Device_ReceiveByte s
     in (if ReceivedByte < 0 then FDEV_EOF else ReceivedByte, s))"

partial_function (option) CDC_Device_getchar_Blocking :: "fw \<Rightarrow> (int \<times> fw) option" where
  "CDC_Device_getchar_Blocking s =
     (case CDC_Device_ReceiveByte s of (ReceivedByte, s) \<Rightarrow>
        if ReceivedByte < 0
        then if DeviceState s = DEVICE_STATE_Unattached then Some (FDEV_EOF, s)
             else do { s \<leftarrow> serial_tasks s; CDC_Device_getchar_Blocking s }
        else Some (ReceivedByte, s))"

end
