(* ===== verification/Analog.thy ===== *)
theory Analog
  imports UsbController
begin

text \<open>
  The acquisition hardware: analogue to digital converter (\<open>adc.c\<close>), DMA of the samples
  (\<open>dmaadc.c\<close>), trigger input (\<open>trigger.c\<close>), glitch timer (\<open>hires_glitch.c\<close>) and
  the debug serial port (\<open>usartx.c\<close>). Channel functions take the channel record the C
  pointer refers to.
\<close>

unbundle bit_operations_syntax

abbreviation upd_adca :: "(adc_t \<Rightarrow> adc_t) \<Rightarrow> fw \<Rightarrow> fw" where
  "upd_adca f \<equiv> hw_update (adca_update f)"

abbreviation upd_CH0 :: "(adc_ch_t \<Rightarrow> adc_ch_t) \<Rightarrow> fw \<Rightarrow> fw" where
  "upd_CH0 f \<equiv> upd_adca (ADC_CH0_update f)"

abbreviation upd_porta :: "(port_t \<Rightarrow> port_t) \<Rightarrow> fw \<Rightarrow> fw" where
  "upd_porta f \<equiv> hw_update (porta_update f)"

abbreviation upd_dma :: "(dma_t \<Rightarrow> dma_t) \<Rightarrow> fw \<Rightarrow> fw" where
  "upd_dma f \<equiv> hw_update (dma_update f)"

abbreviation upd_tcd0 :: "(tc0_t \<Rightarrow> tc0_t) \<Rightarrow> fw \<Rightarrow> fw" where
  "upd_tcd0 f \<equiv> hw_update (tcd0_update f)"

abbreviation upd_tcc2 :: "(tc2_t \<Rightarrow> tc2_t) \<Rightarrow> fw \<Rightarrow> fw" where
  "upd_tcc2 f \<equiv> hw_update (tcc2_update f)"

subsection \<open>Analogue to digital converter\<close>

definition ADC_ENABLE_bm :: byte where "ADC_ENABLE_bm = 0x01"
definition ADC_CH0START_bm :: byte where "ADC_CH0START_bm = 0x04"
definition ADC_CONMODE_bm :: byte where "ADC_CONMODE_bm = 0x10"
definition ADC_FREERUN_bm :: byte where "ADC_FREERUN_bm = 0x08"
definition ADC_RESOLUTION_12BIT_gc :: byte where "ADC_RESOLUTION_12BIT_gc = 0x00"
definition ADC_RESOLUTION_8BIT_gc :: byte where "ADC_RESOLUTION_8BIT_gc = 0x04"
definition ADC_REFSEL_gm :: byte where "ADC_REFSEL_gm = 0x70"
definition ADC_REFSEL_INT1V_gc :: byte where "ADC_REFSEL_INT1V_gc = 0x00"
definition ADC_BANDGAP_bm :: byte where "ADC_BANDGAP_bm = 0x02"
definition ADC_SWEEP_gm :: byte where "ADC_SWEEP_gm = 0xC0"
definition ADC_SWEEP_0_gc :: byte where "ADC_SWEEP_0_gc = 0x00"
definition ADC_EVSEL_gm :: byte where "ADC_EVSEL_gm = 0x38"
definition ADC_EVSEL_0123_gc :: byte where "ADC_EVSEL_0123_gc = 0x00"
definition ADC_EVACT_gm :: byte where "ADC_EVACT_gm = 0x07"
definition ADC_EVACT_NONE_gc :: byte where "ADC_EVACT_NONE_gc = 0x00"
definition ADC_PRESCALER_gm :: byte where "ADC_PRESCALER_gm = 0x07"
definition ADC_PRESCALER_DIV4_gc :: byte where "ADC_PRESCALER_DIV4_gc = 0x00"
definition ADC_CH_START_bm :: byte where "ADC_CH_START_bm = 0x80"
definition ADC_CH_GAIN_gm :: byte where "ADC_CH_GAIN_gm = 0x1C"
definition ADC_CH_GAIN_1X_gc :: byte where "ADC_CH_GAIN_1X_gc = 0x00"
definition ADC_CH_INPUTMODE_gm :: byte where "ADC_CH_INPUTMODE_gm = 0x03"
definition ADC_CH_INPUTMODE_DIFFWGAIN_gc :: byte where "ADC_CH_INPUTMODE_DIFFWGAIN_gc = 0x03"
definition ADC_CH_MUXPOS_gm :: byte where "ADC_CH_MUXPOS_gm = 0x78"
definition ADC_CH_MUXPOS_PIN3_gc :: byte where "ADC_CH_MUXPOS_PIN3_gc = 0x18"
definition ADC_CH_MUXINT_gm :: byte where "ADC_CH_MUXINT_gm = 0x78"
definition ADC_CH_MUXNEG_gm :: byte where "ADC_CH_MUXNEG_gm = 0x07"
definition ADC_CH_MUXNEG_PIN5_gc :: byte where "ADC_CH_MUXNEG_PIN5_gc = 0x01"
definition ADC_CH_INTMODE_gm :: byte where "ADC_CH_INTMODE_gm = 0x0C"
definition ADC_CH_INTLVL_gm :: byte where "ADC_CH_INTLVL_gm = 0x03"
definition ADC_CH_INTLVL_OFF_gc :: byte where "ADC_CH_INTLVL_OFF_gc = 0x00"
definition ADC_CH_INTLVL_LO_gc :: byte where "ADC_CH_INTLVL_LO_gc = 0x01"
definition PORT_ISC_INPUT_DISABLE_gc :: byte where "PORT_ISC_INPUT_DISABLE_gc = 0x07"

lemmas adc_consts =
  ADC_ENABLE_bm_def ADC_CH0START_bm_def ADC_CONMODE_bm_def ADC_FREERUN_bm_def
  ADC_RESOLUTION_12BIT_gc_def ADC_RESOLUTION_8BIT_gc_def ADC_REFSEL_gm_def ADC_REFSEL_INT1V_gc_def
  ADC_BANDGAP_bm_def ADC_SWEEP_gm_def ADC_SWEEP_0_gc_def ADC_EVSEL_gm_def ADC_EVSEL_0123_gc_def
  ADC_EVACT_gm_def ADC_EVACT_NONE_gc_def ADC_PRESCALER_gm_def ADC_PRESCALER_DIV4_gc_def
  ADC_CH_START_bm_def ADC_CH_GAIN_gm_def ADC_CH_GAIN_1X_gc_def ADC_CH_INPUTMODE_gm_def
  ADC_CH_INPUTMODE_DIFFWGAIN_gc_def ADC_CH_MUXPOS_gm_def ADC_CH_MUXPOS_PIN3_gc_def
  ADC_CH_MUXINT_gm_def ADC_CH_MUXNEG_gm_def ADC_CH_MUXNEG_PIN5_gc_def ADC_CH_INTMODE_gm_def
  ADC_CH_INTLVL_gm_def ADC_CH_INTLVL_OFF_gc_def ADC_CH_INTLVL_LO_gc_def PORT_ISC_INPUT_DISABLE_gc_def

text \<open>Replace a bit group of a register: clear the group, then set the new value.\<close>

definition set_group :: "byte \<Rightarrow> byte \<Rightarrow> byte \<Rightarrow> byte" where
  "set_group gm v x = (x AND NOT gm) OR v"

definition adc_calibrate :: "u16 \<Rightarrow> fw \<Rightarrow> fw" where
  "adc_calibrate adc_cal = upd_adca (ADC_CAL_update (\<lambda>_. adc_cal))"

definition adc_enable :: "bool \<Rightarrow> fw \<Rightarrow> fw" where
  "adc_enable en = upd_adca (ADC_CTRLA_update (\<lambda>x. if en then x OR ADC_ENABLE_bm
                                                     else x AND NOT ADC_ENABLE_bm))"

definition adc_refsel :: "byte \<Rightarrow> fw \<Rightarrow> fw" where
  "adc_refsel refsel = upd_adca (ADC_REFCTRL_update (set_group ADC_REFSEL_gm refsel))"

definition adc_bandgap :: "bool \<Rightarrow> fw \<Rightarrow> fw" where
  "adc_bandgap bandgap = upd_adca (ADC_REFCTRL_update (\<lambda>x. if bandgap then x OR ADC_BANDGAP_bm
                                                              else x AND NOT ADC_BANDGAP_bm))"

definition adc_sweep :: "byte \<Rightarrow> fw \<Rightarrow> fw" where
  "adc_sweep sweep = upd_adca (ADC_EVCTRL_update (set_group ADC_SWEEP_gm sweep))"

definition adc_evsel :: "byte \<Rightarrow> fw \<Rightarrow> fw" where
  "adc_evsel evsel = upd_adca (ADC_EVCTRL_update (set_group ADC_EVSEL_gm evsel))"

definition adc_evact :: "byte \<Rightarrow> fw \<Rightarrow> fw" where
  "adc_evact evact = upd_adca (ADC_EVCTRL_update (set_group ADC_EVACT_gm evact))"

definition adc_prescaler :: "byte \<Rightarrow> fw \<Rightarrow> fw" where
  "adc_prescaler prescaler = upd_adca (ADC_PRESCALER_update (set_group ADC_PRESCALER_gm prescaler))"

text \<open>The flags are read, or-ed and written back; every one written clears a flag.\<close>

definition adc_intflags :: "byte \<Rightarrow> fw \<Rightarrow> fw" where
  "adc_intflags intflags = upd_adca (ADC_INTFLAGS_update (\<lambda>x. write_flags (x OR intflags) x))"

definition adc_ch_start :: "adc_ch_t \<Rightarrow> adc_ch_t" where
  "adc_ch_start ch = CH_CTRL_update (\<lambda>x. x OR ADC_CH_START_bm) ch"

text \<open>The line that clears the old gain is commented out in the source.\<close>

definition adc_ch_gain :: "byte \<Rightarrow> adc_ch_t \<Rightarrow> adc_ch_t" where
  "adc_ch_gain gain ch = CH_CTRL_update (\<lambda>x. x OR gain) ch"

definition adc_ch_inputmode :: "byte \<Rightarrow> adc_ch_t \<Rightarrow> adc_ch_t" where
  "adc_ch_inputmode inputmode ch = CH_CTRL_update (set_group ADC_CH_INPUTMODE_gm inputmode) ch"

definition adc_ch_muxpos :: "byte \<Rightarrow> adc_ch_t \<Rightarrow> adc_ch_t" where
  "adc_ch_muxpos muxpos ch = CH_MUXCTRL_update (set_group ADC_CH_MUXPOS_gm muxpos) ch"

definition adc_ch_muxint :: "byte \<Rightarrow> adc_ch_t \<Rightarrow> adc_ch_t" where
  "adc_ch_muxint muxint ch = CH_MUXCTRL_update (set_group ADC_CH_MUXINT_gm muxint) ch"

definition adc_ch_muxneg :: "byte \<Rightarrow> adc_ch_t \<Rightarrow> adc_ch_t" where
  "adc_ch_muxneg muxneg ch = CH_MUXCTRL_update (set_group ADC_CH_MUXNEG_gm muxneg) ch"

definition adc_ch_intmode :: "byte \<Rightarrow> adc_ch_t \<Rightarrow> adc_ch_t" where
  "adc_ch_intmode intmode ch = CH_INTCTRL_update (set_group ADC_CH_INTMODE_gm intmode) ch"

definition adc_ch_intlvl :: "byte \<Rightarrow> adc_ch_t \<Rightarrow> adc_ch_t" where
  "adc_ch_intlvl intlvl ch = CH_INTCTRL_update (set_group ADC_CH_INTLVL_gm intlvl) ch"

definition adc_init :: "bool \<Rightarrow> fw \<Rightarrow> fw" where
  "adc_init bits12 s =
    (let s = adc_enable False s;
         s = adc_intflags 0x0F s;
         s = upd_adca (ADC_CTRLB_update (\<lambda>_. ADC_CONMODE_bm OR ADC_FREERUN_bm)) s;
         s = (if bits12 then upd_adca (ADC_CTRLB_update (\<lambda>x. x OR ADC_RESOLUTION_12BIT_gc)) s
              else upd_adca (ADC_CTRLB_update (\<lambda>x. x OR ADC_RESOLUTION_8BIT_gc)) s);
         s = adc_refsel ADC_REFSEL_INT1V_gc s;
         s = adc_bandgap True s;
         s = adc_sweep ADC_SWEEP_0_gc s;
         s = adc_evsel ADC_EVSEL_0123_gc s;
         s = adc_evact ADC_EVACT_NONE_gc s;
         s = adc_prescaler ADC_PRESCALER_DIV4_gc s;
         s = upd_CH0 (adc_ch_gain ADC_CH_GAIN_1X_gc) s;
         s = upd_CH0 (adc_ch_inputmode ADC_CH_INPUTMODE_DIFFWGAIN_gc) s;
         s = upd_CH0 (adc_ch_muxpos ADC_CH_MUXPOS_PIN3_gc) s;
         s = upd_CH0 (adc_ch_muxneg ADC_CH_MUXNEG_PIN5_gc) s;
         s = upd_porta (PORT_PIN3CTRL_update (\<lambda>x. x OR PORT_ISC_INPUT_DISABLE_gc)) s;
         s = upd_porta (PORT_PIN5CTRL_update (\<lambda>x. x OR PORT_ISC_INPUT_DISABLE_gc)) s;
         s = upd_CH0 (adc_ch_intlvl ADC_CH_INTLVL_OFF_gc) s;
         s = adc_enable True s
     in upd_adca (ADC_CTRLA_update (\<lambda>x. x OR ADC_CH0START_bm)) s)"

subsection \<open>DMA of the samples\<close>

definition DMA_ENABLE_bm :: byte where "DMA_ENABLE_bm = 0x80"
definition DMA_RESET_bm :: byte where "DMA_RESET_bm = 0x40"
definition DMA_DBUFMODE_DISABLED_gc :: byte where "DMA_DBUFMODE_DISABLED_gc = 0x00"
definition DMA_CH_ENABLE_bm :: byte where "DMA_CH_ENABLE_bm = 0x80"
definition DMA_CH_REPEAT_bm :: byte where "DMA_CH_REPEAT_bm = 0x20"
definition DMA_CH_SINGLE_bm :: byte where "DMA_CH_SINGLE_bm = 0x04"
definition DMA_CH_BURSTLEN_1BYTE_gc :: byte where "DMA_CH_BURSTLEN_1BYTE_gc = 0x00"
definition DMA_CH_BURSTLEN_2BYTE_gc :: byte where "DMA_CH_BURSTLEN_2BYTE_gc = 0x01"
definition DMA_CH_SRCRELOAD_BURST_gc :: byte where "DMA_CH_SRCRELOAD_BURST_gc = 0x80"
definition DMA_CH_SRCDIR_INC_gc :: byte where "DMA_CH_SRCDIR_INC_gc = 0x10"
definition DMA_CH_DESTRELOAD_BURST_gc :: byte where "DMA_CH_DESTRELOAD_BURST_gc = 0x08"
definition DMA_CH_DESTRELOAD_TRANSACTION_gc :: byte where "DMA_CH_DESTRELOAD_TRANSACTION_gc = 0x0C"
definition DMA_CH_DESTDIR_INC_gc :: byte where "DMA_CH_DESTDIR_INC_gc = 0x01"
definition DMA_CH_TRIGSRC_ADCA_CH0_gc :: byte where "DMA_CH_TRIGSRC_ADCA_CH0_gc = 0x10"
definition DMA_CH_TRIGSRC_EVSYS_CH0_gc :: byte where "DMA_CH_TRIGSRC_EVSYS_CH0_gc = 0x01"

text \<open>Register addresses: the result register of the channel (and its low byte), and \<open>TCD0.CTRLA\<close>.\<close>

definition ADCA_CH0_RES_addr :: u16 where "ADCA_CH0_RES_addr = 0x0224"
definition TCD0_CTRLA_addr :: u16 where "TCD0_CTRLA_addr = 0x0900"

lemmas dma_consts =
  DMA_ENABLE_bm_def DMA_RESET_bm_def DMA_DBUFMODE_DISABLED_gc_def DMA_CH_ENABLE_bm_def
  DMA_CH_REPEAT_bm_def DMA_CH_SINGLE_bm_def DMA_CH_BURSTLEN_1BYTE_gc_def
  DMA_CH_BURSTLEN_2BYTE_gc_def DMA_CH_SRCRELOAD_BURST_gc_def DMA_CH_SRCDIR_INC_gc_def
  DMA_CH_DESTRELOAD_BURST_gc_def DMA_CH_DESTRELOAD_TRANSACTION_gc_def DMA_CH_DESTDIR_INC_gc_def
  DMA_CH_TRIGSRC_ADCA_CH0_gc_def DMA_CH_TRIGSRC_EVSYS_CH0_gc_def ADCA_CH0_RES_addr_def
  TCD0_CTRLA_addr_def

definition set_source :: "u16 \<Rightarrow> dma_ch_t \<Rightarrow> dma_ch_t" where
  "set_source a c = c\<lparr>DCH_SRCADDR0 := ucast (a AND 0xFF),
     DCH_SRCADDR1 := ucast (drop_bit 8 a AND 0xFF), DCH_SRCADDR2 := 0\<rparr>"

definition set_dest :: "u16 \<Rightarrow> dma_ch_t \<Rightarrow> dma_ch_t" where
  "set_dest a c = c\<lparr>DCH_DESTADDR0 := ucast (a AND 0xFF),
     DCH_DESTADDR1 := ucast (drop_bit 8 a AND 0xFF), DCH_DESTADDR2 := 0\<rparr>"

partial_function (option) dma_reset_wait :: "fw \<Rightarrow> fw option" where
  "dma_reset_wait s =
     (let s = poll s in
      if DMA_CTRL (dma (hw s)) AND DMA_RESET_bm \<noteq> 0 then dma_reset_wait s else Some s)"

definition dmaadc_init :: "bool \<Rightarrow> fw \<Rightarrow> fw option" where
  "dmaadc_init bits12 s = do {
     let s = upd_dma (DMA_CTRL_update (\<lambda>_. 0)) s;
     let s = upd_dma (DMA_CTRL_update (\<lambda>_. DMA_RESET_bm)) s;
     s \<leftarrow> dma_reset_wait s;
     let s = upd_dma (DMA_CH0_update (DCH_REPCNT_update (\<lambda>_. 1))) s;
     let s = upd_dma (DMA_CTRL_update (\<lambda>_. DMA_ENABLE_bm OR DMA_DBUFMODE_DISABLED_gc)) s;
     let s = upd_dma (DMA_CH0_update (DCH_ADDRCTRL_update (\<lambda>_. DMA_CH_SRCRELOAD_BURST_gc OR
               DMA_CH_SRCDIR_INC_gc OR DMA_CH_DESTRELOAD_TRANSACTION_gc OR DMA_CH_DESTDIR_INC_gc))) s;
     let s = upd_dma (DMA_CH0_update (DCH_TRIGSRC_update (\<lambda>_. DMA_CH_TRIGSRC_ADCA_CH0_gc))) s;
     let s = (if bits12
              then upd_dma (DMA_CH0_update (DCH_CTRLA_update
                     (\<lambda>_. DMA_CH_BURSTLEN_2BYTE_gc OR DMA_CH_SINGLE_bm))) s
              else upd_dma (DMA_CH0_update (DCH_CTRLA_update
                     (\<lambda>_. DMA_CH_BURSTLEN_1BYTE_gc OR DMA_CH_SINGLE_bm))) s);
     Some (upd_dma (DMA_CH0_update (set_source ADCA_CH0_RES_addr)) s)
   }"

partial_function (option) dma_start_wait :: "fw \<Rightarrow> fw option" where
  "dma_start_wait s =
     (let s = poll s in
      if DCH_CTRLA (DMA_CH0 (dma (hw s))) AND DMA_CH_ENABLE_bm = 0 then dma_start_wait s else Some s)"

text \<open>\<open>buf\<close> is the address of the sample buffer. The flag register of the DMA controller is
  written with zero, which clears nothing.\<close>

definition dmaadc_read_buf_ch0 :: "u16 \<Rightarrow> u16 \<Rightarrow> bool \<Rightarrow> fw \<Rightarrow> fw option" where
  "dmaadc_read_buf_ch0 buf len bits12 s = do {
     let s = upd_dma (DMA_CH0_update (DCH_REPCNT_update (\<lambda>_. 1))) s;
     let s = upd_dma (DMA_CH0_update (DCH_TRFCNT_update (\<lambda>_. len))) s;
     let s = upd_dma (DMA_CH0_update (DCH_CTRLA_update (\<lambda>x. x OR DMA_CH_REPEAT_bm))) s;
     let s = upd_dma (DMA_CH0_update (set_dest buf)) s;
     let s = upd_dma (DMA_INTFLAGS_update (write_flags 0)) s;
     let s = upd_dma (DMA_CH0_update (DCH_CTRLA_update (\<lambda>x. x OR DMA_CH_ENABLE_bm))) s;
     let s = upd_CH0 (adc_ch_intlvl ADC_CH_INTLVL_LO_gc) s;
     s \<leftarrow> dma_start_wait (GlobalInterruptDisable s);
     let s = SetGlobalInterruptMask True s;
     Some (upd_CH0 (adc_ch_intlvl ADC_CH_INTLVL_OFF_gc) s)
   }"

subsection \<open>Trigger\<close>

definition PIN2_bm :: byte where "PIN2_bm = 0x04"
definition TC_CLKSEL_DIV4_gc :: byte where "TC_CLKSEL_DIV4_gc = 0x03"
definition TC0_OVFIF_bm :: byte where "TC0_OVFIF_bm = 0x01"
definition PORT_OPC_PULLDOWN_gc :: byte where "PORT_OPC_PULLDOWN_gc = 0x10"
definition PORT_ISC_RISING_gc :: byte where "PORT_ISC_RISING_gc = 0x01"
definition EVSYS_CHMUX_PORTA_PIN2_gc :: byte where "EVSYS_CHMUX_PORTA_PIN2_gc = 0x52"

lemmas trigger_consts =
  PIN2_bm_def TC_CLKSEL_DIV4_gc_def TC0_OVFIF_bm_def PORT_OPC_PULLDOWN_gc_def PORT_ISC_RISING_gc_def
  EVSYS_CHMUX_PORTA_PIN2_gc_def

text \<open>\<open>clkSel\<close> is the address of the static variable with the timer clock selection.\<close>

definition trigger_init :: "u16 \<Rightarrow> fw \<Rightarrow> fw" where
  "trigger_init clkSel s =
    (let s = upd_porta (PORT_OUT_update (\<lambda>x. x AND NOT PIN2_bm)) s;
         s = upd_porta (PORT_PIN2CTRL_update (\<lambda>_. PORT_OPC_PULLDOWN_gc OR PORT_ISC_RISING_gc)) s;
         s = upd_porta (PORT_INTCTRL_update (\<lambda>_. 0)) s;
         s = upd_tcd0 (TC_INTCTRLA_update (\<lambda>_. 0)) s;
         s = upd_sys (EVSYS_CH0MUX_update (\<lambda>_. EVSYS_CHMUX_PORTA_PIN2_gc)) s;
         s = upd_dma (DMA_CH2_update (DCH_TRIGSRC_update (\<lambda>_. 0))) s;
         s = upd_dma (DMA_CH1_update (DCH_REPCNT_update (\<lambda>_. 1))) s;
         s = upd_dma (DMA_CH1_update (DCH_TRFCNT_update (\<lambda>_. 1))) s;
         s = upd_dma (DMA_CH1_update (DCH_ADDRCTRL_update
               (\<lambda>_. DMA_CH_SRCRELOAD_BURST_gc OR DMA_CH_DESTRELOAD_BURST_gc))) s;
         s = upd_dma (DMA_CH1_update (DCH_CTRLA_update
               (\<lambda>_. DMA_CH_BURSTLEN_1BYTE_gc OR DMA_CH_SINGLE_bm))) s;
         s = upd_dma (DMA_CH1_update (set_source clkSel)) s;
         s = upd_dma (DMA_CH1_update (set_dest TCD0_CTRLA_addr)) s
     in upd_dma (DMA_CH1_update (DCH_CTRLA_update (\<lambda>x. x OR DMA_CH_ENABLE_bm))) s)"

text \<open>
  The wait for the trigger counts its own iterations down. The flag register is sampled only
  while the count is positive.
\<close>

function trigger_loop :: "u32 \<Rightarrow> fw \<Rightarrow> u32 \<times> fw" where
  "trigger_loop timeout s =
     (if timeout > 0
      then if PORT_INTFLAGS (porta (hw (poll s))) = 0 then trigger_loop (timeout - 1) (poll s)
           else (timeout, poll s)
      else (timeout, s))"
  by auto
termination
  by (relation "measure (\<lambda>(timeout, _). unat timeout)") (auto simp: measure_unat)

declare trigger_loop.simps [simp del]

partial_function (option) overflow_wait :: "fw \<Rightarrow> fw option" where
  "overflow_wait s =
     (let s = poll s in
      if TC_INTFLAGS (tcd0 (hw s)) AND TC0_OVFIF_bm = 0 then overflow_wait s else Some s)"

definition trigger_wait :: "u32 \<Rightarrow> u16 \<Rightarrow> fw \<Rightarrow> (byte \<times> fw) option" where
  "trigger_wait timeout delay s =
    (let s = upd_tcd0 (TC_CTRLA_update (\<lambda>_. 0)) s;
         s = upd_tcd0 (TC_CNT_update (\<lambda>_. 0)) s;
         s = upd_tcd0 (TC_PER_update (\<lambda>_. delay)) s;
         s = upd_tcd0 (TC_INTFLAGS_update (write_flags 0xFF)) s;
         s = upd_dma (DMA_CH1_update (DCH_REPCNT_update (\<lambda>_. 1))) s;
         s = upd_dma (DMA_CH1_update (DCH_TRFCNT_update (\<lambda>_. 1))) s;
         s = upd_dma (DMA_INTFLAGS_update (write_flags 0)) s;
         s = upd_porta (PORT_INT0MASK_update (\<lambda>_. PIN2_bm)) s;
         s = upd_porta (PORT_INTFLAGS_update (write_flags 0x3)) s;
         s = upd_dma (DMA_CH1_update (DCH_TRIGSRC_update (\<lambda>_. DMA_CH_TRIGSRC_EVSYS_CH0_gc))) s;
         s = upd_dma (DMA_CH1_update (DCH_CTRLA_update
               (\<lambda>x. x OR (DMA_CH_SINGLE_bm OR DMA_CH_ENABLE_bm)))) s;
         (timeout, s) = trigger_loop timeout s;
         s = upd_dma (DMA_CH2_update (DCH_TRIGSRC_update (\<lambda>_. 0))) s
     in if timeout = 0 then Some (1, upd_tcd0 (TC_CTRLA_update (\<lambda>_. 0)) s)
        else do {
          s \<leftarrow> overflow_wait s;
          Some (0, upd_tcd0 (TC_CTRLA_update (\<lambda>_. 0)) s)
        })"

subsection \<open>Glitch timer\<close>

definition TC2_CLKSEL_OFF_gc :: byte where "TC2_CLKSEL_OFF_gc = 0x00"
definition TC2_CLKSEL_DIV1_gc :: byte where "TC2_CLKSEL_DIV1_gc = 0x01"
definition TC2_BYTEM_SPLITMODE_gc :: byte where "TC2_BYTEM_SPLITMODE_gc = 0x02"
definition TC2_LCMPAIF_bm :: byte where "TC2_LCMPAIF_bm = 0x10"

lemmas hires_consts =
  TC2_CLKSEL_OFF_gc_def TC2_CLKSEL_DIV1_gc_def TC2_BYTEM_SPLITMODE_gc_def TC2_LCMPAIF_bm_def

definition hires_init :: "fw \<Rightarrow> fw" where
  "hires_init s =
    (let s = upd_tcc2 (TC2_CTRLA_update (\<lambda>x. x OR TC2_CLKSEL_OFF_gc)) s;
         s = upd_tcc2 (TC2_CTRLB_update (\<lambda>_. 0xFF)) s;
         s = upd_tcc2 (TC2_CTRLE_update (\<lambda>x. x OR TC2_BYTEM_SPLITMODE_gc)) s
     in upd_tcc2 (TC2_CTRLC_update (\<lambda>x. x OR 0x4)) s)"

definition hires_stop_timer :: "fw \<Rightarrow> fw" where
  "hires_stop_timer = upd_tcc2 (TC2_CTRLA_update (\<lambda>_. TC2_CLKSEL_OFF_gc))"

partial_function (option) compare_wait :: "fw \<Rightarrow> fw option" where
  "compare_wait s =
     (let s = poll s in
      if TC2_INTFLAGS (tcc2 (hw s)) AND TC2_LCMPAIF_bm = 0 then compare_wait s else Some s)"

definition hires_glitch :: "fw \<Rightarrow> fw option" where
  "hires_glitch s = do {
     let s = upd_tcc2 (TC2_INTFLAGS_update (write_flags 0)) s;
     let s = upd_tcc2 (TC2_INTFLAGS_update (\<lambda>x. write_flags (x OR TC2_LCMPAIF_bm) x)) s;
     let s = upd_tcc2 (TC2_CTRLA_update (\<lambda>_. TC2_CLKSEL_DIV1_gc)) s;
     s \<leftarrow> compare_wait s;
     Some (hires_stop_timer s)
   }"

definition hires_set_counter :: "byte \<Rightarrow> fw \<Rightarrow> fw" where
  "hires_set_counter counter =
     upd_tcc2 (\<lambda>t. t\<lparr>TC2_LCNT := counter, TC2_HCNT := counter\<rparr>)"

definition hires_set_period :: "byte \<Rightarrow> fw \<Rightarrow> fw" where
  "hires_set_period period =
     upd_tcc2 (\<lambda>t. t\<lparr>TC2_HPER := period, TC2_LPER := period\<rparr>)"

text \<open>The four compare registers A to D of either half.\<close>

definition hires_set_compare :: "byte \<Rightarrow> fw \<Rightarrow> fw" where
  "hires_set_compare compare =
     upd_tcc2 (\<lambda>t. t\<lparr>TC2_LCMP := [compare, compare, compare, compare],
                     TC2_HCMP := [compare, compare, compare, compare]\<rparr>)"

subsection \<open>Debug serial port\<close>

datatype usart_id = USARTC0 | USARTD1
datatype port_id = PORTC | PORTD

fun usart_of :: "usart_id \<Rightarrow> fw \<Rightarrow> usart_t" where
  "usart_of USARTC0 s = usartc0 (hw s)"
| "usart_of USARTD1 s = usartd1 (hw s)"

fun upd_usart :: "usart_id \<Rightarrow> (usart_t \<Rightarrow> usart_t) \<Rightarrow> fw \<Rightarrow> fw" where
  "upd_usart USARTC0 f s = hw_update (usartc0_update f) s"
| "upd_usart USARTD1 f s = hw_update (usartd1_update f) s"

fun upd_port :: "port_id \<Rightarrow> (port_t \<Rightarrow> port_t) \<Rightarrow> fw \<Rightarrow> fw" where
  "upd_port PORTC f s = hw_update (portc_update f) s"
| "upd_port PORTD f s = hw_update (portd_update f) s"

record USART_CTX_t =
  ctx_usart :: usart_id
  ctx_port :: port_id
  RX_PIN_bm :: byte
  TX_PIN_bm :: byte

definition usart_c0_ctx :: USART_CTX_t where
  "usart_c0_ctx = \<lparr>ctx_usart = USARTC0, ctx_port = PORTC, RX_PIN_bm = 0x04, TX_PIN_bm = 0x08\<rparr>"

definition usart_d1_ctx :: USART_CTX_t where
  "usart_d1_ctx = \<lparr>ctx_usart = USARTD1, ctx_port = PORTD, RX_PIN_bm = 0x40, TX_PIN_bm = 0x80\<rparr>"

definition USART_RXCIF_bm :: byte where "USART_RXCIF_bm = 0x80"
definition USART_TXCIF_bm :: byte where "USART_TXCIF_bm = 0x40"
definition USART_DREIF_bm :: byte where "USART_DREIF_bm = 0x20"
definition USART_INTLVL_OFF_gc :: byte where "USART_INTLVL_OFF_gc = 0x00"
definition USART_CLK2X_bm :: byte where "USART_CLK2X_bm = 0x04"
definition USART_CHSIZE0_bm :: byte where "USART_CHSIZE0_bm = 0x01"
definition USART_CHSIZE1_bm :: byte where "USART_CHSIZE1_bm = 0x02"
definition USART_RXEN_bm :: byte where "USART_RXEN_bm = 0x10"
definition USART_TXEN_bm :: byte where "USART_TXEN_bm = 0x08"

lemmas usart_consts =
  USART_RXCIF_bm_def USART_TXCIF_bm_def USART_DREIF_bm_def USART_INTLVL_OFF_gc_def
  USART_CLK2X_bm_def USART_CHSIZE0_bm_def USART_CHSIZE1_bm_def USART_RXEN_bm_def USART_TXEN_bm_def

definition usart_init :: "USART_CTX_t \<Rightarrow> fw \<Rightarrow> fw" where
  "usart_init ctx s =
    (let p = ctx_port ctx; u = ctx_usart ctx;
         s = upd_port p (PORT_OUT_update (\<lambda>x. x OR TX_PIN_bm ctx)) s;
         s = upd_port p (PORT_DIR_update (\<lambda>x. x OR TX_PIN_bm ctx)) s;
         s = upd_port p (PORT_OUT_update (\<lambda>x. x AND NOT (RX_PIN_bm ctx))) s;
         s = upd_port p (PORT_DIR_update (\<lambda>x. x AND NOT (RX_PIN_bm ctx))) s;
         s = upd_usart u (USART_CTRLA_update (\<lambda>x. x AND NOT USART_INTLVL_OFF_gc)) s;
         s = upd_usart u (USART_CTRLA_update (\<lambda>x. x AND NOT USART_INTLVL_OFF_gc)) s;
         s = upd_usart u (USART_CTRLA_update (\<lambda>x. x AND NOT USART_INTLVL_OFF_gc)) s;
         s = upd_usart u (USART_CTRLB_update (\<lambda>_. USART_CLK2X_bm)) s;
         s = upd_usart u (USART_CTRLC_update (\<lambda>_. USART_CHSIZE0_bm + USART_CHSIZE1_bm)) s;
         s = upd_usart u (USART_BAUDCTRLA_update (\<lambda>_. 34 AND 0xFF)) s
     in upd_usart u (USART_CTRLB_update (\<lambda>x. x OR (USART_RXEN_bm OR USART_TXEN_bm))) s)"

partial_function (option) usart_dre_wait :: "usart_id \<Rightarrow> fw \<Rightarrow> fw option" where
  "usart_dre_wait u s =
     (let s = poll s in
      if USART_STATUS (usart_of u s) AND USART_DREIF_bm = 0 then usart_dre_wait u s else Some s)"

partial_function (option) usart_txc_wait :: "usart_id \<Rightarrow> fw \<Rightarrow> fw option" where
  "usart_txc_wait u s =
     (let s = poll s in
      if USART_STATUS (usart_of u s) AND USART_TXCIF_bm = 1 then usart_txc_wait u s else Some s)"

partial_function (option) usart_rxc_wait :: "usart_id \<Rightarrow> fw \<Rightarrow> fw option" where
  "usart_rxc_wait u s =
     (let s = poll s in
      if USART_STATUS (usart_of u s) AND USART_RXCIF_bm = 0 then usart_rxc_wait u s else Some s)"

definition usart_put_char :: "USART_CTX_t \<Rightarrow> byte \<Rightarrow> fw \<Rightarrow> fw option" where
  "usart_put_char ctx c s = do {
     s \<leftarrow> usart_dre_wait (ctx_usart ctx) s;
     let s = upd_usart (ctx_usart ctx) (USART_TX_update (\<lambda>l. l @ [c])) s;
     usart_txc_wait (ctx_usart ctx) s
   }"

fun usart_put_string_P_internal :: "USART_CTX_t \<Rightarrow> byte list \<Rightarrow> fw \<Rightarrow> fw option" where
  "usart_put_string_P_internal ctx [] s = Some (raise_fault s)"
| "usart_put_string_P_internal ctx (c # cs) s =
     (if c = 0 then Some s
      else do { s \<leftarrow> usart_put_char ctx c s; usart_put_string_P_internal ctx cs s })"

text \<open>
  Reading the data register takes the oldest byte out of the receive buffer; the receive
  complete flag is set while there is one.
\<close>

definition usart_read_DATA :: "usart_id \<Rightarrow> fw \<Rightarrow> byte \<times> fw" where
  "usart_read_DATA u s = (case USART_RX (usart_of u s) of
     [] \<Rightarrow> (0, s)
   | b # bs \<Rightarrow> (b, upd_usart u (\<lambda>d. d\<lparr>USART_RX := bs, USART_STATUS :=
       (if bs = [] then USART_STATUS d AND NOT USART_RXCIF_bm else USART_STATUS d)\<rparr>) s))"

definition usart_get_char :: "USART_CTX_t \<Rightarrow> fw \<Rightarrow> (byte \<times> fw) option" where
  "usart_get_char ctx s = do {
     s \<leftarrow> usart_rxc_wait (ctx_usart ctx) s;
     Some (usart_read_DATA (ctx_usart ctx) s)
   }"

definition usart_get_short :: "USART_CTX_t \<Rightarrow> fw \<Rightarrow> (u16 \<times> fw) option" where
  "usart_get_short ctx s = do {
     (hi, s) \<leftarrow> usart_get_char ctx s;
     (lo, s) \<leftarrow> usart_get_char ctx s;
     Some (push_bit 8 (ucast hi) OR ucast lo, s)
   }"

definition usart_get_long :: "USART_CTX_t \<Rightarrow> fw \<Rightarrow> (u32 \<times> fw) option" where
  "usart_get_long ctx s = do {
     (hi, s) \<leftarrow> usart_get_short ctx s;
     (lo, s) \<leftarrow> usart_get_short ctx s;
     Some (push_bit 16 (ucast hi) OR ucast lo, s)
   }"

text \<open>\<open>for\<close> loop over an array; an index beyond it is a fault.\<close>

primrec usart_put_buf_loop :: "nat \<Rightarrow> nat \<Rightarrow> USART_CTX_t \<Rightarrow> byte list \<Rightarrow> fw \<Rightarrow> fw option" where
  "usart_put_buf_loop 0 i ctx buf s = Some s"
| "usart_put_buf_loop (Suc n) i ctx buf s =
     (case array_load buf i of
        None \<Rightarrow> Some (raise_fault s)
      | Some b \<Rightarrow> do { s \<leftarrow> usart_put_char ctx b s; usart_put_buf_loop n (Suc i) ctx buf s })"

definition usart_put_buf :: "USART_CTX_t \<Rightarrow> byte list \<Rightarrow> u16 \<Rightarrow> fw \<Rightarrow> fw option" where
  "usart_put_buf ctx buf len s = usart_put_buf_loop (unat len) 0 ctx buf s"

end
