(* ===== verification/Scope.thy ===== *)
theory Scope
  imports UsbSerial Analog
begin

text \<open>
  The oscilloscope program (\<open>HorrorScope.c\<close>): the start-up sequence and the command loop.
  The local variables of \<open>main\<close> are the record \<open>scope_vars\<close>. The addresses the linker
  assigns to the sample buffer and to the clock selection byte are parameters.
\<close>

unbundle bit_operations_syntax

subsection \<open>Constants\<close>

definition OSC_RC32MEN_bm :: byte where "OSC_RC32MEN_bm = 0x02"
definition OSC_XOSCEN_bm :: byte where "OSC_XOSCEN_bm = 0x08"
definition OSC_RC32MRDY_bm :: byte where "OSC_RC32MRDY_bm = 0x02"
definition OSC_PLLEN_bm :: byte where "OSC_PLLEN_bm = 0x10"
definition OSC_PLLRDY_bm :: byte where "OSC_PLLRDY_bm = 0x10"
definition OSC_RC32MCREF_USBSOF_gc :: byte where "OSC_RC32MCREF_USBSOF_gc = 0x04"
definition OSC_PLLSRC_RC32M_gc :: byte where "OSC_PLLSRC_RC32M_gc = 0x80"
definition CLK_SCLKSEL_RC32M_gc :: byte where "CLK_SCLKSEL_RC32M_gc = 0x01"
definition CLK_PSADIV0_bm :: byte where "CLK_PSADIV0_bm = 0x04"
definition DFLL_ENABLE_bm :: byte where "DFLL_ENABLE_bm = 0x01"
definition PMIC_HILVLEN_bm :: byte where "PMIC_HILVLEN_bm = 0x04"
definition PMIC_MEDLVLEN_bm :: byte where "PMIC_MEDLVLEN_bm = 0x02"
definition SLEEP_SMODE_gm :: byte where "SLEEP_SMODE_gm = 0x0E"
definition SLEEP_MODE_IDLE :: byte where "SLEEP_MODE_IDLE = 0x00"
definition PR_AES_bm :: byte where "PR_AES_bm = 0x10"
definition PR_EBI_bm :: byte where "PR_EBI_bm = 0x08"
definition PR_RTC_bm :: byte where "PR_RTC_bm = 0x04"
definition PR_DAC_bm :: byte where "PR_DAC_bm = 0x04"
definition PR_ADC_bm :: byte where "PR_ADC_bm = 0x02"
definition PR_AC_bm :: byte where "PR_AC_bm = 0x01"
definition PR_TWI_bm :: byte where "PR_TWI_bm = 0x40"
definition PR_USART1_bm :: byte where "PR_USART1_bm = 0x20"
definition PR_USART0_bm :: byte where "PR_USART0_bm = 0x10"
definition PR_SPI_bm :: byte where "PR_SPI_bm = 0x08"
definition PR_TC1_bm :: byte where "PR_TC1_bm = 0x02"
definition PR_TC0_bm :: byte where "PR_TC0_bm = 0x01"

text \<open>The size of the sample buffer, \<open>1024 * 3 + 512\<close>.\<close>

definition SCOPE_SIZE :: nat where "SCOPE_SIZE = 1024 * 3 + 512"

definition ch :: "char \<Rightarrow> byte" where "ch c = of_char c"

definition crlf :: string where "crlf = [CHR 0x0D, CHR 0x0A]"

definition cstring :: "string \<Rightarrow> byte list" where "cstring str = map ch str @ [0]"

subsection \<open>State\<close>

record scope_vars =
  timeout :: u32
  delay :: u16
  numberOfSamples :: u16
  glitch_length :: byte
  bits12 :: bool
  pulses :: byte

record linker =
  scopeBuf_addr :: u16
  clkSel_addr :: u16

definition scope_vars_init :: scope_vars where
  "scope_vars_init = \<lparr>timeout = 40000, delay = 0, numberOfSamples = of_nat SCOPE_SIZE,
     glitch_length = 0, bits12 = True, pulses = 1\<rparr>"

definition fill_scopeBuf :: "byte \<Rightarrow> fw \<Rightarrow> fw" where
  "fill_scopeBuf v = hw_update (scopeBuf_update (\<lambda>_. replicate SCOPE_SIZE v))"

subsection \<open>Start-up\<close>

partial_function (option) osc_wait :: "byte \<Rightarrow> fw \<Rightarrow> fw option" where
  "osc_wait rdy s =
     (let s = poll s in
      if OSC_STATUS (sys (hw s)) AND rdy = 0 then osc_wait rdy s else Some s)"

definition clock_init :: "fw \<Rightarrow> fw option" where
  "clock_init s = do {
     let s = upd_sys (OSC_CTRL_update (\<lambda>x. x OR (OSC_RC32MEN_bm OR OSC_XOSCEN_bm))) s;
     s \<leftarrow> osc_wait OSC_RC32MRDY_bm s;
     let s = upd_sys (CLK_CTRL_update (\<lambda>_. CLK_SCLKSEL_RC32M_gc)) s;
     let s = upd_sys (OSC_DFLLCTRL_update (\<lambda>x. x OR OSC_RC32MCREF_USBSOF_gc)) s;
     let s = upd_sys (DFLLRC2M_CTRL_update (\<lambda>x. x OR DFLL_ENABLE_bm)) s;
     let s = upd_sys (DFLLRC32M_CTRL_update (\<lambda>x. x OR DFLL_ENABLE_bm)) s;
     let s = upd_sys (OSC_PLLCTRL_update (\<lambda>_. OSC_PLLSRC_RC32M_gc OR 6)) s;
     let s = upd_sys (OSC_CTRL_update (\<lambda>x. x OR OSC_PLLEN_bm)) s;
     s \<leftarrow> osc_wait OSC_PLLRDY_bm s;
     let s = upd_sys (OSC_CTRL_update (\<lambda>x. x OR (OSC_PLLEN_bm OR OSC_RC32MEN_bm))) s;
     s \<leftarrow> osc_wait OSC_PLLRDY_bm s;
     Some (upd_sys (CLK_PSCTRL_update (\<lambda>_. CLK_PSADIV0_bm)) s)
   }"

definition power_reduction :: "fw \<Rightarrow> fw" where
  "power_reduction = upd_sys (\<lambda>r. r\<lparr>
     PR_PRGEN := PR_PRGEN r OR (PR_AES_bm OR PR_EBI_bm OR PR_RTC_bm),
     PR_PRPA := PR_PRPA r OR (PR_DAC_bm OR PR_AC_bm),
     PR_PRPB := PR_PRPB r OR (PR_DAC_bm OR PR_AC_bm OR PR_ADC_bm),
     PR_PRPC := PR_PRPC r OR (PR_TWI_bm OR PR_SPI_bm),
     PR_PRPD := PR_PRPD r OR (PR_TWI_bm OR PR_SPI_bm),
     PR_PRPE := PR_PRPE r OR (PR_TWI_bm OR PR_SPI_bm OR PR_USART0_bm OR PR_USART1_bm OR PR_TC0_bm OR PR_TC1_bm),
     PR_PRPF := PR_PRPF r OR (PR_TWI_bm OR PR_SPI_bm OR PR_USART0_bm OR PR_USART1_bm OR PR_TC0_bm OR PR_TC1_bm)\<rparr>)"

definition scope_init :: "linker \<Rightarrow> fw \<Rightarrow> (scope_vars \<times> fw) option" where
  "scope_init lk s = do {
     let v = scope_vars_init;
     let s = fill_scopeBuf (ch CHR ''U'') s;
     s \<leftarrow> clock_init s;
     let s = upd_sys (PMIC_CTRL_update (\<lambda>x. x OR (PMIC_HILVLEN_bm OR PMIC_MEDLVLEN_bm))) s;
     let s = SetGlobalInterruptMask True s;
     let s = upd_sys (SLEEP_CTRL_update (\<lambda>x. (x AND NOT SLEEP_SMODE_gm) OR SLEEP_MODE_IDLE)) s;
     let s = usart_init usart_c0_ctx s;
     let s = adc_init (bits12 v) s;
     s \<leftarrow> dmaadc_init (bits12 v) s;
     let s = trigger_init (clkSel_addr lk) s;
     let s = upd_port PORTC (PORT_DIR_update (\<lambda>x. x OR 0xFF)) s;
     let s = upd_port PORTC (PORT_OUT_update (\<lambda>_. 0xFF)) s;
     let s = upd_tcc2 (TC2_CTRLC_update (\<lambda>_. 0xFF)) s;
     let s = USB_serial_init s;
     let s = hires_init s;
     let s = hires_set_period 0xFF s;
     s \<leftarrow> usart_put_string_P_internal usart_c0_ctx (cstring (''Welcome to the HorrorScope'' @ crlf)) s;
     Some (v, power_reduction s)
   }"

subsection \<open>Commands\<close>

definition put :: "char \<Rightarrow> fw \<Rightarrow> fw option" where
  "put c s = USB_serial_put_char (ch c) s"

definition reply :: "char \<Rightarrow> scope_vars \<Rightarrow> fw \<Rightarrow> (scope_vars \<times> fw) option" where
  "reply c v s = do { s \<leftarrow> put c s; Some (v, s) }"

definition cmd_dma_arm :: "linker \<Rightarrow> scope_vars \<Rightarrow> fw \<Rightarrow> (scope_vars \<times> fw) option" where
  "cmd_dma_arm lk v s = do {
     s \<leftarrow> put CHR ''r'' (fill_scopeBuf 0 s);
     (timedOut, s) \<leftarrow> trigger_wait (timeout v) (delay v) s;
     s \<leftarrow> dmaadc_read_buf_ch0 (scopeBuf_addr lk) (numberOfSamples v) (bits12 v) s;
     reply (if timedOut \<noteq> 0 then CHR ''e'' else CHR ''d'') v s
   }"

definition cmd_sample_fetch :: "scope_vars \<Rightarrow> fw \<Rightarrow> (scope_vars \<times> fw) option" where
  "cmd_sample_fetch v s = do {
     s \<leftarrow> USB_serial_put_buf (ScopeBuf 0) (numberOfSamples v) s;
     Some (v, s)
   }"

definition cmd_samples :: "scope_vars \<Rightarrow> fw \<Rightarrow> (scope_vars \<times> fw) option" where
  "cmd_samples v s = do {
     (temp, s) \<leftarrow> USB_serial_get_short s;
     if unat temp > SCOPE_SIZE
     then do {
       s \<leftarrow> USB_serial_put_string_P_internal (cstring (''Buffer too big'' @ crlf)) s;
       Some (v, s)
     }
     else reply CHR ''d'' (v\<lparr>numberOfSamples := temp\<rparr>) s
   }"

definition cmd_gain :: "scope_vars \<Rightarrow> fw \<Rightarrow> (scope_vars \<times> fw) option" where
  "cmd_gain v s = do {
     (g, s) \<leftarrow> USB_serial_get_char s;
     reply CHR ''d'' v (upd_CH0 (adc_ch_gain (push_bit 2 g)) s)
   }"

definition cmd_clock :: "scope_vars \<Rightarrow> fw \<Rightarrow> (scope_vars \<times> fw) option" where
  "cmd_clock v s = do {
     (c, s) \<leftarrow> USB_serial_get_char s;
     reply CHR ''d'' v (adc_prescaler (c AND 0x7) s)
   }"

definition cmd_bias :: "scope_vars \<Rightarrow> fw \<Rightarrow> (scope_vars \<times> fw) option" where
  "cmd_bias v s = do {
     (c, s) \<leftarrow> USB_serial_get_short s;
     reply CHR ''d'' v (adc_calibrate c s)
   }"

definition cmd_fault :: "scope_vars \<Rightarrow> fw \<Rightarrow> (scope_vars \<times> fw) option" where
  "cmd_fault v s = do {
     s \<leftarrow> put CHR ''r'' s;
     (timedOut, s) \<leftarrow> trigger_wait (timeout v) (delay v) s;
     reply (if timedOut \<noteq> 0 then CHR ''d'' else CHR ''e'') v s
   }"

definition cmd_bits :: "linker \<Rightarrow> scope_vars \<Rightarrow> fw \<Rightarrow> (scope_vars \<times> fw) option" where
  "cmd_bits lk v s = do {
     (b, s) \<leftarrow> USB_serial_get_char s;
     let v = v\<lparr>bits12 := (b AND 1 \<noteq> 0)\<rparr>;
     s \<leftarrow> dmaadc_init (bits12 v) s;
     reply CHR ''d'' v (trigger_init (clkSel_addr lk) s)
   }"

primrec glitch_loop :: "nat \<Rightarrow> fw \<Rightarrow> fw option" where
  "glitch_loop 0 s = Some s"
| "glitch_loop (Suc n) s = do { s \<leftarrow> hires_glitch (hires_set_counter 0x00 s); glitch_loop n s }"

definition cmd_hires :: "scope_vars \<Rightarrow> fw \<Rightarrow> (scope_vars \<times> fw) option" where
  "cmd_hires v s = do {
     let s = hires_set_counter 0x00 s;
     let s = hires_set_compare (0xFF - glitch_length v) s;
     s \<leftarrow> put CHR ''r'' s;
     (timedOut, s) \<leftarrow> trigger_wait (timeout v) (delay v) s;
     s \<leftarrow> glitch_loop (unat (pulses v)) s;
     reply (if timedOut \<noteq> 0 then CHR ''e'' else CHR ''d'') v s
   }"

definition cmd_delay :: "scope_vars \<Rightarrow> fw \<Rightarrow> (scope_vars \<times> fw) option" where
  "cmd_delay v s = do {
     (d, s) \<leftarrow> USB_serial_get_short s;
     reply CHR ''d'' (v\<lparr>delay := d\<rparr>) s
   }"

definition cmd_length :: "scope_vars \<Rightarrow> fw \<Rightarrow> (scope_vars \<times> fw) option" where
  "cmd_length v s = do {
     (d, s) \<leftarrow> USB_serial_get_short s;
     reply CHR ''d'' (v\<lparr>glitch_length := ucast d\<rparr>) s
   }"

definition cmd_timeout :: "scope_vars \<Rightarrow> fw \<Rightarrow> (scope_vars \<times> fw) option" where
  "cmd_timeout v s = do {
     (d, s) \<leftarrow> USB_serial_get_short s;
     reply CHR ''d'' (v\<lparr>timeout := ucast d\<rparr>) s
   }"

definition cmd_pulses :: "scope_vars \<Rightarrow> fw \<Rightarrow> (scope_vars \<times> fw) option" where
  "cmd_pulses v s = do {
     (p, s) \<leftarrow> USB_serial_get_char s;
     reply CHR ''d'' (v\<lparr>pulses := p\<rparr>) s
   }"

definition cmd_off :: "scope_vars \<Rightarrow> fw \<Rightarrow> (scope_vars \<times> fw) option" where
  "cmd_off v s =
    (let s = upd_port PORTC (PORT_OUT_update (\<lambda>x. x AND NOT 0xFF)) s;
         s = upd_tcc2 (TC2_CTRLC_update (\<lambda>_. 0x00)) s
     in reply CHR ''d'' v s)"

definition cmd_on :: "scope_vars \<Rightarrow> fw \<Rightarrow> (scope_vars \<times> fw) option" where
  "cmd_on v s =
    (let s = upd_port PORTC (PORT_OUT_update (\<lambda>x. x OR 0xFF)) s;
         s = upd_tcc2 (TC2_CTRLC_update (\<lambda>_. 0xFF)) s
     in reply CHR ''d'' v s)"

definition cmd_invalid :: "byte \<Rightarrow> scope_vars \<Rightarrow> fw \<Rightarrow> (scope_vars \<times> fw) option" where
  "cmd_invalid command v s = do {
     s \<leftarrow> USB_serial_put_string_P_internal (cstring ''Invalid command:'') s;
     s \<leftarrow> USB_serial_put_char command s;
     s \<leftarrow> USB_serial_put_string_P_internal (cstring crlf) s;
     Some (v, s)
   }"

text \<open>The switch statement.\<close>

definition scope_dispatch ::
  "linker \<Rightarrow> byte \<Rightarrow> scope_vars \<Rightarrow> fw \<Rightarrow> (scope_vars \<times> fw) option" where
  "scope_dispatch lk command v s =
     (if command = ch CHR ''T'' \<or> command = ch CHR ''t'' then reply CHR ''T'' v s
      else if command = ch CHR ''d'' then cmd_dma_arm lk v s
      else if command = ch CHR ''s'' then cmd_sample_fetch v s
      else if command = ch CHR ''n'' then cmd_samples v s
      else if command = ch CHR ''g'' then cmd_gain v s
      else if command = ch CHR ''c'' then cmd_clock v s
      else if command = ch CHR ''b'' then cmd_bias v s
      else if command = ch CHR ''f'' then cmd_fault v s
      else if command = ch CHR ''8'' then cmd_bits lk v s
      else if command = ch CHR ''h'' then cmd_hires v s
      else if command = ch CHR ''w'' then cmd_delay v s
      else if command = ch CHR ''l'' then cmd_length v s
      else if command = ch CHR ''e'' then cmd_timeout v s
      else if command = ch CHR ''p'' then cmd_pulses v s
      else if command = ch CHR ''x'' then cmd_off v s
      else if command = ch CHR ''y'' then cmd_on v s
      else cmd_invalid command v s)"

text \<open>One turn of the command loop, and the states the loop reaches.\<close>

definition scope_step :: "linker \<Rightarrow> scope_vars \<Rightarrow> fw \<Rightarrow> (scope_vars \<times> fw) option" where
  "scope_step lk v s = do {
     (command, s) \<leftarrow> USB_serial_get_char s;
     scope_dispatch lk command v s
   }"

inductive scope_reach :: "linker \<Rightarrow> fw \<Rightarrow> scope_vars \<times> fw \<Rightarrow> bool" for lk s0 where
  start: "scope_init lk s0 = Some vs \<Longrightarrow> scope_reach lk s0 vs"
| turn: "scope_reach lk s0 (v, s) \<Longrightarrow> scope_step lk v s = Some vs \<Longrightarrow> scope_reach lk s0 vs"

end
