(* ===== verification/UsbInvariant.thy ===== *)
theory UsbInvariant
  imports UsbSerial Scope
begin

text \<open>
  The invariant of the USB stack and the operations that touch a single endpoint: the endpoint
  table, the FIFO records, the selected endpoint and the receive buffer stay consistent under
  every asynchronous hardware step, under the bus event interrupt, under the status queries
  and under the handshakes of the endpoint driver.
\<close>

unbundle bit_operations_syntax

subsection \<open>The invariant\<close>

text \<open>
  The flags of the endpoint table the stack relies on: a SETUP packet waits on the control
  endpoint, a packet of \<open>rx_count\<close> bytes waits on the serial data endpoint.
\<close>

definition setup_flag :: "xmega \<Rightarrow> bool" where
  "setup_flag x \<longleftrightarrow> EP_STATUS (eptable x (EpOUT 0)) AND USB_EP_SETUP_bm \<noteq> 0"

definition rx_complete :: "xmega \<Rightarrow> bool" where
  "rx_complete x \<longleftrightarrow> EP_STATUS (eptable x (EpOUT 4)) AND USB_EP_TRNCOMPL0_bm \<noteq> 0"

definition rx_count :: "xmega \<Rightarrow> u16" where
  "rx_count x = EP_CNT (eptable x (EpOUT 4))"

text \<open>
  What the USB controller guarantees in one asynchronous step: it leaves the registers and the
  memory layout the firmware set up, it does not take a completed SETUP or data packet back,
  and it never reports more than the 64 bytes the data endpoint was configured for.
\<close>

definition hw_ok :: "(xmega \<Rightarrow> xmega) \<Rightarrow> bool" where
  "hw_ok h \<longleftrightarrow> (\<forall>x.
     USB_EPPTR (usb (h x)) = USB_EPPTR (usb x) \<and>
     USB_INTCTRLA (usb (h x)) = USB_INTCTRLA (usb x) \<and>
     (\<forall>b. length (ram (h x) b) = length (ram x b)) \<and>
     length (scopeBuf (h x)) = length (scopeBuf x) \<and>
     (setup_flag x \<longrightarrow> setup_flag (h x)) \<and>
     (rx_complete x \<longrightarrow> rx_complete (h x) \<and> rx_count (h x) = rx_count x) \<and>
     (rx_count (h x) \<le> 64 \<or> rx_count (h x) = rx_count x))"

text \<open>
  The sizes of the packet buffers declared in \<open>usb_serial.c\<close>, and the state the stack keeps.
\<close>

fun ram_size :: "ram_obj \<Rightarrow> nat" where
  "ram_size Notification_fifo = 8"
| "ram_size Notification_fifo2 = 8"
| "ram_size In_fifo = 64"
| "ram_size Out_fifo = 64"

definition hw_inv :: "xmega \<Rightarrow> bool" where
  "hw_inv x \<longleftrightarrow> USB_EPPTR (usb x) \<and> (\<forall>b. length (ram x b) = ram_size b) \<and>
     length (scopeBuf x) = SCOPE_SIZE \<and> rx_count x \<le> 64"

definition fifo_inv :: "(epref \<Rightarrow> Endpoint_FIFO_t) \<Rightarrow> bool" where
  "fifo_inv F \<longleftrightarrow>
     Data (F (EpIN 0)) = Some Notification_fifo \<and> Data (F (EpOUT 0)) = Some Notification_fifo2 \<and>
     Data (F (EpIN 3)) = Some In_fifo \<and> Data (F (EpOUT 4)) = Some Out_fifo \<and>
     Length (F (EpIN 0)) \<le> 8 \<and> Length (F (EpIN 3)) \<le> 64"

definition rx_inv :: "xmega \<Rightarrow> byte \<Rightarrow> bool" where
  "rx_inv x pos \<longleftrightarrow> (rx_complete x \<longrightarrow> unat pos \<le> unat (rx_count x)) \<and> (\<not> rx_complete x \<longrightarrow> pos = 0)"

definition sel_inv :: "fw \<Rightarrow> bool" where
  "sel_inv s \<longleftrightarrow> SelectedHandle s = Some (ep_of (SelectedEndpoint s)) \<and>
     SelectedFIFO s = Some (ep_of (SelectedEndpoint s))"

definition cdc_inv :: "USB_ClassInfo_CDC_Device_t \<Rightarrow> bool" where
  "cdc_inv c \<longleftrightarrow> Address (DataINEndpoint c) = 0x83 \<and> Size (DataINEndpoint c) = 64 \<and>
     Address (DataOUTEndpoint c) = 0x04 \<and> Size (DataOUTEndpoint c) = 64 \<and>
     Address (NotificationEndpoint c) = 0x82 \<and> Size (NotificationEndpoint c) = 8"

text \<open>
  The invariant of the running stack: no access has left its buffer, every selected endpoint
  handle is the one of the selected number, a half-read packet is read only up to its count.
\<close>

definition usb_inv :: "fw \<Rightarrow> bool" where
  "usb_inv s \<longleftrightarrow> \<not> fault s \<and> list_all hw_ok (sched s) \<and> hw_inv (hw s) \<and> fifo_inv (FIFOs s) \<and>
     rx_inv (hw s) (Position (FIFOs s (EpOUT 4))) \<and> sel_inv s \<and> cdc_inv (CDC s) \<and>
     rb_invar (USBtoUSART_Buffer s)"

lemma usb_invI:
  "\<not> fault s \<Longrightarrow> list_all hw_ok (sched s) \<Longrightarrow> hw_inv (hw s) \<Longrightarrow> fifo_inv (FIFOs s) \<Longrightarrow>
   rx_inv (hw s) (Position (FIFOs s (EpOUT 4))) \<Longrightarrow> sel_inv s \<Longrightarrow> cdc_inv (CDC s) \<Longrightarrow>
   rb_invar (USBtoUSART_Buffer s) \<Longrightarrow> usb_inv s"
  by (simp add: usb_inv_def)

lemma usb_invD:
  assumes "usb_inv s"
  shows "\<not> fault s" "list_all hw_ok (sched s)" "hw_inv (hw s)" "fifo_inv (FIFOs s)"
    "rx_inv (hw s) (Position (FIFOs s (EpOUT 4)))" "sel_inv s" "cdc_inv (CDC s)"
    "rb_invar (USBtoUSART_Buffer s)" "SelectedHandle s = Some (ep_of (SelectedEndpoint s))"
    "SelectedFIFO s = Some (ep_of (SelectedEndpoint s))" "USB_EPPTR (usb (hw s))"
    "Address (DataINEndpoint (CDC s)) = 0x83" "Address (DataOUTEndpoint (CDC s)) = 0x04"
  using assms by (simp_all add: usb_inv_def sel_inv_def hw_inv_def cdc_inv_def)

subsection \<open>Updates\<close>

lemma select_inv [simp]: "usb_inv s \<Longrightarrow> usb_inv (Endpoint_SelectEndpoint a s)"
  by (auto simp: usb_inv_def sel_inv_def Endpoint_SelectEndpoint_def hw_inv_def)

lemma select_fields [simp]:
  "SelectedEndpoint (Endpoint_SelectEndpoint a s) = a" "FIFOs (Endpoint_SelectEndpoint a s) = FIFOs s"
  "hw (Endpoint_SelectEndpoint a s) = hw s" "sched (Endpoint_SelectEndpoint a s) = sched s"
  "DeviceState (Endpoint_SelectEndpoint a s) = DeviceState s" "CDC (Endpoint_SelectEndpoint a s) = CDC s"
  "ControlRequest (Endpoint_SelectEndpoint a s) = ControlRequest s"
  "SelectedFIFO (Endpoint_SelectEndpoint a s) = Some (ep_of a)" "ok_to_send (Endpoint_SelectEndpoint a s) = ok_to_send s"
  "sent (Endpoint_SelectEndpoint a s) = sent s"
  by (simp_all add: Endpoint_SelectEndpoint_def)

lemma handle_inv:
  assumes "usb_inv s" "ep_of (SelectedEndpoint s) \<noteq> EpOUT 4"
  shows "usb_inv (upd_Handle f s)"
  using assms
  by (auto simp: usb_inv_def sel_inv_def upd_Handle_def hw_inv_def rx_inv_def rx_complete_def rx_count_def)

lemma handle_fields:
  assumes "usb_inv s"
  shows "SelectedEndpoint (upd_Handle f s) = SelectedEndpoint s" "FIFOs (upd_Handle f s) = FIFOs s"
    "DeviceState (upd_Handle f s) = DeviceState s" "ControlRequest (upd_Handle f s) = ControlRequest s"
    "CDC (upd_Handle f s) = CDC s" "SelectedFIFO (upd_Handle f s) = SelectedFIFO s"
    "ok_to_send (upd_Handle f s) = ok_to_send s" "sent (upd_Handle f s) = sent s"
  using usb_invD(9) [OF assms] by (simp_all add: upd_Handle_def)


subsection \<open>Asynchronous activity\<close>

text \<open>
  Between two instructions of the main program a hardware step and then the interrupt handler
  may run. Either nothing the main program uses has changed, or the bus was reset.
\<close>

definition undisturbed :: "fw \<Rightarrow> fw \<Rightarrow> bool" where
  "undisturbed s s' \<longleftrightarrow> FIFOs s' = FIFOs s \<and> SelectedEndpoint s' = SelectedEndpoint s \<and>
     (setup_flag (hw s) \<longrightarrow> setup_flag (hw s'))"

definition was_reset :: "fw \<Rightarrow> fw \<Rightarrow> bool" where
  "was_reset s s' \<longleftrightarrow> SelectedEndpoint s' = 0 \<and> EP_STATUS (eptable (hw s') (EpOUT 0)) = 0 \<and>
     (\<forall>e. Position (FIFOs s' e) = (if e = EpIN 0 \<or> e = EpOUT 0 then 0 else Position (FIFOs s e)))"

lemma usb_inv_bus_state: "usb_inv (bus_state s) = usb_inv s"
  by (simp add: bus_state_def usb_inv_def hw_inv_def rx_inv_def rx_complete_def rx_count_def sel_inv_def)

lemma undisturbed_bus_state: "bus_state s' = bus_state s \<Longrightarrow> undisturbed s s'"
proof -
  assume eq: "bus_state s' = bus_state s"
  have "FIFOs s' = FIFOs s" using arg_cong [OF eq, of FIFOs] by (simp add: bus_state_def)
  moreover have "SelectedEndpoint s' = SelectedEndpoint s"
    using arg_cong [OF eq, of SelectedEndpoint] by (simp add: bus_state_def)
  moreover have "eptable (hw s') = eptable (hw s)"
    using arg_cong [OF eq, of "\<lambda>s. eptable (hw s)"] by (simp add: bus_state_def)
  ultimately show ?thesis by (simp add: undisturbed_def setup_flag_def)
qed

definition reset_table :: "(epref \<Rightarrow> usb_ep) \<Rightarrow> epref \<Rightarrow> usb_ep" where
  "reset_table t = (\<lambda>e. if (case e of EpOUT n \<Rightarrow> n < 16 | EpIN n \<Rightarrow> n < 16) then (t e)\<lparr>EP_CTRL := 0\<rparr> else t e)"

lemma clear_and_configure:
  "USB_EPPTR (usb (hw a)) \<Longrightarrow> configure_control_endpoint (Endpoint_ClearEndpoints a) =
   control_reset (a\<lparr>hw := (hw a)\<lparr>eptable := reset_table (eptable (hw a))\<rparr>\<rparr>)"
  by (simp add: clear_endpoints_eq configure_control_endpoint_eq reset_table_def)

lemma isr_Reset_eq:
  assumes "USB_EPPTR (usb (hw s))" "USB_INT_HasOccurred USB_INT_BUSEVENTI_Reset s"
  shows "isr_Reset s = control_reset (s\<lparr>DeviceState := DEVICE_STATE_Default, ConfigurationNumber := 0,
     hw := (hw s)\<lparr>usb := (usb (hw s))\<lparr>USB_INTFLAGSA := write_flags USB_RSTIF_bm (USB_INTFLAGSA (usb (hw s))),
                                   USB_ADDR := 0\<rparr>,
       eptable := reset_table (eptable (hw s))\<rparr>\<rparr>)"
proof -
  let ?a = "USB_Device_EnableDeviceAddress 0 ((USB_INT_Clear USB_INT_BUSEVENTI_Reset s)\<lparr>
      DeviceState := DEVICE_STATE_Default, ConfigurationNumber := 0\<rparr>)"
  have p: "USB_EPPTR (usb (hw ?a))" using assms(1) by (simp add: USB_Device_EnableDeviceAddress_def)
  have "isr_Reset s = configure_control_endpoint (Endpoint_ClearEndpoints ?a)"
    using assms(2) by (simp only: isr_Reset_def if_True Let_def USB_Event_Stub_def)
  also have "\<dots> = control_reset (?a\<lparr>hw := (hw ?a)\<lparr>eptable := reset_table (eptable (hw ?a))\<rparr>\<rparr>)"
    by (rule clear_and_configure [OF p])
  also have "?a\<lparr>hw := (hw ?a)\<lparr>eptable := reset_table (eptable (hw ?a))\<rparr>\<rparr> =
    s\<lparr>DeviceState := DEVICE_STATE_Default, ConfigurationNumber := 0,
     hw := (hw s)\<lparr>usb := (usb (hw s))\<lparr>USB_INTFLAGSA := write_flags USB_RSTIF_bm (USB_INTFLAGSA (usb (hw s))),
                                   USB_ADDR := 0\<rparr>,
       eptable := reset_table (eptable (hw s))\<rparr>\<rparr>"
    by (intro fw.equality xmega.equality) (simp_all add: USB_Device_EnableDeviceAddress_def)
  finally show ?thesis .
qed

lemma reset_table_fields [simp]:
  "EP_STATUS (reset_table t e) = EP_STATUS (t e)" "EP_CNT (reset_table t e) = EP_CNT (t e)"
  by (simp_all add: reset_table_def)

lemma control_reset_inv: "usb_inv s \<Longrightarrow> usb_inv (control_reset s)"
  by (simp add: usb_inv_def hw_inv_def fifo_inv_def rx_inv_def rx_complete_def rx_count_def sel_inv_def
        control_reset_def)

lemma control_reset_was_reset: "FIFOs t = FIFOs s \<Longrightarrow> was_reset s (control_reset t)"
  by (simp add: was_reset_def control_reset_def)

lemma isr_Reset_inv:
  assumes "usb_inv s"
  shows "usb_inv (isr_Reset s) \<and> (isr_Reset s = s \<or> was_reset s (isr_Reset s))"
proof (cases "USB_INT_HasOccurred USB_INT_BUSEVENTI_Reset s")
  case True
  define t where "t = s\<lparr>DeviceState := DEVICE_STATE_Default, ConfigurationNumber := 0,
     hw := (hw s)\<lparr>usb := (usb (hw s))\<lparr>USB_INTFLAGSA := write_flags USB_RSTIF_bm (USB_INTFLAGSA (usb (hw s))),
                                   USB_ADDR := 0\<rparr>,
       eptable := reset_table (eptable (hw s))\<rparr>\<rparr>"
  have "usb_inv t"
    using assms
    by (simp add: usb_inv_def hw_inv_def rx_inv_def rx_complete_def rx_count_def sel_inv_def t_def)
  moreover have "FIFOs t = FIFOs s" by (simp add: t_def)
  moreover have "isr_Reset s = control_reset t"
    unfolding t_def by (rule isr_Reset_eq [OF usb_invD(11) [OF assms] True])
  ultimately show ?thesis using control_reset_inv control_reset_was_reset by simp
next
  case False
  then show ?thesis using assms by (simp add: isr_Reset_def)
qed

lemma undisturbed_trans: "undisturbed a b \<Longrightarrow> undisturbed b c \<Longrightarrow> undisturbed a c"
  by (simp add: undisturbed_def)

lemma was_reset_after: "undisturbed a b \<Longrightarrow> was_reset b c \<Longrightarrow> was_reset a c"
  by (simp add: undisturbed_def was_reset_def)

lemma ISR_inv:
  assumes "usb_inv s"
  shows "usb_inv (ISR_USB_BUSEVENT_vect s) \<and>
    (undisturbed s (ISR_USB_BUSEVENT_vect s) \<or> was_reset s (ISR_USB_BUSEVENT_vect s))"
proof -
  let ?s = "isr_Resume (isr_Suspend (isr_SOFI s))"
  have b: "bus_state ?s = bus_state s" by (simp add: isr_frames)
  then have "usb_inv ?s" using assms usb_inv_bus_state by metis
  from isr_Reset_inv [OF this] undisturbed_bus_state [OF b] was_reset_after [of s ?s]
  show ?thesis unfolding ISR_USB_BUSEVENT_vect_def by auto
qed

lemma irq_inv: "usb_inv s \<Longrightarrow> usb_inv (irq s) \<and> (undisturbed s (irq s) \<or> was_reset s (irq s))"
  using ISR_inv [of s] by (simp add: irq_def undisturbed_def)

lemma hw_step_parts:
  assumes "hw_ok h"
  shows "hw_inv x \<Longrightarrow> hw_inv (h x)" "rx_inv x pos \<Longrightarrow> rx_inv (h x) pos" "setup_flag x \<Longrightarrow> setup_flag (h x)"
proof -
  note h = assms [unfolded hw_ok_def, rule_format, of x]
  show "hw_inv x \<Longrightarrow> hw_inv (h x)" using h unfolding hw_inv_def by metis
  show "rx_inv x pos \<Longrightarrow> rx_inv (h x) pos"
    unfolding rx_inv_def using h by (cases "rx_complete x") auto
  show "setup_flag x \<Longrightarrow> setup_flag (h x)" using h by blast
qed

lemma hw_step_inv:
  assumes "usb_inv s" "sched s = h # hs"
  shows "usb_inv (s\<lparr>hw := h (hw s), sched := hs\<rparr>) \<and> undisturbed s (s\<lparr>hw := h (hw s), sched := hs\<rparr>)"
proof -
  have h: "hw_ok h" using assms by (simp add: usb_inv_def)
  show ?thesis
    using assms hw_step_parts [OF h] by (simp add: usb_inv_def sel_inv_def undisturbed_def)
qed

lemma poll_inv: "usb_inv s \<Longrightarrow> usb_inv (poll s) \<and> (undisturbed s (poll s) \<or> was_reset s (poll s))"
proof (cases "sched s")
  case Nil
  assume "usb_inv s"
  then show ?thesis using irq_inv [of s] Nil by (simp add: poll_def)
next
  case (Cons h hs)
  assume "usb_inv s"
  let ?t = "s\<lparr>hw := h (hw s), sched := hs\<rparr>"
  have t: "usb_inv ?t" "undisturbed s ?t" using hw_step_inv [OF \<open>usb_inv s\<close> Cons] by auto
  have "poll s = irq ?t" by (simp add: poll_def Cons)
  moreover have "undisturbed s (irq ?t) \<or> was_reset s (irq ?t)"
    using irq_inv [OF t(1)] undisturbed_trans [OF t(2)] was_reset_after [OF t(2)] by blast
  ultimately show ?thesis using irq_inv [OF t(1)] by simp
qed

subsection \<open>Steps that leave the transfer alone\<close>

text \<open>
  What asynchronous activity and the handshakes leave alone: the endpoint number unless the
  control endpoint was configured anew, the buffer positions unless they were reset.
\<close>

abbreviation pos :: "fw \<Rightarrow> epref \<Rightarrow> byte" where
  "pos s e \<equiv> Position (FIFOs s e)"

definition quiet :: "fw \<Rightarrow> fw \<Rightarrow> bool" where
  "quiet s s' \<longleftrightarrow> usb_inv s' \<and>
     (ep_num (SelectedEndpoint s') = ep_num (SelectedEndpoint s) \<or>
        ep_num (SelectedEndpoint s') = 0 \<and> pos s' (EpIN 0) = 0) \<and>
     (\<forall>e. pos s' e = pos s e \<or> pos s' e = 0) \<and>
     (setup_flag (hw s) \<longrightarrow> setup_flag (hw s') \<or> pos s' (EpOUT 0) = 0)"

lemma quiet_inv: "quiet s s' \<Longrightarrow> usb_inv s'"
  by (simp add: quiet_def)

lemma quiet_refl: "usb_inv s \<Longrightarrow> quiet s s"
  by (simp add: quiet_def)

lemma quiet_trans: "quiet a b \<Longrightarrow> quiet b c \<Longrightarrow> quiet a c"
  unfolding quiet_def by metis

lemma quiet_pos0: "quiet s s' \<Longrightarrow> pos s e = 0 \<Longrightarrow> pos s' e = 0"
  unfolding quiet_def by metis

lemma quiet_control: "quiet s s' \<Longrightarrow> ep_num (SelectedEndpoint s) = 0 \<Longrightarrow> ep_num (SelectedEndpoint s') = 0"
  unfolding quiet_def by metis

lemma ep_num_zero [simp]: "ep_num 0 = 0" by (simp add: ep_num_def)

lemma poll_quiet: "usb_inv s \<Longrightarrow> quiet s (poll s)"
  using poll_inv [of s] by (auto simp: quiet_def undisturbed_def was_reset_def)

subsection \<open>Status queries\<close>

lemma select_quiet:
  "usb_inv s \<Longrightarrow> ep_num a = ep_num (SelectedEndpoint s) \<Longrightarrow> quiet s (Endpoint_SelectEndpoint a s)"
  by (simp add: quiet_def)

lemma select_pos: "usb_inv s \<Longrightarrow> usb_inv (Endpoint_SelectEndpoint a s) \<and> FIFOs (Endpoint_SelectEndpoint a s) = FIFOs s"
  by simp

lemma set_Length_quiet:
  assumes "usb_inv s" "\<not> is_IN (SelectedEndpoint s)"
  shows "quiet s (upd_FIFO (Length_update f) s)"
  using assms usb_invD(10) [OF assms(1)]
  by (auto simp: quiet_def upd_FIFO_def usb_inv_def sel_inv_def fifo_inv_def ep_of_alt rx_inv_def)

lemma set_Length_fields [simp]:
  "SelectedEndpoint (upd_FIFO f s) = SelectedEndpoint s" "hw (upd_FIFO f s) = hw s"
  by (simp_all add: upd_FIFO_def raise_fault_def split: option.splits)

lemma IsINReady_quiet:
  assumes "usb_inv s" "Endpoint_IsINReady s = (r, s')"
  shows "quiet s s' \<and> is_IN (SelectedEndpoint s')"
proof -
  have s': "s' = Endpoint_SelectEndpoint (SelectedEndpoint (poll s) OR ENDPOINT_DIR_IN) (poll s)"
    using assms(2) by (simp add: Endpoint_IsINReady_def Let_def)
  have "quiet (poll s) s'" unfolding s' using quiet_inv [OF poll_quiet [OF assms(1)]]
    by (intro select_quiet) simp_all
  then show ?thesis using quiet_trans [OF poll_quiet [OF assms(1)]] by (simp add: s')
qed

lemma OUT_query_quiet:
  assumes "usb_inv s"
    and s': "s' = Endpoint_SelectEndpoint (SelectedEndpoint (poll s) AND NOT ENDPOINT_DIR_IN) (poll s) \<or>
      s' = upd_FIFO (Length_update (\<lambda>_. n))
        (Endpoint_SelectEndpoint (SelectedEndpoint (poll s) AND NOT ENDPOINT_DIR_IN) (poll s))"
  shows "quiet s s' \<and> \<not> is_IN (SelectedEndpoint s')"
proof -
  let ?t = "Endpoint_SelectEndpoint (SelectedEndpoint (poll s) AND NOT ENDPOINT_DIR_IN) (poll s)"
  have t: "quiet (poll s) ?t" using quiet_inv [OF poll_quiet [OF assms(1)]]
    by (intro select_quiet) simp_all
  have q: "quiet s ?t" by (rule quiet_trans [OF poll_quiet [OF assms(1)] t])
  have "quiet ?t (upd_FIFO (Length_update (\<lambda>_. n)) ?t)"
    by (rule set_Length_quiet) (use t quiet_inv in auto)
  with q have "quiet s (upd_FIFO (Length_update (\<lambda>_. n)) ?t)" by (rule quiet_trans)
  with q s' show ?thesis by auto
qed

lemma IsOUTReceived_quiet:
  assumes "usb_inv s" "Endpoint_IsOUTReceived s = (r, s')"
  shows "quiet s s' \<and> \<not> is_IN (SelectedEndpoint s')"
  using assms(2) by (intro OUT_query_quiet [OF assms(1)]) (auto simp: Endpoint_IsOUTReceived_def Let_def split: if_splits)

lemma IsSETUPReceived_quiet:
  assumes "usb_inv s" "Endpoint_IsSETUPReceived s = (r, s')"
  shows "quiet s s' \<and> \<not> is_IN (SelectedEndpoint s')"
  using assms(2) by (intro OUT_query_quiet [OF assms(1)]) (auto simp: Endpoint_IsSETUPReceived_def Let_def split: if_splits)

lemma IsSETUPReceived_flag:
  assumes "usb_inv s" "Endpoint_IsSETUPReceived s = (r, s')" "ep_num (SelectedEndpoint s) = 0"
  shows "r = setup_flag (hw s')"
proof -
  have "ep_num (SelectedEndpoint (poll s)) = 0"
    using quiet_control [OF poll_quiet [OF assms(1)] assms(3)] .
  then have "ep_of (SelectedEndpoint (poll s) AND NOT ENDPOINT_DIR_IN) = EpOUT 0" by (simp add: ep_of_alt)
  moreover have "USB_EPPTR (usb (hw (poll s)))" using usb_invD(11) quiet_inv poll_quiet assms(1) by blast
  ultimately show ?thesis
    using assms(2)
    by (auto simp: Endpoint_IsSETUPReceived_def Let_def setup_flag_def Handle_def Endpoint_SelectEndpoint_def
        split: if_splits)
qed

subsection \<open>Handshakes\<close>

lemma upd_Handle_fields [simp]:
  "SelectedEndpoint (upd_Handle f s) = SelectedEndpoint s" "FIFOs (upd_Handle f s) = FIFOs s"
  "SelectedFIFO (upd_Handle f s) = SelectedFIFO s" "SelectedHandle (upd_Handle f s) = SelectedHandle s"
  "DeviceState (upd_Handle f s) = DeviceState s" "CDC (upd_Handle f s) = CDC s"
  "ControlRequest (upd_Handle f s) = ControlRequest s" "sched (upd_Handle f s) = sched s"
  "ram (hw (upd_Handle f s)) = ram (hw s)" "scopeBuf (hw (upd_Handle f s)) = scopeBuf (hw s)"
  "usb (hw (upd_Handle f s)) = usb (hw s)"
  by (simp_all add: upd_Handle_def raise_fault_def split: option.splits)

lemma upd_Handle_upd_Handle: "upd_Handle f (upd_Handle g s) = upd_Handle (\<lambda>x. f (g x)) s"
  by (auto simp: upd_Handle_def raise_fault_def fun_eq_iff intro!: fw.equality xmega.equality split: option.splits)

lemma handle_quiet:
  assumes "usb_inv s"
    and "ep_of (SelectedEndpoint s) = EpOUT 4 \<Longrightarrow>
      (\<forall>x. EP_STATUS (f x) AND USB_EP_TRNCOMPL0_bm = EP_STATUS x AND USB_EP_TRNCOMPL0_bm \<and> EP_CNT (f x) = EP_CNT x)"
    and "ep_of (SelectedEndpoint s) = EpOUT 0 \<Longrightarrow>
      (\<forall>x. EP_STATUS (f x) AND USB_EP_SETUP_bm = EP_STATUS x AND USB_EP_SETUP_bm)"
  shows "quiet s (upd_Handle f s)"
  using assms
  by (auto simp: quiet_def usb_inv_def sel_inv_def upd_Handle_def hw_inv_def rx_inv_def rx_complete_def
      rx_count_def setup_flag_def)

lemma clear_quiet:
  assumes "usb_inv s"
    and "ep_of (SelectedEndpoint s) = EpOUT 4 \<Longrightarrow> (\<forall>x. EP_CNT (f x) = EP_CNT x)"
  shows "quiet s (upd_FIFO (Position_update (\<lambda>_. 0)) (upd_Handle f s))"
  using assms
  by (auto simp: quiet_def usb_inv_def sel_inv_def upd_Handle_def upd_FIFO_def hw_inv_def fifo_inv_def rx_inv_def
      rx_complete_def rx_count_def setup_flag_def)

lemma clear_pos:
  assumes "usb_inv s"
  shows "pos (upd_FIFO (Position_update (\<lambda>_. 0)) (upd_Handle f s)) (ep_of (SelectedEndpoint s)) = 0"
  using usb_invD(9,10) [OF assms] by (simp add: upd_Handle_def upd_FIFO_def)

lemma sent_update_inv [simp]: "usb_inv (sent_update f s) = usb_inv s"
  by (simp add: usb_inv_def sel_inv_def)

lemma log_packet_fields [simp]:
  "SelectedEndpoint (log_packet s) = SelectedEndpoint s" "FIFOs (log_packet s) = FIFOs s"
  "hw (log_packet s) = hw s" "usb_inv (log_packet s) = usb_inv s"
  by (simp_all add: log_packet_def split: option.splits)

lemma log_packet_quiet: "usb_inv s \<Longrightarrow> quiet s (log_packet s)"
  by (simp add: quiet_def)

lemma ClearIN_quiet:
  assumes "usb_inv s" "ep_of (SelectedEndpoint s) \<noteq> EpOUT 4"
  shows "quiet s (Endpoint_ClearIN s)"
proof -
  have "quiet (log_packet s) (Endpoint_ClearIN s)"
    unfolding Endpoint_ClearIN_def Let_def upd_Handle_upd_Handle
    by (rule clear_quiet) (use assms in auto)
  then show ?thesis using quiet_trans [OF log_packet_quiet [OF assms(1)]] by blast
qed

lemma clear_fields [simp]:
  "SelectedEndpoint (Endpoint_ClearIN s) = SelectedEndpoint s"
  "SelectedEndpoint (Endpoint_ClearOUT s) = SelectedEndpoint s"
  by (simp_all add: Endpoint_ClearIN_def Endpoint_ClearOUT_def Let_def)

lemma ClearIN_pos:
  assumes "usb_inv s"
  shows "pos (Endpoint_ClearIN s) (ep_of (SelectedEndpoint s)) = 0"
  using clear_pos [of "log_packet s"] assms
  unfolding Endpoint_ClearIN_def Let_def upd_Handle_upd_Handle by simp

lemma ClearOUT_quiet:
  assumes "usb_inv s"
  shows "quiet s (Endpoint_ClearOUT s)"
  unfolding Endpoint_ClearOUT_def Let_def by (rule clear_quiet) (use assms in auto)

lemma ClearOUT_pos:
  assumes "usb_inv s"
  shows "pos (Endpoint_ClearOUT s) (ep_of (SelectedEndpoint s)) = 0"
  using clear_pos [OF assms] unfolding Endpoint_ClearOUT_def Let_def by simp

lemma ClearSETUP_split:
  "Endpoint_ClearSETUP s =
    (let s = Endpoint_SelectEndpoint (SelectedEndpoint s AND NOT ENDPOINT_DIR_IN) s;
         s = upd_FIFO (Position_update (\<lambda>_. 0)) (upd_Handle (EP_STATUS_update (\<lambda>x. (x AND NOT
               (USB_EP_SETUP_bm OR USB_EP_TRNCOMPL0_bm OR USB_EP_BUSNACK0_bm OR USB_EP_OVF_bm)) OR USB_EP_TOGGLE_bm)) s);
         s = Endpoint_SelectEndpoint (SelectedEndpoint s OR ENDPOINT_DIR_IN) s
     in upd_FIFO (Position_update (\<lambda>_. 0)) (upd_Handle (EP_STATUS_update (\<lambda>x. x OR USB_EP_TOGGLE_bm)) s))"
  by (simp add: Endpoint_ClearSETUP_def Let_def upd_Handle_upd_Handle comp_def)

lemma ClearSETUP_quiet:
  assumes "usb_inv s"
  shows "quiet s (Endpoint_ClearSETUP s) \<and> is_IN (SelectedEndpoint (Endpoint_ClearSETUP s)) \<and>
    ep_num (SelectedEndpoint (Endpoint_ClearSETUP s)) = ep_num (SelectedEndpoint s) \<and>
    pos (Endpoint_ClearSETUP s) (EpOUT (ep_num (SelectedEndpoint s))) = 0 \<and>
    pos (Endpoint_ClearSETUP s) (EpIN (ep_num (SelectedEndpoint s))) = 0"
proof -
  define a where "a = Endpoint_SelectEndpoint (SelectedEndpoint s AND NOT ENDPOINT_DIR_IN) s"
  define b where "b = upd_FIFO (Position_update (\<lambda>_. 0)) (upd_Handle (EP_STATUS_update (\<lambda>x. (x AND NOT
    (USB_EP_SETUP_bm OR USB_EP_TRNCOMPL0_bm OR USB_EP_BUSNACK0_bm OR USB_EP_OVF_bm)) OR USB_EP_TOGGLE_bm)) a)"
  define c where "c = Endpoint_SelectEndpoint (SelectedEndpoint b OR ENDPOINT_DIR_IN) b"
  define d where "d = upd_FIFO (Position_update (\<lambda>_. 0)) (upd_Handle (EP_STATUS_update (\<lambda>x. x OR USB_EP_TOGGLE_bm)) c)"
  have d: "Endpoint_ClearSETUP s = d"
    by (simp only: ClearSETUP_split Let_def a_def b_def c_def d_def)
  have qa: "quiet s a" unfolding a_def by (rule select_quiet [OF assms]) simp
  have na: "ep_num (SelectedEndpoint a) = ep_num (SelectedEndpoint s)" "\<not> is_IN (SelectedEndpoint a)"
    by (simp_all add: a_def)
  have qb: "quiet a b" unfolding b_def by (rule clear_quiet [OF quiet_inv [OF qa]]) simp
  have pb: "pos b (EpOUT (ep_num (SelectedEndpoint s))) = 0"
    using clear_pos [OF quiet_inv [OF qa]] na by (simp add: b_def ep_of_alt)
  have nb: "SelectedEndpoint b = SelectedEndpoint a" by (simp add: b_def)
  have qc: "quiet b c" unfolding c_def by (rule select_quiet [OF quiet_inv [OF qb]]) simp
  have nc: "ep_num (SelectedEndpoint c) = ep_num (SelectedEndpoint s)" "is_IN (SelectedEndpoint c)"
    using na nb by (simp_all add: c_def)
  have qd: "quiet c d" unfolding d_def by (rule clear_quiet [OF quiet_inv [OF qc]]) simp
  have pd: "pos d (EpIN (ep_num (SelectedEndpoint s))) = 0"
    using clear_pos [OF quiet_inv [OF qc]] nc by (simp add: d_def ep_of_alt)
  have "SelectedEndpoint d = SelectedEndpoint c" by (simp add: d_def)
  moreover have "quiet s d" using qa qb qc qd quiet_trans by blast
  moreover have "pos d (EpOUT (ep_num (SelectedEndpoint s))) = 0"
    using quiet_pos0 [OF quiet_trans [OF qc qd] pb] .
  ultimately show ?thesis using nc pd d by simp
qed

lemma CTRL_quiet: "usb_inv s \<Longrightarrow> quiet s (upd_Handle (EP_CTRL_update f) s)"
  by (rule handle_quiet) auto

lemma Stall_quiet:
  assumes "usb_inv s"
  shows "quiet s (Endpoint_StallTransaction s)"
proof -
  let ?a = "upd_Handle (EP_CTRL_update (\<lambda>x. x OR USB_EP_STALL_bm)) s"
  let ?b = "Endpoint_SelectEndpoint (SelectedEndpoint ?a XOR ENDPOINT_DIR_IN) ?a"
  have a: "quiet s ?a" by (rule CTRL_quiet [OF assms])
  have b: "quiet ?a ?b" by (rule select_quiet [OF quiet_inv [OF a]]) simp
  have c: "quiet ?b (upd_Handle (EP_CTRL_update (\<lambda>x. x OR USB_EP_STALL_bm)) ?b)"
    by (rule CTRL_quiet [OF quiet_inv [OF b]])
  show ?thesis
    unfolding Endpoint_StallTransaction_def Let_def
    by (simp only: a quiet_trans [OF a quiet_trans [OF b c]] split: if_split) simp
qed

end
