(* ===== verification/TransferSafety.thy ===== *)
theory TransferSafety
  imports UsbInvariant
begin

text \<open>
  Data transfers keep the invariant: byte accesses stay inside the packet buffer as long as the
  position is below the room of the endpoint, the waiting loops change nothing but what the
  hardware changes, and the stream and control transfer loops never write past the buffer.
\<close>

unbundle bit_operations_syntax

subsection \<open>Buffer accesses\<close>

definition IN_room :: "epref \<Rightarrow> nat" where
  "IN_room e = (if e = EpIN 0 then 8 else if e = EpIN 3 then 64 else 0)"

lemma Write_8_eq:
  assumes "SelectedFIFO s = Some e" "Data (FIFOs s e) = Some b" "unat (pos s e) < length (ram (hw s) b)"
  shows "Endpoint_Write_8 v s = s\<lparr>FIFOs := (FIFOs s)(e := (FIFOs s e)\<lparr>Position := pos s e + 1\<rparr>),
    hw := (hw s)\<lparr>ram := (ram (hw s))(b := (ram (hw s) b)[unat (pos s e) := v])\<rparr>\<rparr>"
  using assms by (simp add: Endpoint_Write_8_def FIFO_def upd_FIFO_def array_store_def)
    (intro fw.equality xmega.equality; simp add: fun_eq_iff)

lemma store_inv:
  assumes "usb_inv s" "e = EpIN 0 \<or> e = EpIN 3" "length xs = length (ram (hw s) b)"
  shows "usb_inv (s\<lparr>FIFOs := (FIFOs s)(e := (FIFOs s e)\<lparr>Position := p\<rparr>),
    hw := (hw s)\<lparr>ram := (ram (hw s))(b := xs)\<rparr>\<rparr>)"
  using assms(2)
proof
  assume "e = EpIN 0"
  then show ?thesis using assms(1,3)
    by (simp add: usb_inv_def sel_inv_def hw_inv_def fifo_inv_def rx_inv_def rx_complete_def rx_count_def)
next
  assume "e = EpIN 3"
  then show ?thesis using assms(1,3)
    by (simp add: usb_inv_def sel_inv_def hw_inv_def fifo_inv_def rx_inv_def rx_complete_def rx_count_def)
qed

lemma Write_8_inv:
  assumes "usb_inv s" "ep_of (SelectedEndpoint s) = e" "unat (pos s e) < IN_room e"
  shows "usb_inv (Endpoint_Write_8 v s)"
    "FIFOs (Endpoint_Write_8 v s) = (FIFOs s)(e := (FIFOs s e)\<lparr>Position := pos s e + 1\<rparr>)"
    "eptable (hw (Endpoint_Write_8 v s)) = eptable (hw s)"
    "SelectedEndpoint (Endpoint_Write_8 v s) = SelectedEndpoint s"
    "CDC (Endpoint_Write_8 v s) = CDC s"
    "ControlRequest (Endpoint_Write_8 v s) = ControlRequest s"
    "scopeBuf (hw (Endpoint_Write_8 v s)) = scopeBuf (hw s)"
proof -
  have e: "e = EpIN 0 \<or> e = EpIN 3" using assms(3) by (auto simp: IN_room_def split: if_splits)
  then obtain b where b: "Data (FIFOs s e) = Some b" "ram_size b = IN_room e"
    using usb_invD(4) [OF assms(1)] by (auto simp: fifo_inv_def IN_room_def)
  have l: "unat (pos s e) < length (ram (hw s) b)"
    using assms(3) b(2) usb_invD(3) [OF assms(1)] by (simp add: hw_inv_def)
  have w: "Endpoint_Write_8 v s = s\<lparr>FIFOs := (FIFOs s)(e := (FIFOs s e)\<lparr>Position := pos s e + 1\<rparr>),
    hw := (hw s)\<lparr>ram := (ram (hw s))(b := (ram (hw s) b)[unat (pos s e) := v])\<rparr>\<rparr>"
    using usb_invD(10) [OF assms(1)] assms(2) b(1) l by (intro Write_8_eq) simp_all
  show "usb_inv (Endpoint_Write_8 v s)" unfolding w by (rule store_inv [OF assms(1) e]) simp
  show "FIFOs (Endpoint_Write_8 v s) = (FIFOs s)(e := (FIFOs s e)\<lparr>Position := pos s e + 1\<rparr>)"
    "eptable (hw (Endpoint_Write_8 v s)) = eptable (hw s)"
    "SelectedEndpoint (Endpoint_Write_8 v s) = SelectedEndpoint s"
    "CDC (Endpoint_Write_8 v s) = CDC s"
    "ControlRequest (Endpoint_Write_8 v s) = ControlRequest s"
    "scopeBuf (hw (Endpoint_Write_8 v s)) = scopeBuf (hw s)"
    by (simp_all add: w)
qed

lemma Read_8_eq:
  assumes "SelectedFIFO s = Some e" "Data (FIFOs s e) = Some b" "unat (pos s e) < length (ram (hw s) b)"
  shows "Endpoint_Read_8 s = (ram (hw s) b ! unat (pos s e),
    s\<lparr>FIFOs := (FIFOs s)(e := (FIFOs s e)\<lparr>Position := pos s e + 1\<rparr>)\<rparr>)"
  using assms by (simp add: Endpoint_Read_8_def FIFO_def upd_FIFO_def array_load_def)
    (intro fw.equality; simp add: fun_eq_iff)

text \<open>Reading from the control endpoint.\<close>

definition ctl_read :: "nat \<Rightarrow> fw \<Rightarrow> bool" where
  "ctl_read n s \<longleftrightarrow> usb_inv s \<and> ep_of (SelectedEndpoint s) = EpOUT 0 \<and> pos s (EpOUT 0) = of_nat n"

lemma ctl_read_step:
  assumes "ctl_read n s" "n < 8" "Endpoint_Read_8 s = (v, s')"
  shows "ctl_read (Suc n) s' \<and> hw s' = hw s \<and> SelectedEndpoint s' = SelectedEndpoint s \<and>
    ControlRequest s' = ControlRequest s"
proof -
  have i: "usb_inv s" and e: "ep_of (SelectedEndpoint s) = EpOUT 0" and p: "pos s (EpOUT 0) = of_nat n"
    using assms(1) by (simp_all add: ctl_read_def)
  have n: "unat (of_nat n :: byte) = n" using assms(2) by (simp add: unat_of_nat)
  have s': "s' = s\<lparr>FIFOs := (FIFOs s)(EpOUT 0 := (FIFOs s (EpOUT 0))\<lparr>Position := pos s (EpOUT 0) + 1\<rparr>)\<rparr>"
    using Read_8_eq [of s "EpOUT 0" Notification_fifo2] usb_invD(3,4,10) [OF i] e p n assms(2,3)
    by (simp add: fifo_inv_def hw_inv_def)
  show ?thesis
    using i e p unfolding s' ctl_read_def usb_inv_def sel_inv_def fifo_inv_def
    by (auto simp: add.commute)
qed

text \<open>Writing to the control endpoint.\<close>

definition ctl_write :: "nat \<Rightarrow> fw \<Rightarrow> bool" where
  "ctl_write n s \<longleftrightarrow> usb_inv s \<and> ep_of (SelectedEndpoint s) = EpIN 0 \<and> pos s (EpIN 0) = of_nat n \<and>
     pos s (EpOUT 0) = 0"

lemma ctl_write_step:
  assumes "ctl_write n s" "n < 8"
  shows "ctl_write (Suc n) (Endpoint_Write_8 v s)"
proof -
  have n: "unat (of_nat n :: byte) = n" using assms(2) by (simp add: unat_of_nat)
  show ?thesis
    using assms Write_8_inv [of s "EpIN 0" v] n by (simp add: ctl_write_def IN_room_def add.commute)
qed

lemma ctl_write_inv: "ctl_write n s \<Longrightarrow> usb_inv s \<and> pos s (EpOUT 0) = 0 \<and> ep_num (SelectedEndpoint s) = 0 \<and>
   is_IN (SelectedEndpoint s) \<and> ep_of (SelectedEndpoint s) \<noteq> EpOUT 4"
  by (auto simp: ctl_write_def ep_of_alt split: if_splits)

subsection \<open>Waiting\<close>

lemma wait_OUTReceived_ok:
  assumes "usb_inv s"
  shows "returns (wait_OUTReceived s) (\<lambda>(r, s'). quiet s s' \<and> \<not> is_IN (SelectedEndpoint s'))"
proof -
  have "wait_OUTReceived s = Some y \<Longrightarrow> usb_inv s \<longrightarrow> quiet s (snd y) \<and> \<not> is_IN (SelectedEndpoint (snd y))" for s y
  proof (erule wait_OUTReceived.raw_induct [rotated])
    fix f :: "fw \<Rightarrow> (bool \<times> fw) option" and s y
    assume IH: "\<And>s y. f s = Some y \<Longrightarrow> usb_inv s \<longrightarrow> quiet s (snd y) \<and> \<not> is_IN (SelectedEndpoint (snd y))"
      and eq: "(case Endpoint_IsOUTReceived s of (r, s) \<Rightarrow>
        if r then Some (True, s) else if DeviceState s = DEVICE_STATE_Unattached then Some (False, s) else f s) = Some y"
    obtain r t where q: "Endpoint_IsOUTReceived s = (r, t)" by fastforce
    show "usb_inv s \<longrightarrow> quiet s (snd y) \<and> \<not> is_IN (SelectedEndpoint (snd y))"
    proof
      assume "usb_inv s"
      note t = IsOUTReceived_quiet [OF this q]
      show "quiet s (snd y) \<and> \<not> is_IN (SelectedEndpoint (snd y))"
        using eq t IH [of t y] quiet_inv [of s t] quiet_trans [of s t "snd y"] by (auto simp: q split: if_splits)
    qed
  qed
  then show ?thesis using assms by (auto simp: returns_def)
qed

lemma wait_INReady_ok:
  assumes "usb_inv s"
  shows "returns (wait_INReady s) (\<lambda>(r, s'). quiet s s' \<and> is_IN (SelectedEndpoint s'))"
proof -
  have "wait_INReady s = Some y \<Longrightarrow> usb_inv s \<longrightarrow> quiet s (snd y) \<and> is_IN (SelectedEndpoint (snd y))" for s y
  proof (erule wait_INReady.raw_induct [rotated])
    fix f :: "fw \<Rightarrow> (bool \<times> fw) option" and s y
    assume IH: "\<And>s y. f s = Some y \<Longrightarrow> usb_inv s \<longrightarrow> quiet s (snd y) \<and> is_IN (SelectedEndpoint (snd y))"
      and eq: "(case Endpoint_IsINReady s of (r, s) \<Rightarrow>
        if r then Some (True, s) else if DeviceState s = DEVICE_STATE_Unattached then Some (False, s) else f s) = Some y"
    obtain r t where q: "Endpoint_IsINReady s = (r, t)" by fastforce
    show "usb_inv s \<longrightarrow> quiet s (snd y) \<and> is_IN (SelectedEndpoint (snd y))"
    proof
      assume "usb_inv s"
      note t = IsINReady_quiet [OF this q]
      show "quiet s (snd y) \<and> is_IN (SelectedEndpoint (snd y))"
        using eq t IH [of t y] quiet_inv [of s t] quiet_trans [of s t "snd y"] by (auto simp: q split: if_splits)
    qed
  qed
  then show ?thesis using assms by (auto simp: returns_def)
qed

lemma spin_INReady_ok:
  assumes "usb_inv s"
  shows "returns (spin_INReady s) (\<lambda>s'. quiet s s' \<and> is_IN (SelectedEndpoint s'))"
proof -
  have "spin_INReady s = Some y \<Longrightarrow> usb_inv s \<longrightarrow> quiet s y \<and> is_IN (SelectedEndpoint y)" for s y
  proof (erule spin_INReady.raw_induct [rotated])
    fix f :: "fw \<Rightarrow> fw option" and s y
    assume IH: "\<And>s y. f s = Some y \<Longrightarrow> usb_inv s \<longrightarrow> quiet s y \<and> is_IN (SelectedEndpoint y)"
      and eq: "(case Endpoint_IsINReady s of (r, s) \<Rightarrow> if r then Some s else f s) = Some y"
    obtain r t where q: "Endpoint_IsINReady s = (r, t)" by fastforce
    show "usb_inv s \<longrightarrow> quiet s y \<and> is_IN (SelectedEndpoint y)"
    proof
      assume "usb_inv s"
      note t = IsINReady_quiet [OF this q]
      show "quiet s y \<and> is_IN (SelectedEndpoint y)"
        using eq t IH [of t y] quiet_inv [of s t] quiet_trans [of s t y] by (auto simp: q split: if_splits)
    qed
  qed
  then show ?thesis using assms by (auto simp: returns_def)
qed

lemma GetEndpointDirection_IN:
  "Endpoint_GetEndpointDirection s = ENDPOINT_DIR_IN \<longleftrightarrow> is_IN (SelectedEndpoint s)"
proof -
  have "a AND 2 ^ n = (if bit a n then 2 ^ n else 0)" for a :: byte and n
    by (rule bit_eqI) (auto simp: bit_and_iff bit_exp_iff)
  from this [of _ 7] show ?thesis by (simp add: Endpoint_GetEndpointDirection_def is_IN_def ep_consts split: if_splits)
qed

lemma ready_query_quiet:
  assumes "usb_inv s"
    "(if Endpoint_GetEndpointDirection s = ENDPOINT_DIR_IN then Endpoint_IsINReady s
      else Endpoint_IsOUTReceived s) = (r, t)"
  shows "quiet s t \<and> is_IN (SelectedEndpoint t) = is_IN (SelectedEndpoint s)"
  using assms IsINReady_quiet [of s r t] IsOUTReceived_quiet [of s r t]
  by (auto simp: GetEndpointDirection_IN split: if_splits)

subsection \<open>Streams\<close>

lemma ready_loop_ok:
  assumes "usb_inv s"
  shows "returns (ready_loop k p s) (\<lambda>(e, s'). quiet s s' \<and> is_IN (SelectedEndpoint s') = is_IN (SelectedEndpoint s))"
proof -
  have "ready_loop k p s = Some y \<Longrightarrow>
    usb_inv s \<longrightarrow> quiet s (snd y) \<and> is_IN (SelectedEndpoint (snd y)) = is_IN (SelectedEndpoint s)" for k p s y
  proof (erule ready_loop.raw_induct [rotated])
    fix f :: "byte \<Rightarrow> u16 \<Rightarrow> fw \<Rightarrow> (ENDPOINT_RWSTREAM \<times> fw) option" and k p s y
    assume IH: "\<And>k p s y. f k p s = Some y \<Longrightarrow>
        usb_inv s \<longrightarrow> quiet s (snd y) \<and> is_IN (SelectedEndpoint (snd y)) = is_IN (SelectedEndpoint s)"
      and eq: "(case if Endpoint_GetEndpointDirection s = ENDPOINT_DIR_IN then Endpoint_IsINReady s
              else Endpoint_IsOUTReceived s of (ready, s) \<Rightarrow>
        if ready then Some (NoError, s)
        else if DeviceState s = DEVICE_STATE_Unattached then Some (DeviceDisconnected, s)
        else if DeviceState s = DEVICE_STATE_Suspended then Some (BusSuspended, s)
        else if Endpoint_IsStalled s then Some (EndpointStalled, s)
        else if USB_Device_GetFrameNumber s \<noteq> p
        then if k = 0 then Some (Timeout, s) else f (k - 1) (USB_Device_GetFrameNumber s) s
        else f k p s) = Some y"
    obtain r t where q: "(if Endpoint_GetEndpointDirection s = ENDPOINT_DIR_IN then Endpoint_IsINReady s
              else Endpoint_IsOUTReceived s) = (r, t)" by fastforce
    show "usb_inv s \<longrightarrow> quiet s (snd y) \<and> is_IN (SelectedEndpoint (snd y)) = is_IN (SelectedEndpoint s)"
    proof
      assume "usb_inv s"
      note t = ready_query_quiet [OF this q]
      have "snd y = t \<or> (\<exists>k p. f k p t = Some y)" using eq unfolding q by (auto split: if_splits)
      then show "quiet s (snd y) \<and> is_IN (SelectedEndpoint (snd y)) = is_IN (SelectedEndpoint s)"
        using t IH [of _ _ t y] quiet_inv [of s t] quiet_trans [of s t "snd y"] by auto
    qed
  qed
  then show ?thesis using assms by (auto simp: returns_def)
qed

lemma WaitUntilReady_ok:
  assumes "usb_inv s"
  shows "returns (Endpoint_WaitUntilReady s)
    (\<lambda>(e, s'). quiet s s' \<and> is_IN (SelectedEndpoint s') = is_IN (SelectedEndpoint s))"
  unfolding Endpoint_WaitUntilReady_def by (rule ready_loop_ok [OF assms])

lemma ClearStatusStage_ok:
  assumes "usb_inv s"
  shows "returns (Endpoint_ClearStatusStage s) (quiet s)"
proof (cases "bmRequestType (ControlRequest s) AND REQDIR_DEVICETOHOST \<noteq> 0")
  case True
  show ?thesis
    unfolding Endpoint_ClearStatusStage_def
    by (simp add: True) (rule returns_mono [OF wait_OUTReceived_ok [OF assms]],
        auto intro!: quiet_trans [OF _ ClearOUT_quiet] dest: quiet_inv)
next
  case False
  show ?thesis
    unfolding Endpoint_ClearStatusStage_def
    by (simp add: False) (rule returns_mono [OF wait_INReady_ok [OF assms]],
        auto intro!: quiet_trans [OF _ ClearIN_quiet] simp: ep_of_alt dest: quiet_inv)
qed

subsection \<open>Streams to the host\<close>

definition tx :: "fw \<Rightarrow> bool" where
  "tx s \<longleftrightarrow> usb_inv s \<and> pos s (EpOUT 0) = 0 \<and> is_IN (SelectedEndpoint s) \<and>
     (ep_num (SelectedEndpoint s) = 0 \<or> ep_num (SelectedEndpoint s) = 3)"

lemma tx_quiet:
  "tx s \<Longrightarrow> quiet s s' \<Longrightarrow> is_IN (SelectedEndpoint s') = is_IN (SelectedEndpoint s) \<Longrightarrow> tx s'"
  unfolding tx_def quiet_def by metis

lemma tx_inv: "tx s \<Longrightarrow> usb_inv s"
  by (simp add: tx_def)

lemma tx_sel: "tx s \<Longrightarrow> ep_of (SelectedEndpoint s) = EpIN 0 \<or> ep_of (SelectedEndpoint s) = EpIN 3"
  by (auto simp: tx_def ep_of_alt)

lemma tx_ClearIN: "tx s \<Longrightarrow> tx (Endpoint_ClearIN s)"
  using tx_quiet [of s "Endpoint_ClearIN s"] ClearIN_quiet [of s] tx_sel [of s] by (auto simp: tx_def)

lemma tx_Write_8:
  assumes "tx s" "unat (pos s (ep_of (SelectedEndpoint s))) < IN_room (ep_of (SelectedEndpoint s))"
  shows "tx (Endpoint_Write_8 v s)"
  using assms Write_8_inv [OF _ refl assms(2), of v] tx_sel [OF assms(1)] unfolding tx_def by auto

lemma allowed_room:
  assumes "tx s" "Endpoint_IsReadWriteAllowed s"
  shows "unat (pos s (ep_of (SelectedEndpoint s))) < IN_room (ep_of (SelectedEndpoint s))"
proof -
  have i: "usb_inv s" using assms(1) by (simp add: tx_def)
  have "pos s (ep_of (SelectedEndpoint s)) < Length (FIFOs s (ep_of (SelectedEndpoint s)))"
    using assms(2) usb_invD(10) [OF i] by (simp add: Endpoint_IsReadWriteAllowed_def FIFO_def)
  then show ?thesis
    using tx_sel [OF assms(1)] usb_invD(4) [OF i]
    by (auto simp: fifo_inv_def IN_room_def word_less_nat_alt word_le_nat_alt)
qed

lemma tx_WaitUntilReady: "tx s \<Longrightarrow> returns (Endpoint_WaitUntilReady s) (\<lambda>x. tx (snd x))"
  by (rule returns_mono [OF WaitUntilReady_ok [OF tx_inv]]) (auto intro: tx_quiet)

lemma write_loop_ok:
  assumes "tx s" "0 \<le> i" "nat i + unat n \<le> length buf"
  shows "returns (stream_loop transfer_write Endpoint_ClearIN 1 n i k None buf s) (\<lambda>(e, _, _, s'). tx s')"
proof -
  have "stream_loop xf cl d n i k bp buf s = Some y \<Longrightarrow> xf = transfer_write \<and> cl = Endpoint_ClearIN \<and> d = 1 \<and>
    bp = None \<and> tx s \<and> 0 \<le> i \<and> nat i + unat n \<le> length buf \<longrightarrow> tx (snd (snd (snd y)))"
    for xf cl d n i k bp buf s y
  proof (erule stream_loop.raw_induct [rotated])
    fix f :: "transfer \<Rightarrow> (fw \<Rightarrow> fw) \<Rightarrow> int \<Rightarrow> u16 \<Rightarrow> int \<Rightarrow> u16 \<Rightarrow> u16 option \<Rightarrow> byte list \<Rightarrow> fw \<Rightarrow>
      (ENDPOINT_RWSTREAM \<times> u16 option \<times> byte list \<times> fw) option"
      and xf :: transfer and cl :: "fw \<Rightarrow> fw" and d :: int and n i k bp buf s y
    assume IH: "\<And>xf cl d n i k bp buf s y. f xf cl d n i k bp buf s = Some y \<Longrightarrow>
        xf = transfer_write \<and> cl = Endpoint_ClearIN \<and> d = 1 \<and>
        bp = None \<and> tx s \<and> 0 \<le> i \<and> nat i + unat n \<le> length buf \<longrightarrow> tx (snd (snd (snd y)))"
      and eq: "(if n = 0 then Some (NoError, bp, buf, s)
        else if \<not> Endpoint_IsReadWriteAllowed s then
          (case bp of None \<Rightarrow> Endpoint_WaitUntilReady (cl s) \<bind> (\<lambda>(e, s).
               if e \<noteq> NoError then Some (e, bp, buf, s) else f xf cl d n i k bp buf s)
           | Some n \<Rightarrow> Some (IncompleteTransfer, Some (n + k), buf, cl s))
        else (case xf i buf s of (buf, s) \<Rightarrow> f xf cl d (n - 1) (i + d) (k + 1) bp buf s)) = Some y"
    show "xf = transfer_write \<and> cl = Endpoint_ClearIN \<and> d = 1 \<and>
        bp = None \<and> tx s \<and> 0 \<le> i \<and> nat i + unat n \<le> length buf \<longrightarrow> tx (snd (snd (snd y)))"
    proof (intro impI, elim conjE)
      assume h: "xf = transfer_write" "cl = Endpoint_ClearIN" "d = 1" "bp = None"
        and s: "tx s" and i: "0 \<le> i" "nat i + unat n \<le> length buf"
      consider "n = 0" | "n \<noteq> 0" "\<not> Endpoint_IsReadWriteAllowed s" | "n \<noteq> 0" "Endpoint_IsReadWriteAllowed s" by blast
      then show "tx (snd (snd (snd y)))"
      proof cases
        case 1
        then show ?thesis using eq s by auto
      next
        case 2
        obtain e t where w: "Endpoint_WaitUntilReady (Endpoint_ClearIN s) = Some (e, t)"
          and r: "(if e \<noteq> NoError then Some (e, None, buf, t) else f transfer_write Endpoint_ClearIN 1 n i k None buf t) = Some y"
          using eq 2 h by (auto simp: bind_eq_Some_conv)
        have "tx t" using returnsD [OF tx_WaitUntilReady [OF tx_ClearIN [OF s]] w] by simp
        then show ?thesis using r IH i by (auto split: if_splits)
      next
        case 3
        have n: "unat (n - 1) = unat n - 1" "0 < unat n" using 3(1) by (simp_all add: unat_minus_one unat_gt_0)
        have j: "nat i < length buf" "nat (i + 1) = Suc (nat i)" using i n by simp_all
        have "f transfer_write Endpoint_ClearIN 1 (n - 1) (i + 1) (k + 1) None buf (Endpoint_Write_8 (buf ! nat i) s) = Some y"
          using eq 3 h i(1) j(1) by (simp add: transfer_write_def)
        from IH [OF this] show ?thesis
          using tx_Write_8 [OF s allowed_room [OF s 3(2)]] i n j by simp
      qed
    qed
  qed
  then show ?thesis using assms by (auto simp: returns_def)
qed

lemma Write_Stream_LE_ok:
  assumes "tx s" "unat n \<le> length buf"
  shows "returns (Endpoint_Write_Stream_LE buf n None s) (\<lambda>(e, _, _, s'). tx s')"
  unfolding Endpoint_Write_Stream_LE_def stream_template_def
  by simp (rule returns_mono [OF tx_WaitUntilReady [OF assms(1)]],
      auto simp: offset_LE_def intro!: write_loop_ok assms(2))

subsection \<open>Control transfers\<close>

definition ctl0 :: "fw \<Rightarrow> bool" where
  "ctl0 s \<longleftrightarrow> usb_inv s \<and> ep_num (SelectedEndpoint s) = 0 \<and> pos s (EpOUT 0) = 0"

lemma ctl0_quiet: "ctl0 s \<Longrightarrow> quiet s s' \<Longrightarrow> ctl0 s'"
  using quiet_inv [of s s'] quiet_control [of s s'] quiet_pos0 [of s s'] by (simp add: ctl0_def)

lemma ctl0_inv: "ctl0 s \<Longrightarrow> usb_inv s"
  by (simp add: ctl0_def)

lemma ctl0_IN: "ctl0 s \<Longrightarrow> is_IN (SelectedEndpoint s) \<Longrightarrow> ep_of (SelectedEndpoint s) = EpIN 0"
  by (simp add: ctl0_def ep_of_alt)

lemma ctl0_ClearIN: "ctl0 s \<Longrightarrow> ctl0 (Endpoint_ClearIN s)"
  by (rule ctl0_quiet, assumption, rule ClearIN_quiet) (auto simp: ctl0_def ep_of_alt)

lemma ctl0_ClearOUT: "ctl0 s \<Longrightarrow> ctl0 (Endpoint_ClearOUT s)"
  by (rule ctl0_quiet, assumption, rule ClearOUT_quiet) (auto simp: ctl0_def)

lemma ctl0_ClearStatusStage: "ctl0 s \<Longrightarrow> returns (Endpoint_ClearStatusStage s) ctl0"
  by (rule returns_mono [OF ClearStatusStage_ok [OF ctl0_inv]]) (auto intro: ctl0_quiet)

lemma ctl0_IsINReady: "ctl0 s \<Longrightarrow> Endpoint_IsINReady s = (r, t) \<Longrightarrow> ctl0 t \<and> is_IN (SelectedEndpoint t)"
  using IsINReady_quiet ctl0_quiet ctl0_inv by blast

lemma ctl0_IsOUTReceived: "ctl0 s \<Longrightarrow> Endpoint_IsOUTReceived s = (r, t) \<Longrightarrow> ctl0 t"
  using IsOUTReceived_quiet ctl0_quiet ctl0_inv by blast

lemma ctl0_IsSETUPReceived: "ctl0 s \<Longrightarrow> Endpoint_IsSETUPReceived s = (r, t) \<Longrightarrow> ctl0 t"
  using IsSETUPReceived_quiet ctl0_quiet ctl0_inv by blast

lemma ctl0_write:
  assumes "ctl0 s" "is_IN (SelectedEndpoint s)" "pos s (EpIN 0) < 8"
  shows "ctl0 (Endpoint_Write_8 v s) \<and> SelectedEndpoint (Endpoint_Write_8 v s) = SelectedEndpoint s \<and>
    pos (Endpoint_Write_8 v s) (EpIN 0) = pos s (EpIN 0) + 1"
  using Write_8_inv [of s "EpIN 0" v] assms ctl0_IN [OF assms(1,2)]
  by (simp add: ctl0_def IN_room_def word_less_nat_alt)

lemma control_fill_ok:
  assumes "ctl0 s" "is_IN (SelectedEndpoint s)" "b = ucast (pos s (EpIN 0))"
    "0 \<le> i" "nat i + unat n \<le> length buf" "control_fill 1 buf n i b s = (n', i', b', s')"
  shows "ctl0 s' \<and> is_IN (SelectedEndpoint s') \<and> 0 \<le> i' \<and> nat i' + unat n' \<le> length buf"
  using assms
proof (induction "1 :: int" buf n i b s arbitrary: n' i' b' s' rule: control_fill.induct)
  case (1 buf n i b s)
  show ?case
  proof (cases "n \<noteq> 0 \<and> b < USB_Device_ControlEndpointSize")
    case True
    have n: "unat (n - 1) = unat n - 1" "0 < unat n" using True by (simp_all add: unat_minus_one unat_gt_0)
    have j: "nat i < length buf" "nat (i + 1) = Suc (nat i)" using 1(5,6) n by simp_all
    have w: "snd (transfer_write i buf s) = Endpoint_Write_8 (buf ! nat i) s"
      using 1(5) j(1) by (simp add: transfer_write_def)
    have p: "pos s (EpIN 0) < 8"
      using True 1(4) by (simp add: ep_consts word_less_nat_alt)
    have b: "b + 1 = ucast (pos s (EpIN 0) + 1)"
      using 1(4) p by (simp add: word_unat_eq_iff unat_word_ariths word_less_nat_alt)
    have "control_fill 1 buf (n - 1) (i + 1) (b + 1) (Endpoint_Write_8 (buf ! nat i) s) = (n', i', b', s')"
      using 1(7) True by (simp add: w control_fill.simps [of 1 buf n i b s])
    moreover note ctl0_write [OF 1(2,3) p, of "buf ! nat i"]
    ultimately show ?thesis
      using 1(1) [OF True, of n' i' b' s'] 1(3,5,6) n j b unfolding w by simp
  next
    case False
    then have "control_fill 1 buf n i b s = (n, i, b, s)" by (subst control_fill.simps) (rule if_not_P)
    then show ?thesis using 1(2-7) by simp
  qed
qed

lemma control_W_status_ok: "ctl0 s \<Longrightarrow> returns (control_W_status s) (\<lambda>(e, s'). ctl0 s')"
proof -
  assume "ctl0 s"
  have "control_W_status s = Some y \<Longrightarrow> ctl0 s \<longrightarrow> ctl0 (snd y)" for s y
  proof (erule control_W_status.raw_induct [rotated])
    fix f :: "fw \<Rightarrow> (ENDPOINT_RWCSTREAM \<times> fw) option" and s y
    assume IH: "\<And>s y. f s = Some y \<Longrightarrow> ctl0 s \<longrightarrow> ctl0 (snd y)"
      and eq: "(case Endpoint_IsOUTReceived s of (r, s) \<Rightarrow>
        if r then Some (RWC_NoError, s)
        else if DeviceState s = DEVICE_STATE_Unattached then Some (RWC_DeviceDisconnected, s)
        else if DeviceState s = DEVICE_STATE_Suspended then Some (RWC_BusSuspended, s)
        else (case Endpoint_IsSETUPReceived s of (r, s) \<Rightarrow>
                if r then Some (RWC_HostAborted, s) else f s)) = Some y"
    obtain r t where t: "Endpoint_IsOUTReceived s = (r, t)" by fastforce
    obtain r' t' where t': "Endpoint_IsSETUPReceived t = (r', t')" by fastforce
    have "snd y = t \<or> snd y = t' \<or> f t' = Some y" using eq unfolding t by (auto simp: t' split: if_splits)
    then show "ctl0 s \<longrightarrow> ctl0 (snd y)"
      using ctl0_IsOUTReceived [OF _ t] ctl0_IsSETUPReceived [OF _ t'] IH [of t' y] by auto
  qed
  with \<open>ctl0 s\<close> show ?thesis by (auto simp: returns_def)
qed

lemma control_W_loop_ok:
  assumes "ctl0 s" "0 \<le> i" "nat i + unat n \<le> length buf"
  shows "returns (control_W_loop 1 buf n i full s) (\<lambda>(e, s'). ctl0 s')"
proof -
  have "control_W_loop d buf n i full s = Some y \<Longrightarrow>
    d = 1 \<and> ctl0 s \<and> 0 \<le> i \<and> nat i + unat n \<le> length buf \<longrightarrow> ctl0 (snd y)" for d buf n i full s y
  proof (erule control_W_loop.raw_induct [rotated])
    fix f :: "int \<Rightarrow> byte list \<Rightarrow> u16 \<Rightarrow> int \<Rightarrow> bool \<Rightarrow> fw \<Rightarrow> (ENDPOINT_RWCSTREAM \<times> fw) option"
      and d :: int and buf n i full s y
    assume IH: "\<And>d buf n i full s y. f d buf n i full s = Some y \<Longrightarrow>
        d = 1 \<and> ctl0 s \<and> 0 \<le> i \<and> nat i + unat n \<le> length buf \<longrightarrow> ctl0 (snd y)"
      and eq: "(if \<not> (n \<noteq> 0 \<or> full) then control_W_status s
      else if DeviceState s = DEVICE_STATE_Unattached then Some (RWC_DeviceDisconnected, s)
      else if DeviceState s = DEVICE_STATE_Suspended then Some (RWC_BusSuspended, s)
      else (case Endpoint_IsSETUPReceived s of (r, s) \<Rightarrow>
        if r then Some (RWC_HostAborted, s)
        else (case Endpoint_IsOUTReceived s of (r, s) \<Rightarrow>
          if r then control_W_status s
          else (case Endpoint_IsINReady s of (r, s) \<Rightarrow>
            if r
            then (case control_fill d buf n i (Endpoint_BytesInEndpoint s) s of
                    (n, i, b, s) \<Rightarrow>
                      f d buf n i (b = USB_Device_ControlEndpointSize) (Endpoint_ClearIN s))
            else f d buf n i full s)))) = Some y"
    show "d = 1 \<and> ctl0 s \<and> 0 \<le> i \<and> nat i + unat n \<le> length buf \<longrightarrow> ctl0 (snd y)"
    proof (intro impI, elim conjE)
      assume h: "d = 1" "ctl0 s" "0 \<le> i" "nat i + unat n \<le> length buf"
      obtain r1 t1 where t1: "Endpoint_IsSETUPReceived s = (r1, t1)" by fastforce
      obtain r2 t2 where t2: "Endpoint_IsOUTReceived t1 = (r2, t2)" by fastforce
      obtain r3 t3 where t3: "Endpoint_IsINReady t2 = (r3, t3)" by fastforce
      obtain n' i' b' t4 where t4: "control_fill 1 buf n i (Endpoint_BytesInEndpoint t3) t3 = (n', i', b', t4)"
        by (metis prod_cases4)
      have c1: "ctl0 t1" by (rule ctl0_IsSETUPReceived [OF h(2) t1])
      have c2: "ctl0 t2" by (rule ctl0_IsOUTReceived [OF c1 t2])
      have c3: "ctl0 t3" "is_IN (SelectedEndpoint t3)" using ctl0_IsINReady [OF c2 t3] by auto
      have "Endpoint_BytesInEndpoint t3 = ucast (pos t3 (EpIN 0))"
        using c3 ctl0_IN [OF c3] usb_invD(10) [OF ctl0_inv [OF c3(1)]]
        by (simp add: Endpoint_BytesInEndpoint_def FIFO_def)
      from control_fill_ok [OF c3 this h(3,4) t4]
      have c4: "ctl0 t4" "0 \<le> i'" "nat i' + unat n' \<le> length buf" by auto
      have "control_W_status s = Some y \<or> control_W_status t2 = Some y \<or> snd y = s \<or> snd y = t1 \<or>
        f 1 buf n i full t3 = Some y \<or>
        f 1 buf n' i' (b' = USB_Device_ControlEndpointSize) (Endpoint_ClearIN t4) = Some y"
        using eq unfolding h(1) t1 by (auto simp: t2 t3 t4 split: if_splits)
      then show "ctl0 (snd y)"
        using IH [of 1 buf n i full t3 y] IH [of 1 buf n' i' _ "Endpoint_ClearIN t4" y] h c1 c3 c4
          ctl0_ClearIN [OF c4(1)] returnsD [OF control_W_status_ok [OF h(2)], of y]
          returnsD [OF control_W_status_ok [OF c2], of y] by auto
    qed
  qed
  then show ?thesis using assms by (auto simp: returns_def)
qed

end
