(* ===== verification/RequestSafety.thy ===== *)
theory RequestSafety
  imports TransferSafety
begin

text \<open>
  Every control request, whatever its eight bytes are, is served within the bounds of the
  control endpoint's buffers: the class requests of the serial port, the standard requests, the
  dispatcher, and the device task that polls for the next SETUP packet.
\<close>

unbundle bit_operations_syntax

subsection \<open>Class requests\<close>

lemma inv_frames [simp]:
  "usb_inv (s\<lparr>ControlRequest := q\<rparr>) = usb_inv s" "usb_inv (s\<lparr>ConfigurationNumber := n\<rparr>) = usb_inv s"
  "usb_inv (s\<lparr>DeviceState := d\<rparr>) = usb_inv s" "usb_inv (s\<lparr>ok_to_send := b\<rparr>) = usb_inv s"
  "usb_inv (s\<lparr>sreg_I := b\<rparr>) = usb_inv s" "usb_inv (hw_update (sys_update f) s) = usb_inv s"
  "usb_inv (s\<lparr>IsInitialized := b\<rparr>) = usb_inv s"
  by (simp_all add: usb_inv_def sel_inv_def hw_inv_def rx_inv_def rx_complete_def rx_count_def)

lemma address_inv [simp]: "usb_inv (USB_Device_EnableDeviceAddress a s) = usb_inv s"
  "FIFOs (USB_Device_EnableDeviceAddress a s) = FIFOs s"
  "SelectedEndpoint (USB_Device_EnableDeviceAddress a s) = SelectedEndpoint s"
  by (simp_all add: USB_Device_EnableDeviceAddress_def usb_inv_def sel_inv_def hw_inv_def rx_inv_def rx_complete_def rx_count_def)

lemma cdc_state_inv:
  assumes "usb_inv s" "DataINEndpoint c = DataINEndpoint (CDC s)" "DataOUTEndpoint c = DataOUTEndpoint (CDC s)"
    "NotificationEndpoint c = NotificationEndpoint (CDC s)"
  shows "usb_inv (s\<lparr>CDC := c\<rparr>)"
  using assms by (simp add: usb_inv_def sel_inv_def cdc_inv_def)

lemma control_W_ok:
  assumes "ctl0 s" "unat n \<le> length buf"
  shows "returns (control_W_template offset_LE 1 buf n s) (\<lambda>(e, s'). ctl0 s')"
proof -
  let ?s = "Endpoint_SelectEndpoint (SelectedEndpoint s OR ENDPOINT_DIR_IN) s"
  have s: "ctl0 ?s" using assms(1) by (simp add: ctl0_def)
  show ?thesis
  proof (cases "n > wLength (ControlRequest ?s)")
    case True
    then have "unat (wLength (ControlRequest ?s)) \<le> length buf" using assms(2) by (simp add: word_less_nat_alt)
    then show ?thesis
      using True control_W_loop_ok [OF s] by (simp add: control_W_template_def Let_def offset_LE_def)
  next
    case False
    then show ?thesis
      using control_W_loop_ok [OF s] control_W_loop_ok [OF ctl0_ClearIN [OF s]] assms(2)
      by (simp add: control_W_template_def Let_def offset_LE_def)
  qed
qed

lemma ctl0_ClearSETUP:
  assumes "usb_inv s" "ep_num (SelectedEndpoint s) = 0"
  shows "ctl_write 0 (Endpoint_ClearSETUP s)"
  using ClearSETUP_quiet [OF assms(1)] assms(2) by (simp add: ctl_write_def quiet_def ep_of_alt)

lemma ctl_write_ctl0: "ctl_write n s \<Longrightarrow> ctl0 s"
  using ctl_write_inv [of n s] by (simp add: ctl0_def)

lemma ctl_write0_quiet:
  assumes "ctl_write 0 s" "quiet s s'" "is_IN (SelectedEndpoint s')"
  shows "ctl_write 0 s'"
proof -
  have "ctl0 s'" using ctl0_quiet [OF ctl_write_ctl0] assms by blast
  moreover have "pos s' (EpIN 0) = 0" using quiet_pos0 [OF assms(2)] assms(1) by (simp add: ctl_write_def)
  ultimately show ?thesis using assms(3) by (simp add: ctl_write_def ctl0_def ep_of_alt)
qed

text \<open>A request is being served: it was read and not acknowledged, or the buffer is reset.\<close>

definition ctl :: "fw \<Rightarrow> bool" where
  "ctl s \<longleftrightarrow> usb_inv s \<and> ep_num (SelectedEndpoint s) = 0 \<and> (pos s (EpOUT 0) = 0 \<or> setup_flag (hw s))"

lemma ctl_inv: "ctl s \<Longrightarrow> usb_inv s" by (simp add: ctl_def)

lemma ctl_quiet: "ctl s \<Longrightarrow> quiet s s' \<Longrightarrow> ctl s'"
  unfolding ctl_def quiet_def by metis

lemma ctl0_ctl: "ctl0 s \<Longrightarrow> ctl s"
  by (simp add: ctl0_def ctl_def)

lemma ctl_ClearSETUP: "ctl s \<Longrightarrow> ctl_write 0 (Endpoint_ClearSETUP s)"
  by (simp add: ctl_def ctl0_ClearSETUP)

subsection \<open>Class requests\<close>

lemma GetLineEncoding_ok:
  assumes "ctl s"
  shows "returns (CDC_GetLineEncoding s) ctl0"
proof -
  have c: "ctl_write 0 (Endpoint_ClearSETUP s)" by (rule ctl_ClearSETUP [OF assms])
  have w: "ctl_write 7 (Endpoint_Write_8 c7 (Endpoint_Write_8 c6 (Endpoint_Write_8 c5 (Endpoint_Write_32_LE v t))))"
    if "ctl_write 0 t" for t c5 c6 c7 v
    using that ctl_write_step [of _ _]
    by (simp add: Endpoint_Write_32_LE_def Let_def eval_nat_numeral)
  show ?thesis
    unfolding CDC_GetLineEncoding_def Let_def
    by simp (rule returns_mono [OF spin_INReady_ok [OF ctl0_inv [OF ctl_write_ctl0 [OF c]]]],
        auto intro!: ctl0_ClearStatusStage ctl0_ClearIN ctl_write_ctl0 [OF w] ctl_write0_quiet [OF c])
qed

lemma ctl_read_cdc:
  "ctl_read n s \<Longrightarrow> ctl_read n (s\<lparr>CDC := (CDC s)\<lparr>LineEncoding := l\<rparr>\<rparr>)"
  by (auto simp: ctl_read_def intro: cdc_state_inv)

lemma Read_32_LE_ok:
  assumes "ctl_read 0 s" "Endpoint_Read_32_LE s = (v, s')"
  shows "ctl_read 4 s'"
proof -
  obtain a0 s0 where 0: "Endpoint_Read_8 s = (a0, s0)" by fastforce
  obtain a1 s1 where 1: "Endpoint_Read_8 s0 = (a1, s1)" by fastforce
  obtain a2 s2 where 2: "Endpoint_Read_8 s1 = (a2, s2)" by fastforce
  obtain a3 s3 where 3: "Endpoint_Read_8 s2 = (a3, s3)" by fastforce
  have "ctl_read (Suc 0) s0" using ctl_read_step [OF assms(1) _ 0] by simp
  from ctl_read_step [OF this _ 1] have "ctl_read (Suc (Suc 0)) s1" by simp
  from ctl_read_step [OF this _ 2] have "ctl_read (Suc (Suc (Suc 0))) s2" by simp
  from ctl_read_step [OF this _ 3] have "ctl_read (Suc (Suc (Suc (Suc 0)))) s3" by simp
  then show ?thesis using assms(2) by (simp add: Endpoint_Read_32_LE_def 0 1 2 3 eval_nat_numeral)
qed

lemma ctl_read_ClearOUT: "ctl_read n s \<Longrightarrow> ctl0 (Endpoint_ClearOUT s)"
  using ClearOUT_quiet [of s] ClearOUT_pos [of s]
  by (auto simp: ctl_read_def ctl0_def ep_of_alt dest: quiet_inv split: if_splits)

lemma set_encoding_ok:
  assumes "ctl_read 0 s"
  shows "returns (do {
       let (v, s) = Endpoint_Read_32_LE s;
       let s = s\<lparr>CDC := (CDC s)\<lparr>LineEncoding := (LineEncoding (CDC s))\<lparr>BaudRateBPS := v\<rparr>\<rparr>\<rparr>;
       let (v, s) = Endpoint_Read_8 s;
       let s = s\<lparr>CDC := (CDC s)\<lparr>LineEncoding := (LineEncoding (CDC s))\<lparr>CharFormat := v\<rparr>\<rparr>\<rparr>;
       let (v, s) = Endpoint_Read_8 s;
       let s = s\<lparr>CDC := (CDC s)\<lparr>LineEncoding := (LineEncoding (CDC s))\<lparr>ParityType := v\<rparr>\<rparr>\<rparr>;
       let (v, s) = Endpoint_Read_8 s;
       let s = s\<lparr>CDC := (CDC s)\<lparr>LineEncoding := (LineEncoding (CDC s))\<lparr>DataBits := v\<rparr>\<rparr>\<rparr>;
       s \<leftarrow> Endpoint_ClearStatusStage (Endpoint_ClearOUT s);
       Some (EVENT_CDC_Device_LineEncodingChanged s)
     }) ctl0"
proof -
  obtain v0 s0 where 0: "Endpoint_Read_32_LE s = (v0, s0)" by fastforce
  let ?t0 = "s0\<lparr>CDC := (CDC s0)\<lparr>LineEncoding := (LineEncoding (CDC s0))\<lparr>BaudRateBPS := v0\<rparr>\<rparr>\<rparr>"
  obtain v1 s1 where 1: "Endpoint_Read_8 ?t0 = (v1, s1)" by fastforce
  let ?t1 = "s1\<lparr>CDC := (CDC s1)\<lparr>LineEncoding := (LineEncoding (CDC s1))\<lparr>CharFormat := v1\<rparr>\<rparr>\<rparr>"
  obtain v2 s2 where 2: "Endpoint_Read_8 ?t1 = (v2, s2)" by fastforce
  let ?t2 = "s2\<lparr>CDC := (CDC s2)\<lparr>LineEncoding := (LineEncoding (CDC s2))\<lparr>ParityType := v2\<rparr>\<rparr>\<rparr>"
  obtain v3 s3 where 3: "Endpoint_Read_8 ?t2 = (v3, s3)" by fastforce
  let ?t3 = "s3\<lparr>CDC := (CDC s3)\<lparr>LineEncoding := (LineEncoding (CDC s3))\<lparr>DataBits := v3\<rparr>\<rparr>\<rparr>"
  have "ctl_read 4 ?t0" by (rule ctl_read_cdc [OF Read_32_LE_ok [OF assms 0]])
  from ctl_read_step [OF this _ 1] have "ctl_read 5 ?t1" by (intro ctl_read_cdc) simp
  from ctl_read_step [OF this _ 2] have "ctl_read 6 ?t2" by (intro ctl_read_cdc) simp
  from ctl_read_step [OF this _ 3] have "ctl_read 7 ?t3" by (intro ctl_read_cdc) simp
  from ctl0_ClearStatusStage [OF ctl_read_ClearOUT [OF this]]
  show ?thesis by (simp add: 0 1 2 3 Let_def EVENT_CDC_Device_LineEncodingChanged_def)
qed

lemma SetLineEncoding_ok:
  assumes "ctl s"
  shows "returns (CDC_SetLineEncoding s) ctl0"
proof -
  have c: "ctl0 (Endpoint_ClearSETUP s)" by (rule ctl_write_ctl0 [OF ctl_ClearSETUP [OF assms]])
  have r: "ctl_read 0 t" if "quiet (Endpoint_ClearSETUP s) t" "\<not> is_IN (SelectedEndpoint t)" for t
    using ctl0_quiet [OF c that(1)] that(2) by (simp add: ctl0_def ctl_read_def ep_of_alt)
  show ?thesis
    unfolding CDC_SetLineEncoding_def
    by (simp only: returns_simps) (rule returns_mono [OF wait_OUTReceived_ok [OF ctl0_inv [OF c]]],
        auto intro: ctl0_quiet [OF c] set_encoding_ok [OF r, unfolded Let_def] simp: Let_def)
qed

lemma SetControlLineState_ok: "ctl s \<Longrightarrow> returns (CDC_SetControlLineState s) ctl0"
  unfolding CDC_SetControlLineState_def Let_def
  by simp (rule returns_mono [OF ctl0_ClearStatusStage [OF ctl_write_ctl0 [OF ctl_ClearSETUP]]],
    auto simp: ctl0_def EVENT_CDC_Device_ControLineStateChanged_def intro: cdc_state_inv)

lemma SendBreak_ok: "ctl s \<Longrightarrow> returns (CDC_SendBreak s) ctl0"
  unfolding CDC_SendBreak_def CDC_Device_Event_Stub_def
  by simp (rule returns_mono [OF ctl0_ClearStatusStage [OF ctl_write_ctl0 [OF ctl_ClearSETUP]]], auto)

lemma ctl_num: "ctl s \<Longrightarrow> ep_num (SelectedEndpoint s) = 0"
  by (simp add: ctl_def)

lemma ctl_IsSETUPReceived: "ctl s \<Longrightarrow> Endpoint_IsSETUPReceived s = (r, t) \<Longrightarrow> ctl t \<and> r = setup_flag (hw t)"
  by (meson IsSETUPReceived_quiet IsSETUPReceived_flag ctl_inv ctl_quiet ctl_num)

lemma returns_ctl: "returns m ctl0 \<Longrightarrow> returns m ctl"
  by (auto intro: returns_mono ctl0_ctl)

lemma CDC_ProcessControlRequest_ok:
  assumes "ctl s"
  shows "returns (CDC_Device_ProcessControlRequest s) ctl"
proof -
  obtain r t where q: "Endpoint_IsSETUPReceived s = (r, t)" by fastforce
  have t: "ctl t" using ctl_IsSETUPReceived [OF assms q] by simp
  note ok = returns_ctl [OF GetLineEncoding_ok [OF t]] returns_ctl [OF SetLineEncoding_ok [OF t]]
    returns_ctl [OF SetControlLineState_ok [OF t]] returns_ctl [OF SendBreak_ok [OF t]]
  show ?thesis unfolding CDC_Device_ProcessControlRequest_def Let_def q using t ok by simp
qed

subsection \<open>Standard requests\<close>

text \<open>What the handlers leave behind.\<close>

definition served :: "fw \<Rightarrow> bool" where
  "served s \<longleftrightarrow> usb_inv s \<and> (pos s (EpOUT 0) = 0 \<or> ep_num (SelectedEndpoint s) = 0 \<and> setup_flag (hw s))"

lemma ctl_served: "ctl s \<Longrightarrow> served s"
  by (auto simp: ctl_def served_def)

lemma ctl0_served: "ctl0 s \<Longrightarrow> served s"
  by (simp add: ctl0_def served_def)

lemma returns_served: "returns m ctl0 \<Longrightarrow> returns m served"
  by (auto intro: returns_mono ctl0_served)

lemma ctl0_frames [simp]:
  "ctl0 (s\<lparr>DeviceState := d\<rparr>) = ctl0 s" "ctl0 (s\<lparr>ConfigurationNumber := n\<rparr>) = ctl0 s"
  "ctl0 (USB_Device_EnableDeviceAddress a s) = ctl0 s"
  by (simp_all add: ctl0_def)

lemma SetAddress_ok: "ctl s \<Longrightarrow> returns (USB_Device_SetAddress s) ctl0"
  unfolding USB_Device_SetAddress_def Let_def USB_Device_SetDeviceAddress_def
  by simp (rule returns_mono [OF ctl0_ClearStatusStage [OF ctl_write_ctl0 [OF ctl_ClearSETUP]]], simp,
    rule returns_mono [OF spin_INReady_ok [OF ctl0_inv]], simp, blast intro: ctl0_quiet)

lemma configure_fields:
  assumes "USB_EPPTR (usb (hw s))" "Endpoint_ConfigureEndpoint_PRV a c n s = (ok, t)"
  shows "fault t = fault s" "sched t = sched s" "CDC t = CDC s" "USBtoUSART_Buffer t = USBtoUSART_Buffer s"
    "sel_inv t" "ram (hw t) = ram (hw s)" "scopeBuf (hw t) = scopeBuf (hw s)" "usb (hw t) = usb (hw s)"
    "eptable (hw t) = (eptable (hw s))(ep_of a := \<lparr>EP_STATUS = if is_IN a then USB_EP_BUSNACK0_bm else 0,
       EP_CTRL = c, EP_CNT = 0, EP_DATAPTR = Data (FIFOs s (ep_of a))\<rparr>)"
    "FIFOs t = (FIFOs s)(ep_of a := (FIFOs s (ep_of a))\<lparr>Length := if is_IN a then n else 0, Position := 0\<rparr>)"
  using configure_PRV_eq [OF assms(1), of a c n] assms(2) by (simp_all add: sel_inv_def)

lemma configure_bulk_inv:
  assumes "usb_inv s" "a = 0x83 \<or> a = 0x04 \<or> a = 0x82" "n \<le> 64"
    and "Endpoint_ConfigureEndpoint_PRV a c n s = (ok, t)"
  shows "usb_inv t \<and> pos t (EpOUT 0) = pos s (EpOUT 0) \<and> CDC t = CDC s"
proof -
  note t = configure_fields [OF usb_invD(11) [OF assms(1)] assms(4)]
  consider "ep_of a = EpIN 3" "is_IN a" | "ep_of a = EpOUT 4" "\<not> is_IN a" | "ep_of a = EpIN 2" "is_IN a"
    using assms(2) by (elim disjE) simp_all
  then have "fifo_inv (FIFOs t) \<and> rx_inv (hw t) (pos t (EpOUT 4)) \<and> hw_inv (hw t) \<and> pos t (EpOUT 0) = pos s (EpOUT 0)"
    using usb_invD(3,4,5) [OF assms(1)] assms(3)
    by cases (simp_all add: t(6-10) fifo_inv_def rx_inv_def rx_complete_def rx_count_def hw_inv_def)
  then show ?thesis using usb_invD(1,2,7,8) [OF assms(1)] t(1-5) by (simp add: usb_inv_def)
qed

lemma configure_endpoint_eq:
  assumes "n = 64 \<or> n = 8" "typ \<noteq> EP_TYPE_CONTROL"
  shows "\<exists>c. Endpoint_ConfigureEndpoint a typ n bk s = Some (Endpoint_ConfigureEndpoint_PRV a c (ucast n) s)"
proof -
  have n: "\<not> n > 64" using assms(1) by auto
  obtain m where m: "Endpoint_BytesToEPSizeMask n = Some m" using assms(1) by auto
  have e: "\<not> 16 \<le> unat (a AND ENDPOINT_EPNUM_MASK)" using ep_num_less [of a] by (simp add: ep_num_def)
  show ?thesis
    unfolding Endpoint_ConfigureEndpoint_def ENDPOINT_TOTAL_ENDPOINTS_def Let_def
    by (simp only: m bind.simps n e assms(2) if_False) blast
qed

lemma configure_table_inv:
  assumes "usb_inv s" "Address e = 0x83 \<or> Address e = 0x04 \<or> Address e = 0x82" "Size e = 64 \<or> Size e = 8"
    "Type e \<noteq> EP_TYPE_CONTROL"
  shows "returns (Endpoint_ConfigureEndpointTable [e] s) (\<lambda>(ok, t). usb_inv t \<and>
    pos t (EpOUT 0) = pos s (EpOUT 0) \<and> CDC t = CDC s)"
proof -
  obtain c where c: "Endpoint_ConfigureEndpoint (Address e) (Type e) (Size e) (Banks e) s =
    Some (Endpoint_ConfigureEndpoint_PRV (Address e) c (ucast (Size e)) s)"
    using configure_endpoint_eq [OF assms(3,4)] by blast
  obtain ok t where p: "Endpoint_ConfigureEndpoint_PRV (Address e) c (ucast (Size e)) s = (ok, t)" by fastforce
  have "(ucast (Size e) :: byte) \<le> 64" using assms(3) by auto
  from configure_bulk_inv [OF assms(1,2) this p] show ?thesis using assms(2) by (auto simp: c p)
qed

definition bulk_types :: "USB_ClassInfo_CDC_Device_t \<Rightarrow> USB_ClassInfo_CDC_Device_t" where
  "bulk_types c = (clear_cdc_state c)\<lparr>
     DataINEndpoint := (DataINEndpoint c)\<lparr>Type := EP_TYPE_BULK\<rparr>,
     DataOUTEndpoint := (DataOUTEndpoint c)\<lparr>Type := EP_TYPE_BULK\<rparr>,
     NotificationEndpoint := (NotificationEndpoint c)\<lparr>Type := EP_TYPE_INTERRUPT\<rparr>\<rparr>"

lemma ConfigureEndpoints_alt:
  "CDC_Device_ConfigureEndpoints s =
    (let s = s\<lparr>CDC := bulk_types (CDC s)\<rparr> in do {
       (ok, s) \<leftarrow> Endpoint_ConfigureEndpointTable [DataINEndpoint (CDC s)] s;
       if \<not> ok then Some (False, s) else do {
       (ok, s) \<leftarrow> Endpoint_ConfigureEndpointTable [DataOUTEndpoint (CDC s)] s;
       if \<not> ok then Some (False, s) else do {
       (ok, s) \<leftarrow> Endpoint_ConfigureEndpointTable [NotificationEndpoint (CDC s)] s;
       if \<not> ok then Some (False, s) else Some (True, s)
     }}})"
proof -
  have "(let s = s\<lparr>CDC := clear_cdc_state (CDC s)\<rparr>;
         s = s\<lparr>CDC := (CDC s)\<lparr>DataINEndpoint := (DataINEndpoint (CDC s))\<lparr>Type := EP_TYPE_BULK\<rparr>\<rparr>\<rparr>;
         s = s\<lparr>CDC := (CDC s)\<lparr>DataOUTEndpoint := (DataOUTEndpoint (CDC s))\<lparr>Type := EP_TYPE_BULK\<rparr>\<rparr>\<rparr>
     in s\<lparr>CDC := (CDC s)\<lparr>NotificationEndpoint :=
               (NotificationEndpoint (CDC s))\<lparr>Type := EP_TYPE_INTERRUPT\<rparr>\<rparr>\<rparr>) = s\<lparr>CDC := bulk_types (CDC s)\<rparr>"
    by (simp add: Let_def bulk_types_def clear_cdc_state_def)
  then show ?thesis unfolding CDC_Device_ConfigureEndpoints_def Let_def by simp
qed

lemma ConfigureEndpoints_ok:
  assumes "usb_inv s"
  shows "returns (CDC_Device_ConfigureEndpoints s) (\<lambda>(ok, t). usb_inv t \<and> pos t (EpOUT 0) = pos s (EpOUT 0))"
proof -
  let ?s = "s\<lparr>CDC := bulk_types (CDC s)\<rparr>"
  have i: "usb_inv ?s"
    using assms by (simp add: usb_inv_def sel_inv_def cdc_inv_def bulk_types_def clear_cdc_state_def)
  have t: "Type (DataINEndpoint (CDC ?s)) \<noteq> EP_TYPE_CONTROL" "Type (DataOUTEndpoint (CDC ?s)) \<noteq> EP_TYPE_CONTROL"
    "Type (NotificationEndpoint (CDC ?s)) \<noteq> EP_TYPE_CONTROL"
    by (simp_all add: bulk_types_def ep_consts)
  have a: "Address (DataINEndpoint (CDC ?s)) = 0x83" "Size (DataINEndpoint (CDC ?s)) = 64"
    "Address (DataOUTEndpoint (CDC ?s)) = 0x04" "Size (DataOUTEndpoint (CDC ?s)) = 64"
    "Address (NotificationEndpoint (CDC ?s)) = 0x82" "Size (NotificationEndpoint (CDC ?s)) = 8"
    using usb_invD(7) [OF i] unfolding cdc_inv_def by blast+
  define c where "c = CDC ?s"
  have 1: "returns (Endpoint_ConfigureEndpointTable [DataINEndpoint c] t) (\<lambda>(ok, u). usb_inv u \<and> pos u (EpOUT 0) = pos t (EpOUT 0) \<and> CDC u = CDC t)"
    "returns (Endpoint_ConfigureEndpointTable [DataOUTEndpoint c] t) (\<lambda>(ok, u). usb_inv u \<and> pos u (EpOUT 0) = pos t (EpOUT 0) \<and> CDC u = CDC t)"
    "returns (Endpoint_ConfigureEndpointTable [NotificationEndpoint c] t) (\<lambda>(ok, u). usb_inv u \<and> pos u (EpOUT 0) = pos t (EpOUT 0) \<and> CDC u = CDC t)"
    if "usb_inv t" for t
    using t a unfolding c_def [symmetric] by (intro configure_table_inv [OF that]; simp)+
  have c: "CDC ?s = c" by (simp add: c_def)
  have p: "pos ?s (EpOUT 0) = pos s (EpOUT 0)" by simp
  show ?thesis
    unfolding ConfigureEndpoints_alt Let_def returns_simps c p [symmetric]
    by (rule returns_mono [OF 1(1) [OF i]]; simp only: split_paired_all prod.case c;
        simp del: Endpoint_ConfigureEndpointTable.simps;
        intro impI; rule returns_mono [OF 1(2)]; simp del: Endpoint_ConfigureEndpointTable.simps add: split_paired_all;
        intro impI; rule returns_mono [OF 1(3)]; auto)
qed

lemma SetConfiguration_ok:
  assumes "ctl s"
  shows "returns (USB_Device_SetConfiguration s) served"
proof -
  let ?t = "(Endpoint_ClearSETUP s)\<lparr>ConfigurationNumber := ucast (wValue (ControlRequest (Endpoint_ClearSETUP s)))\<rparr>"
  have t: "ctl0 ?t" using ctl_write_ctl0 [OF ctl_ClearSETUP [OF assms]] by simp
  have e: "returns (EVENT_USB_Device_ConfigurationChanged u) served" if "ctl0 u" for u
    unfolding EVENT_USB_Device_ConfigurationChanged_def
    by simp (rule returns_mono [OF ConfigureEndpoints_ok [OF ctl0_inv [OF that]]],
      use that in \<open>auto simp: served_def ctl0_def\<close>)
  have "returns (Endpoint_ClearStatusStage ?t) (\<lambda>s. returns (EVENT_USB_Device_ConfigurationChanged
      (if ConfigurationNumber s \<noteq> 0 then s\<lparr>DeviceState := DEVICE_STATE_Configured\<rparr>
       else s\<lparr>DeviceState := (if USB_Device_IsAddressSet s then DEVICE_STATE_Configured else DEVICE_STATE_Powered)\<rparr>)) served)"
    by (rule returns_mono [OF ctl0_ClearStatusStage [OF t]], rule e) simp
  then show ?thesis
    using ctl_served [OF assms] unfolding USB_Device_SetConfiguration_def Let_def by simp
qed

lemma GetConfiguration_ok: "ctl s \<Longrightarrow> returns (USB_Device_GetConfiguration s) ctl0"
  unfolding USB_Device_GetConfiguration_def Let_def
  by (intro ctl0_ClearStatusStage ctl0_ClearIN ctl_write_ctl0 [OF ctl_write_step [OF ctl_ClearSETUP]]) simp_all

lemma set_NVM_quiet: "usb_inv s \<Longrightarrow> quiet s (set_NVM_CMD c s)"
  by (simp add: set_NVM_CMD_def quiet_def setup_flag_def)

lemma serial_loop_ok:
  "serial_loop n k a s = (cs, t) \<Longrightarrow> length cs = n \<and> quiet s t \<or> \<not> usb_inv s"
proof (induction n arbitrary: k a s cs t)
  case 0
  then show ?case by (auto intro: quiet_refl)
next
  case (Suc n)
  let ?s = "set_NVM_CMD 0 (set_NVM_CMD NVM_CMD_READ_CALIB_ROW_gc s)"
  have q: "usb_inv s \<Longrightarrow> quiet s ?s" by (meson set_NVM_quiet quiet_trans quiet_inv)
  obtain k' a' c cs' where "serial_loop n k' a' ?s = (cs', t)" "cs = c # cs'"
    using Suc.prems by (auto simp: Let_def split: prod.splits if_splits)
  with Suc.IH [of k' a' ?s cs' t] q show ?case using quiet_trans quiet_inv by (metis length_Cons)
qed

lemma irq_quiet: "usb_inv s \<Longrightarrow> quiet s (irq s)"
  using irq_inv [of s] by (auto simp: quiet_def undisturbed_def was_reset_def)

lemma mask_quiet: "usb_inv s \<Longrightarrow> quiet s (SetGlobalInterruptMask en s)"
  using irq_quiet [of "s\<lparr>sreg_I := en\<rparr>"] by (simp add: SetGlobalInterruptMask_def quiet_def)

lemma GetSerialString_ok:
  assumes "usb_inv s" "USB_Device_GetSerialString s = (cs, t)"
  shows "length cs = 28 \<and> quiet s t"
proof -
  obtain u where u: "serial_loop (INTERNAL_SERIAL_LENGTH_BITS div 4) 0 INTERNAL_SERIAL_START_ADDRESS
      (GlobalInterruptDisable s) = (cs, u)" and t: "t = SetGlobalInterruptMask (sreg_I s) u"
    using assms(2) by (auto simp: USB_Device_GetSerialString_def Let_def split: prod.splits)
  have d: "quiet s (GlobalInterruptDisable s)"
    using assms(1) by (simp add: GlobalInterruptDisable_def quiet_def)
  have n: "INTERNAL_SERIAL_LENGTH_BITS div 4 = 28"
    by (simp add: INTERNAL_SERIAL_LENGTH_BITS_def offset_COORDY1_def offset_LOTNUM0_def)
  have "length cs = 28" "quiet (GlobalInterruptDisable s) u"
    using serial_loop_ok [OF u] quiet_inv [OF d] unfolding n by auto
  then show ?thesis using quiet_trans [OF d quiet_trans] mask_quiet [OF quiet_inv] t by blast
qed

lemma string_bytes_length: "length (string_bytes d) = 2 + 2 * length (str_UnicodeString d)"
  by (simp add: string_bytes_def hdr_bytes_def bytes16_def length_concat comp_def sum_list_triv)

lemma image_lengths:
  "length (device_bytes DeviceDescriptor) = 18" "length (configuration_bytes ConfigurationDescriptor) = 62"
  by (simp_all add: device_bytes_def configuration_bytes_def hdr_bytes_def bytes16_def cfg_header_bytes_def
      interface_bytes_def endpoint_bytes_def fheader_bytes_def acm_bytes_def union_bytes_def)

lemma string_sizes:
  "hdr_Size (str_Header LanguageString) = 4" "hdr_Size (str_Header ManufacturerString) = 24"
  "hdr_Size (str_Header ProductString) = 46"
  by code_simp+

lemma GetInternalSerial_ok:
  assumes "ctl s"
  shows "returns (USB_Device_GetInternalSerialDescriptor s) ctl0"
proof -
  obtain cs t where t: "USB_Device_GetSerialString s = (cs, t)" by fastforce
  have cs: "length cs = 28" "ctl t" using GetSerialString_ok [OF ctl_inv [OF assms] t] ctl_quiet [OF assms] by auto
  have n: "INTERNAL_SERIAL_LENGTH_BITS div 4 = 28"
    by (simp add: INTERNAL_SERIAL_LENGTH_BITS_def offset_COORDY1_def offset_LOTNUM0_def)
  have c: "ctl0 (Endpoint_ClearSETUP t)" by (rule ctl_write_ctl0 [OF ctl_ClearSETUP [OF cs(2)]])
  show ?thesis
    unfolding USB_Device_GetInternalSerialDescriptor_def t Let_def prod.case n
      Endpoint_Write_Control_Stream_LE_def returns_simps
    by (rule returns_mono [OF control_W_ok [OF c]]) (auto simp: string_bytes_length cs(1) intro: ctl0_ClearOUT)
qed

lemma descriptor_fits:
  assumes "CALLBACK_USB_GetDescriptor v i = (p, n)"
  shows "unat n \<le> length (case p of None \<Rightarrow> [] | Some bs \<Rightarrow> bs)"
proof -
  have s: "sizeof_Device = 18" "sizeof_Configuration = 62" by code_simp+
  have u: "length (str_UnicodeString LanguageString) = 1" "length (str_UnicodeString ManufacturerString) = 12"
    "length (str_UnicodeString ProductString) = 23" by code_simp+
  show ?thesis
    using assms
    by (auto simp: CALLBACK_USB_GetDescriptor_def Let_def NO_DESCRIPTOR_def image_lengths string_sizes
        string_bytes_length s u split: if_splits)
qed

lemma GetDescriptor_ok:
  assumes "ctl s"
  shows "returns (USB_Device_GetDescriptor s) ctl"
proof -
  obtain p n where p: "CALLBACK_USB_GetDescriptor (wValue (ControlRequest s)) (wIndex (ControlRequest s)) = (p, n)"
    by fastforce
  have c: "ctl0 (Endpoint_ClearSETUP s)" by (rule ctl_write_ctl0 [OF ctl_ClearSETUP [OF assms]])
  have "returns (control_W_template offset_LE 1 (case p of None \<Rightarrow> [] | Some bs \<Rightarrow> bs) n (Endpoint_ClearSETUP s))
    (\<lambda>x. ctl (Endpoint_ClearOUT (snd x)))"
    by (rule returns_mono [OF control_W_ok [OF c descriptor_fits [OF p]]]) (auto intro!: ctl0_ctl ctl0_ClearOUT)
  then show ?thesis
    using assms returns_ctl [OF GetInternalSerial_ok [OF assms]]
    unfolding USB_Device_GetDescriptor_def Let_def p Endpoint_Write_Control_PStream_LE_def
    by (simp add: case_prod_beta del: string_sizes)
qed

lemma select_control: "usb_inv s \<Longrightarrow> ctl_write 0 (Endpoint_ClearSETUP (Endpoint_SelectEndpoint ENDPOINT_CONTROLEP s))"
  by (rule ctl0_ClearSETUP) (simp_all add: ENDPOINT_CONTROLEP_def)

lemma GetStatus_ok:
  assumes "ctl s"
  shows "returns (USB_Device_GetStatus s) ctl"
proof -
  have r: "returns (Endpoint_ClearStatusStage (Endpoint_ClearIN (Endpoint_Write_16_LE v t))) ctl"
    if "ctl_write 0 t" for v t
  proof -
    have "ctl_write (Suc (Suc 0)) (Endpoint_Write_16_LE v t)"
      unfolding Endpoint_Write_16_LE_def by (intro ctl_write_step that) simp_all
    then show ?thesis by (intro returns_ctl ctl0_ClearStatusStage ctl0_ClearIN ctl_write_ctl0)
  qed
  show ?thesis
    unfolding USB_Device_GetStatus_def Let_def
    using assms r [OF ctl_ClearSETUP [OF assms]] r [OF select_control [OF select_inv [OF ctl_inv [OF assms]]]]
    by simp
qed

lemma ResetEndpoint_inv: "usb_inv s \<Longrightarrow> usb_inv (Endpoint_ResetEndpoint a s)"
  by (auto simp: Endpoint_ResetEndpoint_def Let_def usb_inv_def sel_inv_def fifo_inv_def rx_inv_def)

lemma ClearSetFeature_ok:
  assumes "ctl s"
  shows "returns (USB_Device_ClearSetFeature s) ctl"
proof -
  have fin: "returns (Endpoint_ClearStatusStage (Endpoint_ClearSETUP (Endpoint_SelectEndpoint ENDPOINT_CONTROLEP t))) ctl"
    if "usb_inv t" for t
    by (intro returns_ctl ctl0_ClearStatusStage ctl_write_ctl0 [OF select_control [OF that]])
  have i: "usb_inv (Endpoint_SelectEndpoint a s)" for a using ctl_inv [OF assms] by simp
  have st: "usb_inv (Endpoint_StallTransaction (Endpoint_SelectEndpoint a s))" for a
    by (rule quiet_inv [OF Stall_quiet [OF i]])
  have cl: "usb_inv (Endpoint_ClearStall (Endpoint_SelectEndpoint a s))" for a
    unfolding Endpoint_ClearStall_def by (rule quiet_inv [OF CTRL_quiet [OF i]])
  have tg: "usb_inv (Endpoint_ResetDataToggle t)" if "usb_inv t" for t
    unfolding Endpoint_ResetDataToggle_def
    by (rule quiet_inv [OF handle_quiet [OF that]]) (simp_all add: ep_masks and.assoc)
  show ?thesis
    unfolding USB_Device_ClearSetFeature_def Let_def Endpoint_IsEnabled_def
    using assms fin [OF ctl_inv [OF assms]] fin [OF st] fin [OF tg [OF ResetEndpoint_inv [OF cl]]]
    by simp
qed

lemma dispatch_ok:
  assumes "ctl s"
  shows "returns (dispatch_standard s) served"
proof -
  have s: "returns m ctl \<Longrightarrow> returns m served" for m by (auto intro: returns_mono ctl_served)
  note ok = s [OF GetStatus_ok [OF assms]] s [OF ClearSetFeature_ok [OF assms]] s [OF GetDescriptor_ok [OF assms]]
    returns_served [OF SetAddress_ok [OF assms]] returns_served [OF GetConfiguration_ok [OF assms]]
    SetConfiguration_ok [OF assms] ctl_served [OF assms]
  show ?thesis
    unfolding dispatch_standard_def Let_def by (intro returns_if ok returns_simps(2) [THEN iffD2])
qed

subsection \<open>The control endpoint task\<close>

lemma read_bytes_ok:
  assumes "ctl_read k s" "k + n \<le> 8" "read_bytes n s = (bs, t)"
  shows "ctl_read (k + n) t \<and> hw t = hw s"
  using assms
proof (induction n arbitrary: k s bs t)
  case 0
  then show ?case by simp
next
  case (Suc n)
  obtain b u where u: "Endpoint_Read_8 s = (b, u)" by fastforce
  obtain bs' where "read_bytes n u = (bs', t)" using Suc.prems(3) by (auto simp: u split: prod.splits)
  moreover have "ctl_read (Suc k) u" "hw u = hw s" using ctl_read_step [OF Suc.prems(1) _ u] Suc.prems(2) by auto
  ultimately show ?case using Suc.IH [of "Suc k" u bs' t] Suc.prems(2) by simp
qed

definition idle :: "fw \<Rightarrow> bool" where
  "idle s \<longleftrightarrow> usb_inv s \<and> pos s (EpOUT 0) = 0"

lemma idle_quiet: "idle s \<Longrightarrow> quiet s t \<Longrightarrow> idle t"
  using quiet_inv [of s t] quiet_pos0 [of s t] by (simp add: idle_def)

lemma acknowledge_ok:
  assumes "served s" "Endpoint_IsSETUPReceived s = (r, t)"
  shows "idle (if r then Endpoint_StallTransaction (Endpoint_ClearSETUP t) else t)"
proof -
  have i: "usb_inv s" using assms(1) by (simp add: served_def)
  have q: "quiet s t" using IsSETUPReceived_quiet [OF i assms(2)] by simp
  note c = ClearSETUP_quiet [OF quiet_inv [OF q]]
  have st: "quiet (Endpoint_ClearSETUP t) (Endpoint_StallTransaction (Endpoint_ClearSETUP t))"
    by (rule Stall_quiet) (use c quiet_inv in blast)
  show ?thesis
  proof (cases "pos s (EpOUT 0) = 0")
    case True
    then have "idle s" using i by (simp add: idle_def)
    then show ?thesis using idle_quiet q c st by (metis (full_types))
  next
    case False
    then have f: "ep_num (SelectedEndpoint s) = 0" "setup_flag (hw s)" using assms(1) by (auto simp: served_def)
    have n: "ep_num (SelectedEndpoint t) = 0" by (rule quiet_control [OF q f(1)])
    have r: "r = setup_flag (hw t)" by (rule IsSETUPReceived_flag [OF i assms(2) f(1)])
    show ?thesis
    proof (cases r)
      case True
      have "idle (Endpoint_ClearSETUP t)" using c n quiet_inv by (auto simp: idle_def)
      then show ?thesis using idle_quiet [OF _ st] True by simp
    next
      case False
      then show ?thesis using r q f(2) by (auto simp: idle_def quiet_def)
    qed
  qed
qed

lemma ProcessControlRequest_ok:
  assumes "ctl_read 0 s" "setup_flag (hw s)"
  shows "returns (USB_Device_ProcessControlRequest s) idle"
proof -
  obtain bs t where t: "read_bytes 8 s = (bs, t)" by fastforce
  have c: "ctl (t\<lparr>ControlRequest := request_of_bytes bs\<rparr>)"
    using read_bytes_ok [OF assms(1) _ t] assms(2)
    by (auto simp: ctl_def ctl_read_def ep_of_alt split: if_splits)
  have rest: "returns (do {
       let (r, s) = Endpoint_IsSETUPReceived u;
       s \<leftarrow> (if r then dispatch_standard s else Some s);
       let (r, s) = Endpoint_IsSETUPReceived s;
       Some (if r then Endpoint_StallTransaction (Endpoint_ClearSETUP s) else s)
     }) idle" if "ctl u" for u
  proof -
    obtain r v where v: "Endpoint_IsSETUPReceived u = (r, v)" by fastforce
    have "ctl v" using ctl_IsSETUPReceived [OF that v] by simp
    then have "returns (if r then dispatch_standard v else Some v) served"
      using dispatch_ok ctl_served by simp
    then show ?thesis
      unfolding v Let_def prod.case returns_simps
      by (rule returns_mono) (auto dest: acknowledge_ok split: prod.split)
  qed
  show ?thesis
    unfolding USB_Device_ProcessControlRequest_def t Let_def prod.case EVENT_USB_Device_ControlRequest_def
    by (simp only: returns_simps)
      (rule returns_mono [OF CDC_ProcessControlRequest_ok [OF c]], rule rest [unfolded Let_def returns_simps])
qed

lemma DeviceTask_ok:
  assumes "idle s"
  shows "returns (USB_DeviceTask s) idle"
proof -
  have p: "idle (poll s)" using idle_quiet [OF assms poll_quiet] assms by (simp add: idle_def)
  define u where "u = Endpoint_SelectEndpoint ENDPOINT_CONTROLEP (poll s)"
  have u: "ctl u" using p by (simp add: u_def idle_def ctl_def ENDPOINT_CONTROLEP_def)
  have iu: "idle u" using p by (simp add: u_def idle_def)
  obtain r v where v: "Endpoint_IsSETUPReceived u = (r, v)" by fastforce
  have q: "quiet u v" "\<not> is_IN (SelectedEndpoint v)" using IsSETUPReceived_quiet [OF ctl_inv [OF u] v] by auto
  have c: "ctl v" "r = setup_flag (hw v)" using ctl_IsSETUPReceived [OF u v] by auto
  have i: "idle v" by (rule idle_quiet [OF iu q(1)])
  have "ctl_read 0 v" using c(1) i q(2) by (simp add: ctl_read_def ctl_def idle_def ep_of_alt)
  then have "returns (if r then USB_Device_ProcessControlRequest v else Some v) idle"
    using ProcessControlRequest_ok c(2) i by simp
  then have "returns (if r then USB_Device_ProcessControlRequest v else Some v)
    (\<lambda>t. idle (Endpoint_SelectEndpoint (Endpoint_GetCurrentEndpoint (poll s)) t))"
    by (rule returns_mono) (simp add: idle_def)
  then show ?thesis
    unfolding USB_DeviceTask_def Let_def u_def [symmetric] v prod.case using p by simp
qed

end
