(* ===== verification/SerialSafety.thy ===== *)
theory SerialSafety
  imports RequestSafety
begin

text \<open>
  The serial port keeps the invariant: the flush and send operations of the class driver, the
  receive path into the ring buffer, and the blocking calls the application uses.
\<close>

unbundle bit_operations_syntax

subsection \<open>The class driver\<close>

lemma idle_inv: "idle s \<Longrightarrow> usb_inv s"
  by (simp add: idle_def)

lemma tx_idle: "tx s \<Longrightarrow> idle s"
  by (simp add: tx_def idle_def)

lemma select_tx: "idle s \<Longrightarrow> tx (Endpoint_SelectEndpoint (Address (DataINEndpoint (CDC s))) s)"
  using usb_invD(12) [OF idle_inv, of s] by (simp add: idle_def tx_def ep_num_def ep_consts)

lemma Flush_ok:
  assumes "idle s"
  shows "returns (CDC_Device_Flush s) (\<lambda>x. idle (snd x))"
proof -
  let ?s = "Endpoint_SelectEndpoint (Address (DataINEndpoint (CDC s))) s"
  have t: "tx ?s" by (rule select_tx [OF assms])
  have w: "returns (Endpoint_WaitUntilReady (Endpoint_ClearIN ?s))
    (\<lambda>x. (fst x \<noteq> NoError \<longrightarrow> idle (snd x)) \<and> (fst x = NoError \<longrightarrow> idle (Endpoint_ClearIN (snd x))))"
    by (rule returns_mono [OF tx_WaitUntilReady [OF tx_ClearIN [OF t]]]) (auto intro: tx_idle tx_ClearIN)
  show ?thesis
    unfolding CDC_Device_Flush_def Let_def
    using assms tx_idle [OF t] tx_idle [OF tx_ClearIN [OF t]] w by (simp add: case_prod_beta)
qed

lemma idle_IsINReady: "idle s \<Longrightarrow> Endpoint_IsINReady s = (r, t) \<Longrightarrow> idle t"
  using IsINReady_quiet idle_quiet idle_inv by blast

lemma CDC_USBTask_ok:
  assumes "idle s"
  shows "returns (CDC_Device_USBTask s) idle"
proof -
  obtain r t where t: "Endpoint_IsINReady (Endpoint_SelectEndpoint (Address (DataINEndpoint (CDC s))) s) = (r, t)"
    by fastforce
  have i: "idle t" by (rule idle_IsINReady [OF tx_idle [OF select_tx [OF assms]] t])
  from Flush_ok [OF i] show ?thesis
    unfolding CDC_Device_USBTask_def Let_def t using assms i by (simp add: case_prod_beta)
qed

lemma serial_tasks_ok: "idle s \<Longrightarrow> returns (serial_tasks s) idle"
  unfolding serial_tasks_def USB_USBTask_def
  by simp (rule returns_mono [OF CDC_USBTask_ok], auto intro: DeviceTask_ok)

lemma SendByte_ok:
  assumes "idle s"
  shows "returns (CDC_Device_SendByte v s) (\<lambda>x. idle (snd x))"
proof -
  let ?s = "Endpoint_SelectEndpoint (Address (DataINEndpoint (CDC s))) s"
  have t: "tx ?s" by (rule select_tx [OF assms])
  have a: "Address (DataINEndpoint (CDC s)) = 0x83" by (rule usb_invD(12) [OF idle_inv [OF assms]])
  have z: "pos (Endpoint_ClearIN ?s) (EpIN 3) = 0" using ClearIN_pos [OF tx_inv [OF t]] a by simp
  have n: "ep_num (SelectedEndpoint (Endpoint_ClearIN ?s)) = 3" using a by (simp add: ep_num_def ep_consts)
  have room: "tx (Endpoint_Write_8 v u)"
    if u: "quiet (Endpoint_ClearIN ?s) u" "is_IN (SelectedEndpoint u)" for u
  proof -
    have "tx u" using tx_quiet [OF tx_ClearIN [OF t] u(1)] u(2) t by (simp add: tx_def)
    moreover have "pos u (ep_of (SelectedEndpoint u)) = 0"
      using u quiet_pos0 [OF u(1) z] n by (auto simp: quiet_def ep_of_alt)
    moreover have "0 < IN_room (ep_of (SelectedEndpoint u))"
      using tx_sel [OF \<open>tx u\<close>] by (auto simp: IN_room_def)
    ultimately show ?thesis by (intro tx_Write_8) simp_all
  qed
  have i: "is_IN (SelectedEndpoint ?s)" using t by (simp add: tx_def)
  have w: "returns (Endpoint_WaitUntilReady (Endpoint_ClearIN ?s))
    (\<lambda>x. (fst x \<noteq> NoError \<longrightarrow> idle (snd x)) \<and> (fst x = NoError \<longrightarrow> idle (Endpoint_Write_8 v (snd x))))"
    by (rule returns_mono [OF WaitUntilReady_ok [OF tx_inv [OF tx_ClearIN [OF t]]]])
       (use i in \<open>auto intro: tx_idle [OF room] idle_quiet [OF tx_idle [OF tx_ClearIN [OF t]]]\<close>)
  show ?thesis
    unfolding CDC_Device_SendByte_def Let_def
    using assms tx_idle [OF tx_Write_8 [OF t allowed_room [OF t]]] w by (simp add: case_prod_beta)
qed

lemma SendData_ok:
  assumes "idle s" "unat n \<le> length buf"
  shows "returns (CDC_Device_SendData buf n s) (\<lambda>x. idle (snd x))"
proof -
  have "returns (Endpoint_Write_Stream_LE buf n None (Endpoint_SelectEndpoint (Address (DataINEndpoint (CDC s))) s))
    (\<lambda>x. idle (snd (snd (snd x))))"
    by (rule returns_mono [OF Write_Stream_LE_ok [OF select_tx [OF assms(1)] assms(2)]]) (auto intro: tx_idle)
  then show ?thesis unfolding CDC_Device_SendData_def using assms(1) by (simp add: case_prod_beta)
qed

text \<open>Receiving: a packet is taken from the buffer of the data endpoint.\<close>

definition rx :: "fw \<Rightarrow> bool" where
  "rx s \<longleftrightarrow> idle s \<and> ep_of (SelectedEndpoint s) = EpOUT 4 \<and> rx_complete (hw s) \<and>
     Length (FIFOs s (EpOUT 4)) = ucast (rx_count (hw s))"

lemma IsOUTReceived_eq:
  assumes "poll s = u" "USB_EPPTR (usb (hw u))" "SelectedEndpoint u AND NOT ENDPOINT_DIR_IN = a"
  shows "Endpoint_IsOUTReceived s =
    (if EP_STATUS (eptable (hw u) (ep_of a)) AND USB_EP_TRNCOMPL0_bm \<noteq> 0
     then (True, upd_FIFO (Length_update (\<lambda>_. ucast (EP_CNT (eptable (hw u) (ep_of a))))) (Endpoint_SelectEndpoint a u))
     else (False, Endpoint_SelectEndpoint a u))"
  using assms(2)
  by (simp add: Endpoint_IsOUTReceived_def Let_def assms(1,3) Handle_def Endpoint_SelectEndpoint_def)

lemma IsOUTReceived_rx:
  assumes "idle s" "SelectedEndpoint s = 4" "Endpoint_IsOUTReceived s = (r, t)"
  shows "idle t \<and> (r \<longrightarrow> rx t)"
proof -
  define u where "u = poll s"
  have i: "idle t"
    by (rule idle_quiet [OF assms(1) IsOUTReceived_quiet [OF idle_inv [OF assms(1)] assms(3), THEN conjunct1]])
  have p: "usb_inv u" "undisturbed s u \<or> was_reset s u"
    using poll_inv [OF idle_inv [OF assms(1)]] by (auto simp: u_def)
  note eq = IsOUTReceived_eq [OF u_def [symmetric] usb_invD(11) [OF p(1)] refl]
  have "rx t" if r
  proof -
    have "\<not> was_reset s u"
    proof
      assume "was_reset s u"
      then have z: "SelectedEndpoint u AND NOT ENDPOINT_DIR_IN = 0" "EP_STATUS (eptable (hw u) (ep_of 0)) = 0"
        by (simp_all add: was_reset_def)
      show False using assms(3) that unfolding eq z by simp
    qed
    then have sel: "SelectedEndpoint u AND NOT ENDPOINT_DIR_IN = 4"
      using p(2) assms(2) by (simp add: undisturbed_def ep_consts)
    have c: "rx_complete (hw u)"
      and t: "t = upd_FIFO (Length_update (\<lambda>_. ucast (rx_count (hw u)))) (Endpoint_SelectEndpoint 4 u)"
      using assms(3) that unfolding eq sel rx_complete_def rx_count_def by (simp_all split: if_splits)
    have "ep_of (SelectedEndpoint t) = EpOUT 4" "hw t = hw u"
      "Length (FIFOs t (EpOUT 4)) = ucast (rx_count (hw u))"
      unfolding t by (simp_all add: upd_FIFO_def)
    then show ?thesis using i c by (simp add: rx_def)
  qed
  then show ?thesis using i by blast
qed

lemma rx_bytes:
  assumes "rx s"
  shows "Endpoint_BytesInEndpoint s = rx_count (hw s) - ucast (pos s (EpOUT 4))"
proof -
  have i: "usb_inv s" using assms by (simp add: rx_def idle_def)
  have c: "rx_count (hw s) \<le> 64" using usb_invD(3) [OF i] by (simp add: hw_inv_def)
  have f: "FIFO s = FIFOs s (EpOUT 4)" using usb_invD(10) [OF i] assms by (simp add: rx_def FIFO_def)
  have n: "\<not> is_IN (SelectedEndpoint s)" using assms by (auto simp: rx_def ep_of_alt split: if_splits)
  have "unat (ucast (rx_count (hw s)) :: byte) = unat (rx_count (hw s))"
    using c by (simp add: unsigned_ucast_eq take_bit_nat_eq_self word_le_nat_alt)
  then have "(ucast (ucast (rx_count (hw s)) :: byte) :: u16) = rx_count (hw s)"
    by (simp add: word_unat_eq_iff)
  then show ?thesis using assms n by (simp add: Endpoint_BytesInEndpoint_def f rx_def)
qed

lemma rx_Read_8:
  assumes "rx s" "Endpoint_BytesInEndpoint s \<noteq> 0" "Endpoint_Read_8 s = (v, t)"
  shows "rx t"
proof -
  have i: "usb_inv s" using assms by (simp add: rx_def idle_def)
  have e: "SelectedFIFO s = Some (EpOUT 4)" using usb_invD(10) [OF i] assms(1) by (simp add: rx_def)
  have c: "unat (rx_count (hw s)) \<le> 64" using usb_invD(3) [OF i] by (simp add: hw_inv_def word_le_nat_alt)
  have "unat (pos s (EpOUT 4)) \<le> unat (rx_count (hw s))"
    using usb_invD(5) [OF i] assms(1) by (simp add: rx_inv_def rx_def)
  moreover have "unat (pos s (EpOUT 4)) \<noteq> unat (rx_count (hw s))"
  proof
    assume "unat (pos s (EpOUT 4)) = unat (rx_count (hw s))"
    then have "(ucast (pos s (EpOUT 4)) :: u16) = rx_count (hw s)" by (simp add: word_unat_eq_iff)
    then show False using assms(2) rx_bytes [OF assms(1)] by simp
  qed
  ultimately have lt: "unat (pos s (EpOUT 4)) < unat (rx_count (hw s))" by simp
  have l: "length (ram (hw s) Out_fifo) = 64" "Data (FIFOs s (EpOUT 4)) = Some Out_fifo"
    using usb_invD(3,4) [OF i] by (simp_all add: hw_inv_def fifo_inv_def)
  have t: "t = s\<lparr>FIFOs := (FIFOs s)(EpOUT 4 := (FIFOs s (EpOUT 4))\<lparr>Position := pos s (EpOUT 4) + 1\<rparr>)\<rparr>"
    using Read_8_eq [OF e l(2)] lt c l(1) assms(3) by simp
  have p: "unat (pos s (EpOUT 4) + 1) = Suc (unat (pos s (EpOUT 4)))"
    using lt c by (simp add: unat_word_ariths)
  show ?thesis
    using assms(1) i lt p unfolding t rx_def idle_def usb_inv_def sel_inv_def fifo_inv_def
    by (simp add: rx_inv_def)
qed

lemma rx_idle: "rx s \<Longrightarrow> idle s"
  by (simp add: rx_def)

lemma ReceiveByte_ok:
  assumes "idle s" "CDC_Device_ReceiveByte s = (v, t)"
  shows "idle t"
proof (cases "cdc_down s")
  case True
  then show ?thesis using assms by (simp add: CDC_Device_ReceiveByte_def)
next
  case False
  define u where "u = Endpoint_SelectEndpoint (Address (DataOUTEndpoint (CDC s))) s"
  have u: "idle u" "SelectedEndpoint u = 4"
    using assms(1) usb_invD(13) [OF idle_inv [OF assms(1)]] by (simp_all add: u_def idle_def)
  obtain r w where w: "Endpoint_IsOUTReceived u = (r, w)" by fastforce
  have iw: "idle w" "r \<Longrightarrow> rx w" using IsOUTReceived_rx [OF u w] by auto
  obtain b x where x: "Endpoint_Read_8 w = (b, x)" by fastforce
  have cl: "rx y \<Longrightarrow> idle (if Endpoint_BytesInEndpoint y = 0 then Endpoint_ClearOUT y else y)" for y
    using idle_quiet [OF rx_idle ClearOUT_quiet [OF idle_inv [OF rx_idle]]] by (simp add: rx_idle)
  have rx: "r \<Longrightarrow> Endpoint_BytesInEndpoint w \<noteq> 0 \<Longrightarrow> rx x" by (rule rx_Read_8 [OF iw(2) _ x])
  consider "t = w" | "r" "Endpoint_BytesInEndpoint w \<noteq> 0" "t = (if Endpoint_BytesInEndpoint x = 0 then Endpoint_ClearOUT x else x)"
    | "r" "t = (if Endpoint_BytesInEndpoint w = 0 then Endpoint_ClearOUT w else w)"
    using assms(2) False unfolding CDC_Device_ReceiveByte_def Let_def u_def [symmetric] w
    by (auto simp: x split: if_splits)
  then show ?thesis
    by cases (simp_all only: iw(1) cl [OF rx] cl [OF iw(2)] simp_thms)
qed

subsection \<open>The serial port\<close>

lemma select_data_IN_idle: "idle s \<Longrightarrow> idle (select_data_IN s)"
  by (simp add: select_data_IN_def idle_def)

lemma put_char_loop_ok:
  assumes "idle s"
  shows "returns (put_char_loop v b s) idle"
proof -
  have "put_char_loop v b s = Some y \<Longrightarrow> idle s \<longrightarrow> idle y" for v b s y
  proof (erule put_char_loop.raw_induct [rotated])
    fix f :: "byte \<Rightarrow> bool \<Rightarrow> fw \<Rightarrow> fw option" and v b s y
    assume IH: "\<And>v b s y. f v b s = Some y \<Longrightarrow> idle s \<longrightarrow> idle y"
      and eq: "(if DeviceState s = DEVICE_STATE_Configured \<and> ok_to_send s \<and> b
        then (case Endpoint_IsINReady (select_data_IN s) of (r, s) \<Rightarrow>
          if r then CDC_Device_SendByte v s \<bind> (\<lambda>(_, s). serial_tasks s \<bind> f v False)
          else serial_tasks s \<bind> f v b)
        else Some s) = Some y"
    show "idle s \<longrightarrow> idle y"
    proof
      assume s: "idle s"
      obtain r t where t: "Endpoint_IsINReady (select_data_IN s) = (r, t)" by fastforce
      have it: "idle t" by (rule idle_IsINReady [OF select_data_IN_idle [OF s] t])
      have tk: "returns (serial_tasks u \<bind> f v c) idle" if "idle u" for u c
        using IH by (simp, intro returns_mono [OF serial_tasks_ok [OF that]]) (auto simp: returns_def)
      have send: "returns (CDC_Device_SendByte v t \<bind> (\<lambda>(_, s). serial_tasks s \<bind> f v False)) idle"
        unfolding returns_simps(3) [of "CDC_Device_SendByte v t"] case_prod_beta
        by (rule returns_mono [OF SendByte_ok [OF it]]) (rule tk)
      show "idle y"
        by (rule returnsD [OF _ eq [unfolded t prod.case]], intro returns_if send tk it) (simp add: s)
    qed
  qed
  then show ?thesis using assms by (auto simp: returns_def)
qed

lemma put_char_ok: "idle s \<Longrightarrow> returns (USB_serial_put_char v s) idle"
  unfolding USB_serial_put_char_def by (rule put_char_loop_ok)

fun buf_fits :: "buffer \<Rightarrow> nat \<Rightarrow> bool" where
  "buf_fits (Static bs) n \<longleftrightarrow> n \<le> length bs"
| "buf_fits (ScopeBuf i) n \<longleftrightarrow> i + n \<le> SCOPE_SIZE"

lemma buf_fits_bytes: "usb_inv s \<Longrightarrow> buf_fits b n \<Longrightarrow> n \<le> length (buf_bytes b s)"
  using usb_invD(3) [of s] by (cases b) (auto simp: hw_inv_def)

lemma buf_fits_add: "buf_fits b n \<Longrightarrow> k \<le> n \<Longrightarrow> buf_fits (buf_add b k) (n - k)"
  by (cases b) auto

lemma put_buf_ok:
  assumes "idle s" "buf_fits b (unat n)"
  shows "returns (USB_serial_put_buf b n s) idle"
proof -
  have "USB_serial_put_buf b n s = Some y \<Longrightarrow> idle s \<and> buf_fits b (unat n) \<longrightarrow> idle y" for b n s y
  proof (erule USB_serial_put_buf.raw_induct [rotated])
    fix f :: "buffer \<Rightarrow> u16 \<Rightarrow> fw \<Rightarrow> fw option" and b n s y
    assume IH: "\<And>b n s y. f b n s = Some y \<Longrightarrow> idle s \<and> buf_fits b (unat n) \<longrightarrow> idle y"
      and eq: "(if DeviceState s = DEVICE_STATE_Configured \<and> ok_to_send s \<and> n > 0
        then (case Endpoint_IsINReady (select_data_IN s) of (r, s) \<Rightarrow>
          if r then let toSend = min n (CDC_RX_EPSIZE - 1) in
            CDC_Device_SendData (buf_bytes b s) toSend s \<bind> (\<lambda>(_, s). serial_tasks s \<bind>
              f (buf_add b (unat toSend)) (n - toSend))
          else serial_tasks s \<bind> f b n)
        else Some s) = Some y"
    show "idle s \<and> buf_fits b (unat n) \<longrightarrow> idle y"
    proof (intro impI, elim conjE)
      assume s: "idle s" and fits: "buf_fits b (unat n)"
      obtain r t where t: "Endpoint_IsINReady (select_data_IN s) = (r, t)" by fastforce
      have it: "idle t" by (rule idle_IsINReady [OF select_data_IN_idle [OF s] t])
      have tk: "returns (serial_tasks u \<bind> f c m) idle" if "idle u" "buf_fits c (unat m)" for u c m
        using IH that(2) by (simp, intro returns_mono [OF serial_tasks_ok [OF that(1)]]) (auto simp: returns_def)
      define k where "k = min n (CDC_RX_EPSIZE - 1)"
      have k: "k \<le> n" "unat k \<le> unat n" by (simp_all add: k_def word_le_nat_alt [symmetric])
      have "buf_fits b (unat k)" using fits k by (cases b) auto
      then have len: "unat k \<le> length (buf_bytes b t)" by (rule buf_fits_bytes [OF idle_inv [OF it]])
      have rest: "buf_fits (buf_add b (unat k)) (unat (n - k))"
        using buf_fits_add [OF fits k(2)] k(1) by (simp add: unat_sub)
      have send: "returns (CDC_Device_SendData (buf_bytes b t) k t \<bind> (\<lambda>(_, s). serial_tasks s \<bind>
          f (buf_add b (unat k)) (n - k))) idle"
        unfolding returns_simps(3) [of "CDC_Device_SendData (buf_bytes b t) k t"] case_prod_beta
        by (rule returns_mono [OF SendData_ok [OF it len]]) (rule tk [OF _ rest])
      show "idle y"
        by (rule returnsD [OF _ eq [unfolded t prod.case Let_def k_def [symmetric]]],
            intro returns_if send tk it fits) (simp add: s)
    qed
  qed
  then show ?thesis using assms by (auto simp: returns_def)
qed

subsection \<open>Receiving from the serial port\<close>

lemma ring_basic [simp]:
  "USBtoUSART_Buffer (raise_fault s) = USBtoUSART_Buffer s"
  "USBtoUSART_Buffer (Endpoint_SelectEndpoint a s) = USBtoUSART_Buffer s"
  "USBtoUSART_Buffer (upd_Handle f s) = USBtoUSART_Buffer s"
  "USBtoUSART_Buffer (upd_FIFO g s) = USBtoUSART_Buffer s"
  "USBtoUSART_Buffer (upd_table e f s) = USBtoUSART_Buffer s"
  by (simp_all add: raise_fault_def Endpoint_SelectEndpoint_def upd_Handle_def upd_FIFO_def upd_table_def
      split: option.splits)

lemma ring_configure_PRV: "USBtoUSART_Buffer (snd (Endpoint_ConfigureEndpoint_PRV a c n s)) = USBtoUSART_Buffer s"
  by (simp add: Endpoint_ConfigureEndpoint_PRV_def Let_def)

lemma ring_configure_control: "USBtoUSART_Buffer (configure_control_endpoint s) = USBtoUSART_Buffer s"
  using ring_configure_PRV
  by (simp add: configure_control_endpoint_def Endpoint_ConfigureEndpoint_def ep_consts Let_def case_prod_beta)

lemma ring_clear_endpoints: "USBtoUSART_Buffer (Endpoint_ClearEndpoints s) = USBtoUSART_Buffer s"
proof -
  have "USBtoUSART_Buffer (fold (\<lambda>n s. upd_table (EpOUT n) (EP_CTRL_update (\<lambda>_. 0))
      (upd_table (EpIN n) (EP_CTRL_update (\<lambda>_. 0)) s)) ns s) = USBtoUSART_Buffer s" for ns
    by (induction ns arbitrary: s) simp_all
  then show ?thesis by (simp add: Endpoint_ClearEndpoints_def)
qed

lemma ring_isr: "USBtoUSART_Buffer (ISR_USB_BUSEVENT_vect s) = USBtoUSART_Buffer s"
  by (simp add: ISR_USB_BUSEVENT_vect_def isr_Reset_def isr_Resume_def isr_Suspend_def isr_SOFI_def Let_def
      ring_configure_control ring_clear_endpoints USB_Device_EnableDeviceAddress_def USB_Event_Stub_def
      EVENT_USB_Device_Connect_def EVENT_USB_Device_Disconnect_def)

lemma ring_poll [simp]: "USBtoUSART_Buffer (poll s) = USBtoUSART_Buffer s"
  by (simp add: poll_def irq_def ring_isr split: list.splits)

lemma ring_IsOUTReceived: "Endpoint_IsOUTReceived s = (r, t) \<Longrightarrow> USBtoUSART_Buffer t = USBtoUSART_Buffer s"
  by (auto simp: Endpoint_IsOUTReceived_def Let_def split: if_splits)

lemma ring_Read_8: "Endpoint_Read_8 s = (v, t) \<Longrightarrow> USBtoUSART_Buffer t = USBtoUSART_Buffer s"
  by (auto simp: Endpoint_Read_8_def Let_def split: option.splits)

lemma ring_ClearOUT [simp]: "USBtoUSART_Buffer (Endpoint_ClearOUT s) = USBtoUSART_Buffer s"
  by (simp add: Endpoint_ClearOUT_def Let_def)

lemma ring_ReceiveByte:
  assumes "CDC_Device_ReceiveByte s = (v, t)"
  shows "USBtoUSART_Buffer t = USBtoUSART_Buffer s"
proof -
  define u where "u = Endpoint_SelectEndpoint (Address (DataOUTEndpoint (CDC s))) s"
  obtain r w where w: "Endpoint_IsOUTReceived u = (r, w)" by fastforce
  obtain b x where x: "Endpoint_Read_8 w = (b, x)" by fastforce
  have "t \<in> {s, w, x, Endpoint_ClearOUT x, Endpoint_ClearOUT w}"
    using assms unfolding CDC_Device_ReceiveByte_def Let_def u_def [symmetric] w
    by (auto simp: x split: if_splits)
  moreover have "USBtoUSART_Buffer u = USBtoUSART_Buffer s" by (simp add: u_def)
  ultimately show ?thesis using ring_IsOUTReceived [OF w] ring_Read_8 [OF x] by auto
qed

lemma ring_update_inv: "idle s \<Longrightarrow> rb_invar b \<Longrightarrow> idle (s\<lparr>USBtoUSART_Buffer := b\<rparr>)"
  by (simp add: idle_def usb_inv_def sel_inv_def)

lemma serial_receive_ok:
  assumes "idle s"
  shows "idle (serial_receive s)"
proof -
  obtain v t where t: "CDC_Device_ReceiveByte s = (v, t)" by fastforce
  have it: "idle t" by (rule ReceiveByte_ok [OF assms t])
  have ring: "rb_invar (USBtoUSART_Buffer t)" by (rule usb_invD(8) [OF idle_inv [OF it]])
  have "idle (ring_insert b t)" if "\<not> RingBuffer_IsFull (USBtoUSART_Buffer s)" for b
  proof -
    have "\<not> RingBuffer_IsFull (USBtoUSART_Buffer t)" using that ring_ReceiveByte [OF t] by simp
    from rb_insert_ok [OF ring this, of b] show ?thesis
      using ring_update_inv [OF it] by (auto simp: ring_insert_def)
  qed
  then show ?thesis using assms it by (simp add: serial_receive_def t)
qed

lemma get_char_loop_ok:
  assumes "idle s"
  shows "returns (get_char_loop s) (\<lambda>t. idle t \<and> \<not> RingBuffer_IsEmpty (USBtoUSART_Buffer t))"
proof -
  have "get_char_loop s = Some y \<Longrightarrow> idle s \<longrightarrow> idle y \<and> \<not> RingBuffer_IsEmpty (USBtoUSART_Buffer y)" for s y
  proof (erule get_char_loop.raw_induct [rotated])
    fix f :: "fw \<Rightarrow> fw option" and s y
    assume IH: "\<And>s y. f s = Some y \<Longrightarrow> idle s \<longrightarrow> idle y \<and> \<not> RingBuffer_IsEmpty (USBtoUSART_Buffer y)"
      and eq: "(if RingBuffer_IsEmpty (USBtoUSART_Buffer s) then serial_tasks (serial_receive s) \<bind> f
        else Some s) = Some y"
    show "idle s \<longrightarrow> idle y \<and> \<not> RingBuffer_IsEmpty (USBtoUSART_Buffer y)"
    proof
      assume s: "idle s"
      have tk: "returns (serial_tasks (serial_receive s) \<bind> f) (\<lambda>t. idle t \<and> \<not> RingBuffer_IsEmpty (USBtoUSART_Buffer t))"
        using IH by (simp, intro returns_mono [OF serial_tasks_ok [OF serial_receive_ok [OF s]]]) (auto simp: returns_def)
      show "idle y \<and> \<not> RingBuffer_IsEmpty (USBtoUSART_Buffer y)"
        by (rule returnsD [OF _ eq], intro returns_if tk) (simp add: s)
    qed
  qed
  then show ?thesis using assms by (auto simp: returns_def)
qed

lemma get_char_ok:
  assumes "idle s"
  shows "returns (USB_serial_get_char s) (\<lambda>x. idle (snd x))"
proof -
  have "idle (snd (case RingBuffer_Peek (USBtoUSART_Buffer t) of
             None \<Rightarrow> (0, raise_fault t)
           | Some ret \<Rightarrow> (case RingBuffer_Remove (USBtoUSART_Buffer t) of
                 None \<Rightarrow> (ret, raise_fault t)
               | Some (_, b) \<Rightarrow> (ret, t\<lparr>USBtoUSART_Buffer := b\<rparr>))))"
    if "idle t \<and> \<not> RingBuffer_IsEmpty (USBtoUSART_Buffer t)" for t
  proof -
    have ring: "rb_invar (USBtoUSART_Buffer t)" using usb_invD(8) [OF idle_inv] that by blast
    show ?thesis
      using that rb_peek_ok [OF ring] rb_remove_ok [OF ring] by (auto simp: ring_update_inv)
  qed
  then show ?thesis
    unfolding USB_serial_get_char_def returns_simps by (rule returns_mono [OF get_char_loop_ok [OF assms]])
qed


end
