(* ===== verification/ScopeSafety.thy ===== *)
theory ScopeSafety
  imports SerialSafety
begin

text \<open>
  Memory safety of the application. The locale \<open>poll_stable\<close> carries a property of the USB
  state through the peripheral drivers, which only touch registers the USB stack does not look
  at; \<open>serial_port\<close> adds the contract of the serial calls and carries it through the command
  loop. The first is interpreted on the state before the stack is started, the second on the
  invariant of the running stack.
\<close>

unbundle bit_operations_syntax

subsection \<open>The peripherals\<close>

text \<open>What the USB stack does not look at is blanked.\<close>

definition usb_view :: "fw \<Rightarrow> fw" where
  "usb_view s = s\<lparr>sreg_I := False, hw := (hw s)\<lparr>FrameNum := 0, adca := undefined, dma := undefined,
     tcd0 := undefined, tcc2 := undefined, porta := undefined, portc := undefined, portd := undefined,
     usartc0 := undefined, usartd1 := undefined, sys := undefined\<rparr>\<rparr>"

lemma view_adc [simp]:
  "usb_view (adc_calibrate c s) = usb_view s" "usb_view (adc_enable en s) = usb_view s"
  "usb_view (adc_refsel r s) = usb_view s" "usb_view (adc_bandgap en s) = usb_view s"
  "usb_view (adc_sweep r s) = usb_view s" "usb_view (adc_evsel r s) = usb_view s"
  "usb_view (adc_evact r s) = usb_view s" "usb_view (adc_prescaler r s) = usb_view s"
  "usb_view (adc_intflags r s) = usb_view s" "usb_view (upd_CH0 f s) = usb_view s"
  "usb_view (upd_adca g s) = usb_view s" "usb_view (upd_porta h s) = usb_view s"
  by (simp_all add: usb_view_def adc_calibrate_def adc_enable_def adc_refsel_def adc_bandgap_def adc_sweep_def
      adc_evsel_def adc_evact_def adc_prescaler_def adc_intflags_def)

lemma view_regs [simp]:
  "usb_view (upd_dma d s) = usb_view s" "usb_view (upd_tcd0 t s) = usb_view s" "usb_view (upd_tcc2 c s) = usb_view s"
  "usb_view (upd_sys y s) = usb_view s" "usb_view (GlobalInterruptDisable s) = usb_view s"
  "usb_view (upd_port p h s) = usb_view s" "usb_view (upd_usart u k s) = usb_view s"
  by (cases p; cases u; simp add: usb_view_def GlobalInterruptDisable_def)+

lemma view_adc_init [simp]: "usb_view (adc_init b s) = usb_view s"
  unfolding adc_init_def Let_def by (simp only: view_adc if_distrib [of usb_view] if_cancel)

lemma view_trigger [simp]: "usb_view (trigger_init c s) = usb_view s"
  unfolding trigger_init_def Let_def by (simp only: view_adc view_regs)

lemma view_hires [simp]:
  "usb_view (hires_init s) = usb_view s" "usb_view (hires_stop_timer s) = usb_view s"
  "usb_view (hires_set_counter n s) = usb_view s" "usb_view (hires_set_period n s) = usb_view s"
  "usb_view (hires_set_compare n s) = usb_view s" "usb_view (power_reduction s) = usb_view s"
  unfolding hires_init_def Let_def hires_stop_timer_def hires_set_counter_def hires_set_period_def
    hires_set_compare_def power_reduction_def by (simp_all only: view_regs)

lemma view_usart_init [simp]: "usb_view (usart_init c s) = usb_view s"
  unfolding usart_init_def Let_def by (simp only: view_regs)

locale poll_stable =
  fixes P :: "fw \<Rightarrow> bool"
  assumes poll: "P s \<Longrightarrow> P (poll s)"
    and mask: "P s \<Longrightarrow> P (SetGlobalInterruptMask en s)"
    and view: "usb_view t = usb_view s \<Longrightarrow> P s \<Longrightarrow> P t"
begin

lemma osc_wait_P: "P s \<Longrightarrow> returns (osc_wait rdy s) P"
  by (erule returns_loopI)
     (erule osc_wait.raw_induct [rotated], auto simp: Let_def dest: poll split: if_splits)

lemma dma_reset_wait_P: "P s \<Longrightarrow> returns (dma_reset_wait s) P"
  by (erule returns_loopI)
     (erule dma_reset_wait.raw_induct [rotated], auto simp: Let_def dest: poll split: if_splits)

lemma dma_start_wait_P: "P s \<Longrightarrow> returns (dma_start_wait s) P"
  by (erule returns_loopI)
     (erule dma_start_wait.raw_induct [rotated], auto simp: Let_def dest: poll split: if_splits)

lemma overflow_wait_P: "P s \<Longrightarrow> returns (overflow_wait s) P"
  by (erule returns_loopI)
     (erule overflow_wait.raw_induct [rotated], auto simp: Let_def dest: poll split: if_splits)

lemma compare_wait_P: "P s \<Longrightarrow> returns (compare_wait s) P"
  by (erule returns_loopI)
     (erule compare_wait.raw_induct [rotated], auto simp: Let_def dest: poll split: if_splits)

lemma usart_dre_wait_P: "P s \<Longrightarrow> returns (usart_dre_wait u s) P"
  by (erule returns_loopI)
     (erule usart_dre_wait.raw_induct [rotated], auto simp: Let_def dest: poll split: if_splits)

lemma usart_txc_wait_P: "P s \<Longrightarrow> returns (usart_txc_wait u s) P"
  by (erule returns_loopI)
     (erule usart_txc_wait.raw_induct [rotated], auto simp: Let_def dest: poll split: if_splits)

lemma usart_rxc_wait_P: "P s \<Longrightarrow> returns (usart_rxc_wait u s) P"
  by (erule returns_loopI)
     (erule usart_rxc_wait.raw_induct [rotated], auto simp: Let_def dest: poll split: if_splits)

lemma trigger_loop_P: "P s \<Longrightarrow> P (snd (trigger_loop n s))"
proof (induction n s rule: trigger_loop.induct)
  case (1 n s)
  then show ?case by (subst trigger_loop.simps) (auto dest: poll)
qed

lemma trigger_wait_P:
  assumes "P s"
  shows "returns (trigger_wait n d s) (\<lambda>x. P (snd x))"
proof -
  have "returns (let (timeout, s) = trigger_loop n t; s = upd_dma (DMA_CH2_update (DCH_TRIGSRC_update (\<lambda>_. 0))) s
     in if timeout = 0 then Some (1, upd_tcd0 (TC_CTRLA_update (\<lambda>_. 0)) s)
        else do {
          s \<leftarrow> overflow_wait s;
          Some (0, upd_tcd0 (TC_CTRLA_update (\<lambda>_. 0)) s)
        }) (\<lambda>x :: byte \<times> fw. P (snd x))" if "P t" for t
  proof -
    obtain m w where w: "trigger_loop n t = (m, w)" by fastforce
    define u where "u = upd_dma (DMA_CH2_update (DCH_TRIGSRC_update (\<lambda>_. 0))) w"
    have u: "P u"
      unfolding u_def by (rule view [OF view_regs(1)]) (use trigger_loop_P [OF that, of n] w in simp)
    have "P (upd_tcd0 (TC_CTRLA_update (\<lambda>_. 0)) w)" if "P w" for w by (rule view [OF view_regs(2) that])
    then show ?thesis
      unfolding w prod.case Let_def u_def [symmetric]
      by (intro returns_if) (use u in \<open>auto intro: returns_mono [OF overflow_wait_P]\<close>)
  qed
  from this [OF view [OF _ assms]] show ?thesis
    unfolding trigger_wait_def Let_def by (simp only: view_adc view_regs)
qed

lemma hires_glitch_P:
  assumes "P s"
  shows "returns (hires_glitch s) P"
  unfolding hires_glitch_def Let_def returns_simps
  by (rule returns_mono [OF compare_wait_P [OF view [OF _ assms]]])
     (simp only: view_regs, erule view [rotated], rule view_hires)

lemma dmaadc_init_P:
  assumes "P s"
  shows "returns (dmaadc_init b s) P"
  unfolding dmaadc_init_def Let_def returns_simps
  by (rule returns_mono [OF dma_reset_wait_P [OF view [OF _ assms]]])
     (simp only: view_regs, erule view [rotated], simp only: view_regs if_distrib [of usb_view] if_cancel)

lemma dmaadc_read:
  assumes "P s"
  shows "returns (dmaadc_read_buf_ch0 a n b s) P"
  unfolding dmaadc_read_buf_ch0_def Let_def returns_simps
  by (rule returns_mono [OF dma_start_wait_P [OF view [OF _ assms]]])
     (simp only: view_regs view_adc, drule mask, erule view [rotated], simp only: view_adc)

lemma usart_put_char_P:
  assumes "P s"
  shows "returns (usart_put_char c v s) P"
  unfolding usart_put_char_def Let_def returns_simps
  by (rule returns_mono [OF usart_dre_wait_P [OF assms]])
     (rule usart_txc_wait_P, erule view [rotated], simp only: view_regs)

lemma usart_put_string: "P s \<Longrightarrow> 0 \<in> set cs \<Longrightarrow> returns (usart_put_string_P_internal c cs s) P"
proof (induction cs arbitrary: s)
  case Nil
  then show ?case by simp
next
  case (Cons b cs)
  then show ?case by simp (intro impI, rule returns_mono [OF usart_put_char_P], auto)
qed

lemma glitch_loop_P: "P s \<Longrightarrow> returns (glitch_loop n s) P"
proof (induction n arbitrary: s)
  case 0
  then show ?case by simp
next
  case (Suc n)
  have "P (hires_set_counter 0 s)" by (rule view [OF view_hires(3) Suc.prems])
  from returns_mono [OF hires_glitch_P [OF this]] show ?case using Suc.IH by simp
qed

lemma clock_init_P:
  assumes "P s"
  shows "returns (clock_init s) P"
proof -
  have y: "P (upd_sys f t)" if "P t" for f t by (rule view [OF view_regs(4) that])
  show ?thesis
    unfolding clock_init_def Let_def returns_simps
    by (rule returns_mono [OF osc_wait_P [OF y [OF assms]]], rule returns_mono [OF osc_wait_P],
        (rule y)+, assumption, rule returns_mono [OF osc_wait_P], rule y, assumption, rule y, assumption)
qed

end

subsection \<open>The command loop\<close>

locale serial_port = poll_stable +
  assumes put_char: "P s \<Longrightarrow> returns (USB_serial_put_char v s) P"
    and get_char: "P s \<Longrightarrow> returns (USB_serial_get_char s) (\<lambda>x. P (snd x))"
    and put_buf: "P s \<Longrightarrow> buf_fits b (unat n) \<Longrightarrow> returns (USB_serial_put_buf b n s) P"
    and fill: "P s \<Longrightarrow> P (fill_scopeBuf v s)"
begin

definition loop_inv :: "scope_vars \<times> fw \<Rightarrow> bool" where
  "loop_inv x \<longleftrightarrow> P (snd x) \<and> unat (numberOfSamples (fst x)) \<le> SCOPE_SIZE"

lemma get_short: "P s \<Longrightarrow> returns (USB_serial_get_short s) (\<lambda>x. P (snd x))"
  unfolding USB_serial_get_short_def returns_simps case_prod_beta
  by (rule returns_mono [OF get_char], assumption, rule returns_mono [OF get_char]) auto

lemma put_string: "P s \<Longrightarrow> 0 \<in> set cs \<Longrightarrow> returns (USB_serial_put_string_P_internal cs s) P"
proof (induction cs arbitrary: s)
  case Nil
  then show ?case by simp
next
  case (Cons c cs)
  then show ?case by simp (intro impI, rule returns_mono [OF put_char], auto)
qed

lemma cstring_end: "0 \<in> set (cstring str)"
  by (simp add: cstring_def)

lemma reply_P: "loop_inv (v, s) \<Longrightarrow> returns (reply c v s) loop_inv"
  unfolding reply_def put_def returns_simps
  by (rule returns_mono [OF put_char]) (simp_all add: loop_inv_def)

lemma reply_view: "loop_inv (v, s) \<Longrightarrow> usb_view t = usb_view s \<Longrightarrow> returns (reply c v t) loop_inv"
  by (rule reply_P) (auto simp: loop_inv_def intro: view)

lemma loop_fst: "loop_inv (v, s) \<Longrightarrow> P t \<Longrightarrow> loop_inv (v, t)"
  by (simp add: loop_inv_def)

lemma loop_P: "loop_inv (v, s) \<Longrightarrow> P s"
  by (simp add: loop_inv_def)

lemma cmd_args:
  assumes "loop_inv (v, s)"
  shows "returns (cmd_gain v s) loop_inv" "returns (cmd_clock v s) loop_inv" "returns (cmd_bias v s) loop_inv"
    "returns (cmd_delay v s) loop_inv" "returns (cmd_length v s) loop_inv" "returns (cmd_timeout v s) loop_inv"
    "returns (cmd_pulses v s) loop_inv"
proof -
  note c = returns_mono [OF get_char [OF loop_P [OF assms]]]
  note h = returns_mono [OF get_short [OF loop_P [OF assms]]]
  have v: "loop_inv (v', t)" if "P t" "numberOfSamples v' = numberOfSamples v" for v' t
    using assms that by (simp add: loop_inv_def)
  show "returns (cmd_gain v s) loop_inv" "returns (cmd_clock v s) loop_inv"
    unfolding cmd_gain_def cmd_clock_def returns_simps case_prod_beta
    by (rule c, erule reply_view [OF loop_fst [OF assms]], simp only: view_adc)+
  show "returns (cmd_bias v s) loop_inv"
    unfolding cmd_bias_def returns_simps case_prod_beta
    by (rule h, erule reply_view [OF loop_fst [OF assms]], simp only: view_adc)
  show "returns (cmd_delay v s) loop_inv" "returns (cmd_length v s) loop_inv" "returns (cmd_timeout v s) loop_inv"
    unfolding cmd_delay_def cmd_length_def cmd_timeout_def returns_simps case_prod_beta
    by (rule h, rule reply_P, erule v, simp)+
  show "returns (cmd_pulses v s) loop_inv"
    unfolding cmd_pulses_def returns_simps case_prod_beta
    by (rule c, rule reply_P, erule v, simp)
qed

lemma cmd_samples_P:
  assumes "loop_inv (v, s)"
  shows "returns (cmd_samples v s) loop_inv"
  unfolding cmd_samples_def returns_simps case_prod_beta
proof (rule returns_mono [OF get_short [OF loop_P [OF assms]]], rule returns_if, goal_cases)
  case (1 x)
  have "returns (USB_serial_put_string_P_internal (cstring (''Buffer too big'' @ crlf)) (snd x)) (\<lambda>t. loop_inv (v, t))"
    by (rule returns_mono [OF put_string [OF 1(1) cstring_end]]) (rule loop_fst [OF assms])
  then show ?case by simp
next
  case (2 x)
  then show ?case by (intro reply_P) (simp add: loop_inv_def)
qed

lemma cmd_bits_P:
  assumes "loop_inv (v, s)"
  shows "returns (cmd_bits lk v s) loop_inv"
  unfolding cmd_bits_def Let_def returns_simps case_prod_beta
  by (rule returns_mono [OF get_char [OF loop_P [OF assms]]], erule returns_mono [OF dmaadc_init_P],
      rule reply_P, rule loop_inv_def [THEN iffD2], rule conjI, simp only: snd_conv, erule view [OF view_trigger],
      use assms in \<open>simp add: loop_inv_def\<close>)

lemma cmd_switch:
  assumes "loop_inv (v, s)"
  shows "returns (cmd_off v s) loop_inv" "returns (cmd_on v s) loop_inv"
  unfolding cmd_off_def cmd_on_def Let_def by (rule reply_view [OF assms], simp only: view_regs)+

lemma cmd_trigger:
  assumes "loop_inv (v, s)"
  shows "returns (cmd_dma_arm lk v s) loop_inv" "returns (cmd_fault v s) loop_inv" "returns (cmd_hires v s) loop_inv"
proof -
  note P = loop_P [OF assms]
  show "returns (cmd_dma_arm lk v s) loop_inv"
    unfolding cmd_dma_arm_def put_def returns_simps case_prod_beta
    by (rule returns_mono [OF put_char [OF fill [OF P]]], erule returns_mono [OF trigger_wait_P],
        erule returns_mono [OF dmaadc_read], erule reply_P [OF loop_fst [OF assms]])
  show "returns (cmd_fault v s) loop_inv"
    unfolding cmd_fault_def put_def returns_simps case_prod_beta
    by (rule returns_mono [OF put_char [OF P]], erule returns_mono [OF trigger_wait_P], erule reply_P [OF loop_fst [OF assms]])
  show "returns (cmd_hires v s) loop_inv"
    unfolding cmd_hires_def put_def Let_def returns_simps case_prod_beta
    by (rule returns_mono [OF put_char [OF view [OF _ P]]], simp only: view_hires, erule returns_mono [OF trigger_wait_P],
        erule returns_mono [OF glitch_loop_P], erule reply_P [OF loop_fst [OF assms]])
qed

lemma cmd_fetch:
  assumes "loop_inv (v, s)"
  shows "returns (cmd_sample_fetch v s) loop_inv"
  unfolding cmd_sample_fetch_def returns_simps
  by (rule returns_mono [OF put_buf [OF loop_P [OF assms]]])
     (use assms in \<open>auto simp: loop_inv_def\<close>)

lemma cmd_unknown:
  assumes "loop_inv (v, s)"
  shows "returns (cmd_invalid c v s) loop_inv"
  unfolding cmd_invalid_def returns_simps
  by (rule returns_mono [OF put_string [OF loop_P [OF assms] cstring_end]], erule returns_mono [OF put_char],
      erule returns_mono [OF put_string [OF _ cstring_end]], erule loop_fst [OF assms])

lemma dispatch:
  assumes "loop_inv (v, s)"
  shows "returns (scope_dispatch lk c v s) loop_inv"
  unfolding scope_dispatch_def
  by (intro returns_if reply_P cmd_args cmd_samples_P cmd_bits_P cmd_switch cmd_trigger cmd_fetch cmd_unknown assms)

lemma step:
  assumes "loop_inv (v, s)"
  shows "returns (scope_step lk v s) loop_inv"
  unfolding scope_step_def returns_simps case_prod_beta
  by (rule returns_mono [OF get_char [OF loop_P [OF assms]]]) (rule dispatch [OF loop_fst [OF assms]])

lemma reach:
  assumes "scope_reach lk s0 x" "returns (scope_init lk s0) loop_inv"
  shows "loop_inv x"
  using assms(1)
proof induction
  case (start x)
  then show ?case using returnsD [OF assms(2)] by blast
next
  case (turn v s x)
  then show ?case using returnsD [OF step] by blast
qed

end

subsection \<open>Before the USB stack is started\<close>

definition pre_usb :: "fw \<Rightarrow> bool" where
  "pre_usb s \<longleftrightarrow> \<not> fault s \<and> list_all hw_ok (sched s) \<and> (\<forall>b. length (ram (hw s) b) = ram_size b) \<and>
     length (scopeBuf (hw s)) = SCOPE_SIZE \<and> rx_count (hw s) \<le> 64 \<and> USB_INTCTRLA (usb (hw s)) = 0 \<and>
     FIFOs s = (\<lambda>_. fifo_zero) \<and> CDC s = VirtualSerial_CDC_Interface \<and>
     length (rb_Data (USBtoUSART_Buffer s)) = 5"

lemma irq_off:
  "USB_INTCTRLA (usb (hw s)) AND USB_BUSEVIE_bm = 0 \<Longrightarrow> USB_INTCTRLA (usb (hw s)) AND USB_SOFIE_bm = 0 \<Longrightarrow> irq s = s"
  by (simp add: irq_def bus_event_pending_def)

lemma pre_usb_irq: "pre_usb s \<Longrightarrow> irq s = s"
  by (rule irq_off) (simp_all add: pre_usb_def)

lemma pre_usb_step:
  assumes "pre_usb s" "sched s = h # hs"
  shows "pre_usb (s\<lparr>hw := h (hw s), sched := hs\<rparr>)"
proof -
  have "hw_ok h" using assms by (simp add: pre_usb_def)
  note h = this [unfolded hw_ok_def, rule_format, of "hw s"]
  have "rx_count (h (hw s)) \<le> 64" using h assms(1) by (auto simp: pre_usb_def)
  then show ?thesis using h assms by (simp add: pre_usb_def)
qed

lemma pre_usb_view: "pre_usb (usb_view s) = pre_usb s"
  by (simp add: pre_usb_def usb_view_def rx_count_def)

interpretation boot: poll_stable pre_usb
proof
  show "pre_usb (poll s)" if "pre_usb s" for s
    using that pre_usb_irq pre_usb_step by (cases "sched s") (auto simp: poll_def)
  show "pre_usb (SetGlobalInterruptMask en s)" if "pre_usb s" for en s
  proof -
    have "pre_usb (s\<lparr>sreg_I := en\<rparr>)" using that by (simp add: pre_usb_def)
    then show ?thesis by (simp add: SetGlobalInterruptMask_def pre_usb_irq)
  qed
  show "pre_usb t" if "usb_view t = usb_view s" "pre_usb s" for s t
    using that pre_usb_view by metis
qed

lemma idle_view: "idle (usb_view s) = idle s"
  by (simp add: idle_def usb_inv_def sel_inv_def usb_view_def hw_inv_def rx_inv_def rx_complete_def rx_count_def)

lemma fill_idle: "idle s \<Longrightarrow> idle (fill_scopeBuf v s)"
  by (simp add: fill_scopeBuf_def idle_def usb_inv_def sel_inv_def hw_inv_def rx_inv_def rx_complete_def rx_count_def)

interpretation serial: serial_port idle
proof
  show "idle (poll s)" if "idle s" for s by (rule idle_quiet [OF that poll_quiet [OF idle_inv [OF that]]])
  show "idle (SetGlobalInterruptMask en s)" if "idle s" for en s
    by (rule idle_quiet [OF that mask_quiet [OF idle_inv [OF that]]])
  show "idle t" if "usb_view t = usb_view s" "idle s" for s t using that idle_view by metis
qed (fact put_char_ok get_char_ok put_buf_ok fill_idle)+

subsection \<open>Starting the USB stack\<close>

definition usb_core :: "fw \<Rightarrow> bool" where
  "usb_core s \<longleftrightarrow> \<not> fault s \<and> list_all hw_ok (sched s) \<and> hw_inv (hw s) \<and> fifo_inv (FIFOs s) \<and>
     pos s (EpOUT 4) = 0 \<and> cdc_inv (CDC s) \<and> length (rb_Data (USBtoUSART_Buffer s)) = 5"

lemma core_regs:
  assumes "usb_core s" "\<And>u. USB_EPPTR (f u) = USB_EPPTR u"
  shows "usb_core (upd_usb f s)"
  using assms by (simp add: usb_core_def hw_inv_def rx_count_def)

lemma core_sys: "usb_core s \<Longrightarrow> usb_core (upd_sys g s)"
  by (simp add: usb_core_def hw_inv_def rx_count_def)

lemma core_control:
  assumes "usb_core s"
  shows "usb_core (configure_control_endpoint s) \<and> sel_inv (configure_control_endpoint s) \<and>
    pos (configure_control_endpoint s) (EpOUT 0) = 0"
proof -
  have p: "USB_EPPTR (usb (hw s))" using assms by (simp add: usb_core_def hw_inv_def)
  show ?thesis
    using assms unfolding configure_control_endpoint_eq [OF p]
    by (simp add: usb_core_def hw_inv_def fifo_inv_def rx_count_def sel_inv_def control_reset_def)
qed

lemma core_idle:
  assumes "usb_core s" "sel_inv s" "pos s (EpOUT 0) = 0"
  shows "idle (s\<lparr>USBtoUSART_Buffer := RingBuffer_InitBuffer (rb_Data (USBtoUSART_Buffer s)) USBtoUSART_Buffer_Size\<rparr>)"
  using assms rb_init_ok(1) [of 5 "rb_Data (USBtoUSART_Buffer s)"]
  by (simp add: usb_core_def idle_def usb_inv_def sel_inv_def rx_inv_def USBtoUSART_Buffer_Size_def)

lemma core_if: "usb_core a \<Longrightarrow> usb_core b \<Longrightarrow> usb_core (if c then a else b)"
  by simp

lemma sel_regs [simp]: "sel_inv (hw_update f s) = sel_inv s"
  by (simp add: sel_inv_def)

lemma Init_Device_ok:
  assumes "usb_core s"
  shows "usb_core (USB_Init_Device s) \<and> sel_inv (USB_Init_Device s) \<and> pos (USB_Init_Device s) (EpOUT 0) = 0"
proof -
  define t where "t = upd_usb (USB_CTRLA_update (\<lambda>x. x OR USB_SPEED_bm))
    (s\<lparr>DeviceState := DEVICE_STATE_Unattached, ConfigurationNumber := 0\<rparr>)"
  have "usb_core (s\<lparr>DeviceState := DEVICE_STATE_Unattached, ConfigurationNumber := 0\<rparr>)"
    using assms by (simp add: usb_core_def)
  then have t: "usb_core t" unfolding t_def by (rule core_regs) simp
  have "USB_Init_Device s = USB_Attach (USB_INT_Enable USB_INT_BUSEVENTI (configure_control_endpoint t))"
    by (simp add: USB_Init_Device_def Let_def t_def USB_Options_def USB_OPT_BUSEVENT_PRIMED_def USB_OPT_PLLCLKSRC_def
        USB_DEVICE_OPT_LOWSPEED_def USB_Device_SetFullSpeed_def)
  moreover have "usb_core (USB_Attach (USB_INT_Enable USB_INT_BUSEVENTI (configure_control_endpoint t)))"
    using core_control [OF t] unfolding USB_Attach_def USB_INT_Enable.simps by (intro core_regs) simp_all
  ultimately show ?thesis using core_control [OF t] by (simp add: USB_Attach_def)
qed

lemma ResetInterface_ok:
  assumes "usb_core s"
  shows "usb_core (USB_ResetInterface s) \<and> sel_inv (USB_ResetInterface s) \<and> pos (USB_ResetInterface s) (EpOUT 0) = 0"
  unfolding USB_ResetInterface_def Let_def USB_Controller_Reset_def USB_INT_ClearAllInterrupts_def
    USB_INT_DisableAllInterrupts_def USB_Device_SetDeviceAddress_def
  by (intro Init_Device_ok core_regs core_sys core_if assms) simp_all

lemma USB_Init_ok:
  assumes "usb_core (upd_usb (USB_EPPTR_update (\<lambda>_. True)) s)"
  shows "usb_core (USB_Init s) \<and> sel_inv (USB_Init s) \<and> pos (USB_Init s) (EpOUT 0) = 0"
proof -
  define t where "t = (SetGlobalInterruptMask (sreg_I s) (upd_usb (USB_INTCTRLA_update (\<lambda>_. 2))
    (upd_usb (USB_CTRLA_update (\<lambda>_. USB_STFRNUM_bm OR of_nat (ENDPOINT_TOTAL_ENDPOINTS - 1)))
    (upd_usb (USB_EPPTR_update (\<lambda>_. True)) (set_NVM_CMD NVM_CMD_NO_OPERATION_gc
    (upd_usb (USB_CAL1_update (\<lambda>_. pgm_read_byte offset_USBCAL1 (upd_usb (USB_CAL0_update (\<lambda>_. pgm_read_byte offset_USBCAL0
      (set_NVM_CMD NVM_CMD_READ_CALIB_ROW_gc (GlobalInterruptDisable s)))) (set_NVM_CMD NVM_CMD_READ_CALIB_ROW_gc (GlobalInterruptDisable s)))))
    (upd_usb (USB_CAL0_update (\<lambda>_. pgm_read_byte offset_USBCAL0
      (set_NVM_CMD NVM_CMD_READ_CALIB_ROW_gc (GlobalInterruptDisable s)))) (set_NVM_CMD NVM_CMD_READ_CALIB_ROW_gc (GlobalInterruptDisable s)))))))))\<lparr>IsInitialized := True\<rparr>"
  have o: "USB_Options AND USB_OPT_BUSEVENT_PRIHIGH \<noteq> USB_OPT_BUSEVENT_PRIHIGH"
    "USB_Options AND USB_OPT_BUSEVENT_PRIMED = USB_OPT_BUSEVENT_PRIMED"
    by (simp_all add: USB_Options_def USB_OPT_BUSEVENT_PRIMED_def USB_OPT_PLLCLKSRC_def USB_OPT_BUSEVENT_PRIHIGH_def)
  have "USB_Init s = USB_ResetInterface t"
    unfolding USB_Init_def Let_def t_def by (simp only: o if_True if_False simp_thms)
  moreover have "usb_core t"
    using assms unfolding t_def SetGlobalInterruptMask_def
    by (subst irq_off) (simp_all add: usb_masks set_NVM_CMD_def GlobalInterruptDisable_def usb_core_def hw_inv_def rx_count_def)
  ultimately show ?thesis using ResetInterface_ok by simp
qed

definition boot_fifos :: "epref \<Rightarrow> Endpoint_FIFO_t" where
  "boot_fifos = (\<lambda>_. fifo_zero)(EpIN 0 := fifo_zero\<lparr>Data := Some Notification_fifo\<rparr>,
     EpOUT 0 := fifo_zero\<lparr>Data := Some Notification_fifo2\<rparr>, EpIN 3 := fifo_zero\<lparr>Data := Some In_fifo\<rparr>,
     EpOUT 4 := fifo_zero\<lparr>Data := Some Out_fifo\<rparr>)"

lemma clear_fifos:
  "FIFOs s = (\<lambda>_. fifo_zero) \<Longrightarrow>
   fold (\<lambda>i s. set_fifo_data (EpIN i) None (set_fifo_data (EpOUT i) None s)) ns s = s"
  by (induction ns arbitrary: s)
     (auto simp: set_fifo_data_def fifo_zero_def fun_eq_iff intro!: fw.equality)

lemma serial_init_ok:
  assumes "pre_usb s"
  shows "idle (USB_serial_init s)"
proof -
  have z: "FIFOs s = (\<lambda>_. fifo_zero)" using assms by (simp add: pre_usb_def)
  define t where "t = s\<lparr>FIFOs := boot_fifos\<rparr>"
  have t: "set_fifo_data (EpOUT 4) (Some Out_fifo) (set_fifo_data (EpIN 3) (Some In_fifo)
      (set_fifo_data (EpOUT 0) (Some Notification_fifo2) (set_fifo_data (EpIN 0) (Some Notification_fifo) s))) = t"
    by (intro fw.equality) (simp_all add: set_fifo_data_def t_def z boot_fifos_def)
  have "usb_core (upd_usb (USB_EPPTR_update (\<lambda>_. True)) t)"
    using assms
    by (simp add: usb_core_def pre_usb_def t_def hw_inv_def fifo_inv_def boot_fifos_def fifo_zero_def rx_count_def
        cdc_inv_def VirtualSerial_CDC_Interface_def endpoint_entry_def CDC_TX_EPADDR_def CDC_RX_EPADDR_def
        CDC_NOTIFICATION_EPADDR_def CDC_TX_EPSIZE_def CDC_RX_EPSIZE_def CDC_NOTIFICATION_EPSIZE_def ep_consts)
  from USB_Init_ok [OF this] show ?thesis
    unfolding USB_serial_init_def Let_def clear_fifos [OF z] t by (intro core_idle) simp_all
qed

lemma scope_init_ok:
  assumes "pre_usb s"
  shows "returns (scope_init lk s) serial.loop_inv"
proof -
  have f: "pre_usb (fill_scopeBuf c s)" for c
    using assms by (simp add: pre_usb_def fill_scopeBuf_def rx_count_def)
  have greeting: "returns (usart_put_string_P_internal usart_c0_ctx (cstring str) t)
      (\<lambda>t. serial.loop_inv (scope_vars_init, power_reduction t))" if "idle t" for t str
    by (rule returns_mono [OF serial.usart_put_string [OF that serial.cstring_end]])
       (simp add: serial.loop_inv_def scope_vars_init_def SCOPE_SIZE_def, erule serial.view [rotated], rule view_hires)
  have adc: "pre_usb (adc_init b (usart_init c (upd_sys f (SetGlobalInterruptMask True (upd_sys g x)))))"
    if "pre_usb x" for b c f g x
    by (rule boot.view [OF _ boot.mask [OF boot.view [OF view_regs(4) that]]])
       (simp only: view_adc_init view_usart_init view_regs)
  have usb: "idle (hires_set_period p (hires_init (USB_serial_init (upd_tcc2 f (upd_port q g (upd_port q' h
      (trigger_init a x)))))))" if "pre_usb x" for p f q g q' h a x
  proof -
    have "pre_usb (upd_tcc2 f (upd_port q g (upd_port q' h (trigger_init a x))))"
      by (rule boot.view [OF _ that]) (simp only: view_trigger view_regs)
    from serial_init_ok [OF this] show ?thesis by (rule serial.view [rotated]) (simp only: view_hires)
  qed
  show ?thesis
    unfolding scope_init_def Let_def returns_simps
    by (rule returns_mono [OF boot.clock_init_P [OF f]], rule returns_mono [OF boot.dmaadc_init_P [OF adc]], assumption,
        rule greeting [OF usb])
qed

definition power_on :: "fw \<Rightarrow> bool" where
  "power_on s \<longleftrightarrow> \<not> fault s \<and> USB_INTCTRLA (usb (hw s)) = 0 \<and> eptable (hw s) = (\<lambda>_. ep_zero) \<and>
     (\<forall>b. length (ram (hw s) b) = ram_size b) \<and> length (scopeBuf (hw s)) = SCOPE_SIZE \<and>
     FIFOs s = (\<lambda>_. fifo_zero) \<and> CDC s = VirtualSerial_CDC_Interface \<and>
     length (rb_Data (USBtoUSART_Buffer s)) = 5"

lemma power_on_pre: "power_on s \<Longrightarrow> list_all hw_ok (sched s) \<Longrightarrow> pre_usb s"
  by (simp add: power_on_def pre_usb_def rx_count_def ep_zero_def)

end
