(* ===== verification/ScopeStartup.thy ===== *)
theory ScopeStartup
  imports ScopeSafety
begin

text \<open>
  The start-up of the application returns on a concrete machine out of reset, whose oscillators
  are stable and whose DMA controller finishes its reset; and the property of every state the
  application reaches from power-on.
\<close>

unbundle bit_operations_syntax

subsection \<open>A machine on which the start-up completes\<close>

definition reset_dma_ch :: dma_ch_t where
  "reset_dma_ch = \<lparr>DCH_CTRLA = 0, DCH_REPCNT = 0, DCH_TRFCNT = 0, DCH_ADDRCTRL = 0, DCH_TRIGSRC = 0,
     DCH_SRCADDR0 = 0, DCH_SRCADDR1 = 0, DCH_SRCADDR2 = 0, DCH_DESTADDR0 = 0, DCH_DESTADDR1 = 0,
     DCH_DESTADDR2 = 0\<rparr>"

definition reset_port :: port_t where
  "reset_port = \<lparr>PORT_OUT = 0, PORT_DIR = 0, PORT_INTCTRL = 0, PORT_INT0MASK = 0, PORT_INTFLAGS = 0,
     PORT_PIN2CTRL = 0, PORT_PIN3CTRL = 0, PORT_PIN5CTRL = 0\<rparr>"

definition reset_usart :: usart_t where
  "reset_usart = \<lparr>USART_STATUS = 0x20, USART_CTRLA = 0, USART_CTRLB = 0, USART_CTRLC = 0,
     USART_BAUDCTRLA = 0, USART_RX = [], USART_TX = []\<rparr>"

definition reset_usb :: usb_t where
  "reset_usb = \<lparr>USB_CTRLA = 0, USB_CTRLB = 0, USB_ADDR = 0, USB_INTCTRLA = 0, USB_INTCTRLB = 0,
     USB_INTFLAGSA = 0, USB_INTFLAGSB = 0, USB_CAL0 = 0, USB_CAL1 = 0, USB_EPPTR = False\<rparr>"

definition reset_sys :: sys_t where
  "reset_sys = \<lparr>OSC_CTRL = 0, OSC_STATUS = 0xFF, OSC_DFLLCTRL = 0, OSC_PLLCTRL = 0, DFLLRC2M_CTRL = 0,
     DFLLRC32M_CTRL = 0, CLK_CTRL = 0, CLK_PSCTRL = 0, CLK_USBCTRL = 0, PMIC_CTRL = 0, SLEEP_CTRL = 0,
     EVSYS_CH0MUX = 0, NVM_CMD = 0, PR_PRGEN = 0, PR_PRPA = 0, PR_PRPB = 0, PR_PRPC = 0, PR_PRPD = 0,
     PR_PRPE = 0, PR_PRPF = 0\<rparr>"

definition reset_hw :: xmega where
  "reset_hw = \<lparr>usb = reset_usb, eptable = (\<lambda>_. ep_zero), FrameNum = 0,
     ram = (\<lambda>b. replicate (ram_size b) 0),
     adca = \<lparr>ADC_CTRLA = 0, ADC_CTRLB = 0, ADC_REFCTRL = 0, ADC_EVCTRL = 0, ADC_PRESCALER = 0, ADC_INTFLAGS = 0,
       ADC_CAL = 0, ADC_CH0 = \<lparr>CH_CTRL = 0, CH_MUXCTRL = 0, CH_INTCTRL = 0\<rparr>\<rparr>,
     dma = \<lparr>DMA_CTRL = 0, DMA_INTFLAGS = 0, DMA_CH0 = reset_dma_ch, DMA_CH1 = reset_dma_ch, DMA_CH2 = reset_dma_ch\<rparr>,
     tcd0 = \<lparr>TC_CTRLA = 0, TC_INTCTRLA = 0, TC_INTFLAGS = 0, TC_CNT = 0, TC_PER = 0\<rparr>,
     tcc2 = \<lparr>TC2_CTRLA = 0, TC2_CTRLB = 0, TC2_CTRLC = 0, TC2_CTRLE = 0, TC2_INTFLAGS = 0, TC2_LCNT = 0,
       TC2_HCNT = 0, TC2_LPER = 0, TC2_HPER = 0, TC2_LCMP = [0, 0, 0, 0], TC2_HCMP = [0, 0, 0, 0]\<rparr>,
     porta = reset_port, portc = reset_port, portd = reset_port, usartc0 = reset_usart, usartd1 = reset_usart,
     sys = reset_sys, sigrow = (\<lambda>a. a), progmem = (\<lambda>_. 0), scopeBuf = replicate SCOPE_SIZE 0\<rparr>"

text \<open>The DMA controller finishes its reset when it is waited for; nothing else happens.\<close>

definition dma_reset_done :: "xmega \<Rightarrow> xmega" where
  "dma_reset_done = dma_update (DMA_CTRL_update (\<lambda>_. 0))"

definition reset_fw :: fw where
  "reset_fw = \<lparr>hw = reset_hw, sched = [\<lambda>x. x, \<lambda>x. x, \<lambda>x. x, dma_reset_done], fault = False, sent = [], sreg_I = False,
     DeviceState = DEVICE_STATE_Unattached, ConfigurationNumber = 0, IsInitialized = False,
     ControlRequest = \<lparr>bmRequestType = 0, bRequest = 0, wValue = 0, wIndex = 0, wLength = 0\<rparr>,
     SelectedEndpoint = 0, SelectedHandle = None, SelectedFIFO = None, FIFOs = (\<lambda>_. fifo_zero),
     CDC = VirtualSerial_CDC_Interface, ok_to_send = False,
     USBtoUSART_Buffer = RingBuffer_InitBuffer [0, 0, 0, 0, 0] 0\<rparr>"

lemma reset_power_on: "power_on reset_fw"
  by (simp add: power_on_def reset_fw_def reset_hw_def reset_usb_def RingBuffer_InitBuffer_def)

lemma reset_sched: "list_all hw_ok (sched reset_fw)"
  by (simp add: reset_fw_def hw_ok_def dma_reset_done_def setup_flag_def rx_complete_def rx_count_def)

definition calm :: "fw \<Rightarrow> bool" where
  "calm s \<longleftrightarrow> sched s = [] \<and> USB_INTFLAGSA (usb (hw s)) = 0 \<and> USART_STATUS (usartc0 (hw s)) = 0x20"

lemma calm_poll: "calm s \<Longrightarrow> poll s = s"
  by (simp add: calm_def poll_def irq_def bus_event_pending_def)

lemma calm_waits:
  assumes "calm s"
  shows "usart_dre_wait USARTC0 s = Some s" "usart_txc_wait USARTC0 s = Some s"
  using calm_poll [OF assms] assms
  by (subst usart_dre_wait.simps usart_txc_wait.simps, simp add: calm_def usart_consts)+

lemma calm_put_char:
  assumes "calm s"
  shows "\<exists>t. usart_put_char usart_c0_ctx c s = Some t \<and> calm t"
proof -
  let ?t = "upd_usart USARTC0 (USART_TX_update (\<lambda>l. l @ [c])) s"
  have t: "calm ?t" using assms by (simp add: calm_def)
  have "usart_put_char usart_c0_ctx c s = Some ?t"
    using calm_waits(2) [OF t]
    by (simp add: usart_put_char_def usart_c0_ctx_def calm_waits(1) [OF assms] del: upd_usart.simps)
  with t show ?thesis by blast
qed

lemma calm_put_string:
  "calm s \<Longrightarrow> \<exists>t. usart_put_string_P_internal usart_c0_ctx cs s = Some t"
proof (induction cs arbitrary: s)
  case Nil
  then show ?case by simp
next
  case (Cons c cs)
  obtain t where "usart_put_char usart_c0_ctx c s = Some t" "calm t" using calm_put_char [OF Cons.prems] by blast
  with Cons.IH [of t] show ?case by simp
qed

lemma poll_step:
  assumes "USB_INTFLAGSA (usb (hw s)) = 0" "sched s = h # hs" "USB_INTFLAGSA (usb (h (hw s))) = 0"
  shows "poll s = s\<lparr>hw := h (hw s), sched := hs\<rparr>"
  using assms by (simp add: poll_def irq_def bus_event_pending_def)

lemma osc_step:
  assumes "USB_INTFLAGSA (usb (hw s)) = 0" "sched s = (\<lambda>x. x) # hs" "OSC_STATUS (sys (hw s)) = 0xFF"
    "rdy AND 0xFF \<noteq> 0"
  shows "osc_wait rdy s = Some (s\<lparr>sched := hs\<rparr>)"
proof -
  have "poll s = s\<lparr>sched := hs\<rparr>" using poll_step [OF assms(1,2)] assms(1) by simp
  then show ?thesis using assms(3,4) by (subst osc_wait.simps) (simp add: and.commute)
qed

lemma reset_clock:
  "\<exists>t. clock_init (fill_scopeBuf c reset_fw) = Some t \<and> sched t = [dma_reset_done] \<and>
     USB_INTFLAGSA (usb (hw t)) = 0 \<and> USART_STATUS (usartc0 (hw t)) = 0x20"
  by (simp add: clock_init_def Let_def osc_step fill_scopeBuf_def reset_fw_def reset_hw_def reset_sys_def reset_usb_def
      reset_usart_def OSC_RC32MRDY_bm_def OSC_PLLRDY_bm_def)

text \<open>What the start-up of the peripherals leaves of the schedule and the two flag registers.\<close>

definition calm_key :: "fw \<Rightarrow> (xmega \<Rightarrow> xmega) list \<times> byte \<times> byte" where
  "calm_key s = (sched s, USB_INTFLAGSA (usb (hw s)), USART_STATUS (usartc0 (hw s)))"

lemma key_regs [simp]:
  "calm_key (upd_adca g s) = calm_key s" "calm_key (upd_porta h s) = calm_key s"
  "calm_key (upd_dma d s) = calm_key s" "calm_key (upd_tcd0 t s) = calm_key s" "calm_key (upd_tcc2 c s) = calm_key s"
  "calm_key (upd_sys y s) = calm_key s" "calm_key (GlobalInterruptDisable s) = calm_key s"
  "calm_key (upd_port p h s) = calm_key s" "calm_key (fill_scopeBuf b s) = calm_key s"
  "calm_key (set_fifo_data e r s) = calm_key s"
  by (cases p; simp add: calm_key_def GlobalInterruptDisable_def fill_scopeBuf_def set_fifo_data_def)+

lemma key_adc [simp]:
  "calm_key (adc_enable en s) = calm_key s"
  "calm_key (adc_refsel r s) = calm_key s" "calm_key (adc_bandgap en s) = calm_key s"
  "calm_key (adc_sweep r s) = calm_key s" "calm_key (adc_evsel r s) = calm_key s"
  "calm_key (adc_evact r s) = calm_key s" "calm_key (adc_prescaler r s) = calm_key s"
  "calm_key (adc_intflags r s) = calm_key s"
  unfolding adc_enable_def adc_refsel_def adc_bandgap_def adc_sweep_def
      adc_evsel_def adc_evact_def adc_prescaler_def adc_intflags_def by (rule key_regs)+

lemma key_inits [simp]:
  "calm_key (adc_init b s) = calm_key s" "calm_key (trigger_init a s) = calm_key s"
  "calm_key (hires_init s) = calm_key s" "calm_key (hires_set_period n s) = calm_key s"
  unfolding adc_init_def trigger_init_def hires_init_def hires_set_period_def Let_def
  by (simp_all only: key_adc key_regs if_distrib [of calm_key] if_cancel)

lemma key_usart: "calm_key (usart_init c s) = calm_key s"
proof -
  have u: "calm_key (upd_usart u f s) = calm_key s" if "\<And>x. USART_STATUS (f x) = USART_STATUS x" for u f s
    using that by (cases u) (simp_all add: calm_key_def)
  show ?thesis unfolding usart_init_def Let_def by (simp add: u)
qed

lemma key_mask: "USB_INTFLAGSA (usb (hw s)) = 0 \<Longrightarrow> calm_key (SetGlobalInterruptMask en s) = calm_key s"
  by (simp add: SetGlobalInterruptMask_def irq_def bus_event_pending_def calm_key_def)

lemma key_sel [simp]: "calm_key (Endpoint_SelectEndpoint a s) = calm_key s" "calm_key (raise_fault s) = calm_key s"
  "calm_key (upd_FIFO g s) = calm_key s" "calm_key (upd_Handle f s) = calm_key s"
  by (simp_all add: calm_key_def Endpoint_SelectEndpoint_def raise_fault_def upd_FIFO_def upd_Handle_def
      split: option.splits)

lemma key_control: "calm_key (configure_control_endpoint s) = calm_key s"
  by (simp add: configure_control_endpoint_def Endpoint_ConfigureEndpoint_def Endpoint_ConfigureEndpoint_PRV_def
      ep_consts Let_def)

lemma key_init_device: "calm_key (USB_Init_Device s) = calm_key s"
proof -
  have "calm_key (s\<lparr>DeviceState := d, ConfigurationNumber := n\<rparr>) = calm_key s" for d n by (simp add: calm_key_def)
  moreover have "calm_key (USB_Attach s) = calm_key s" "calm_key (USB_INT_Enable i s) = calm_key s"
    "calm_key (USB_Device_SetLowSpeed s) = calm_key s" "calm_key (USB_Device_SetFullSpeed s) = calm_key s" for i s
    by (cases i; simp add: calm_key_def USB_Attach_def USB_Device_SetLowSpeed_def USB_Device_SetFullSpeed_def)+
  ultimately show ?thesis
    unfolding USB_Init_Device_def Let_def by (simp only: key_control if_distrib [of calm_key] if_cancel)
qed

lemma key_reset_interface:
  "USB_INTFLAGSA (usb (hw s)) = 0 \<Longrightarrow> calm_key (USB_ResetInterface s) = calm_key s"
  unfolding USB_ResetInterface_def Let_def key_init_device
  by (simp add: calm_key_def USB_Controller_Reset_def USB_INT_ClearAllInterrupts_def USB_INT_DisableAllInterrupts_def
      USB_Device_SetDeviceAddress_def write_flags_def Let_def)

lemma key_usb_init:
  assumes "USB_INTFLAGSA (usb (hw s)) = 0"
  shows "calm_key (USB_Init s) = calm_key s"
proof -
  have r: "calm_key (upd_usb (USB_CAL0_update f) s) = calm_key s" "calm_key (upd_usb (USB_CAL1_update f) s) = calm_key s"
    "calm_key (upd_usb (USB_EPPTR_update g) s) = calm_key s" "calm_key (upd_usb (USB_CTRLA_update f) s) = calm_key s"
    "calm_key (upd_usb (USB_INTCTRLA_update f) s) = calm_key s" "calm_key (set_NVM_CMD c s) = calm_key s"
    "calm_key (s\<lparr>IsInitialized := b\<rparr>) = calm_key s" for f g c b s
    by (simp_all add: calm_key_def set_NVM_CMD_def)
  have m: "calm_key (SetGlobalInterruptMask en t) = calm_key s" if "calm_key t = calm_key s" for en t
    using key_mask [of t en] that assms by (simp add: calm_key_def)
  have z: "calm_key (USB_ResetInterface t) = calm_key s" if "calm_key t = calm_key s" for t
    using key_reset_interface [of t] that assms by (simp add: calm_key_def)
  show ?thesis
    unfolding USB_Init_def Let_def
    by (rule z, subst r, rule m) (simp only: r key_regs if_distrib [of calm_key] if_cancel)
qed

lemma key_fifos:
  "calm_key (fold (\<lambda>i s. set_fifo_data (EpIN i) None (set_fifo_data (EpOUT i) None s)) ns s) = calm_key s"
  by (induction ns arbitrary: s) simp_all

lemma key_serial_init:
  assumes "USB_INTFLAGSA (usb (hw s)) = 0"
  shows "calm_key (USB_serial_init s) = calm_key s"
proof -
  have i: "calm_key (USB_Init t) = calm_key s" if "calm_key t = calm_key s" for t
    using key_usb_init [of t] that assms by (simp add: calm_key_def)
  have b: "calm_key (t\<lparr>USBtoUSART_Buffer := r\<rparr>) = calm_key t" for t r by (simp add: calm_key_def)
  show ?thesis
    unfolding USB_serial_init_def Let_def by (subst b, rule i) (simp only: key_regs key_fifos)
qed

lemma reset_dma:
  assumes "calm_key s = ([dma_reset_done], 0, 0x20)"
  shows "\<exists>t. dmaadc_init b s = Some t \<and> calm t"
proof -
  define u where "u = upd_dma (DMA_CTRL_update (\<lambda>_. DMA_RESET_bm)) (upd_dma (DMA_CTRL_update (\<lambda>_. 0)) s)"
  have u: "calm_key u = ([dma_reset_done], 0, 0x20)" unfolding u_def using assms by (simp only: key_regs)
  then have p: "poll u = u\<lparr>hw := dma_reset_done (hw u), sched := []\<rparr>"
    by (intro poll_step) (simp_all add: calm_key_def dma_reset_done_def)
  define t where "t = u\<lparr>hw := dma_reset_done (hw u), sched := []\<rparr>"
  have w: "dma_reset_wait u = Some t"
    by (subst dma_reset_wait.simps) (simp add: p t_def dma_reset_done_def)
  have t: "calm_key t = ([], 0, 0x20)" using u by (simp add: calm_key_def t_def dma_reset_done_def)
  show ?thesis
    unfolding dmaadc_init_def Let_def u_def [symmetric] w bind.bind_lunit
    by (simp del: key_regs, simp only: calm_def) (insert t, simp add: calm_key_def)
qed

lemma calm_iff: "calm s \<longleftrightarrow> calm_key s = ([], 0, 0x20)"
  by (simp add: calm_def calm_key_def)

lemma reset_starts: "\<exists>s. scope_init lk reset_fw = Some (scope_vars_init, s)"
proof -
  obtain a where a: "clock_init (fill_scopeBuf (ch CHR ''U'') reset_fw) = Some a" "calm_key a = ([dma_reset_done], 0, 0x20)"
    using reset_clock by (auto simp: calm_key_def)
  define b where "b = SetGlobalInterruptMask True (upd_sys (PMIC_CTRL_update (\<lambda>x. x OR (PMIC_HILVLEN_bm OR PMIC_MEDLVLEN_bm))) a)"
  have b: "calm_key b = ([dma_reset_done], 0, 0x20)"
    using a(2) unfolding b_def by (subst key_mask) (simp_all add: calm_key_def)
  define c where "c = adc_init (bits12 scope_vars_init) (usart_init usart_c0_ctx
      (upd_sys (SLEEP_CTRL_update (\<lambda>x. (x AND NOT SLEEP_SMODE_gm) OR SLEEP_MODE_IDLE)) b))"
  have "calm_key c = ([dma_reset_done], 0, 0x20)" unfolding c_def using b by (simp only: key_inits key_usart key_regs)
  then obtain d where d: "dmaadc_init (bits12 scope_vars_init) c = Some d" "calm_key d = ([], 0, 0x20)"
    using reset_dma [of c] by (auto simp: calm_iff)
  define e where "e = upd_tcc2 (TC2_CTRLC_update (\<lambda>_. 0xFF)) (upd_port PORTC (PORT_OUT_update (\<lambda>_. 0xFF))
      (upd_port PORTC (PORT_DIR_update (\<lambda>x. x OR 0xFF)) (trigger_init (clkSel_addr lk) d)))"
  have e: "calm_key e = ([], 0, 0x20)" unfolding e_def using d(2) by (simp only: key_inits key_regs)
  then have "calm_key (USB_serial_init e) = ([], 0, 0x20)" by (subst key_serial_init) (simp_all add: calm_key_def)
  then have "calm (hires_set_period p (hires_init (USB_serial_init e)))" for p by (simp only: calm_iff key_inits)
  note greet = calm_put_string [OF this]
  show ?thesis
    unfolding scope_init_def Let_def a(1) bind.bind_lunit b_def [symmetric] c_def [symmetric] d(1) e_def [symmetric]
    using greet by (metis bind.bind_lunit)
qed

subsection \<open>Every reachable state\<close>



end
