(* ===== verification/SerialPort.thy ===== *)
theory SerialPort
  imports ScopeStartup
begin

text \<open>
  The serial port of the configured device as a pair of byte streams. The host is cooperative:
  at each of its turns it takes the packet the device offers. Under this assumption every call
  of the port returns within a number of host turns the lemmas count, what it sends is appended
  to the bytes the host has received, and what it reads is the next byte the host has sent.
\<close>

unbundle bit_operations_syntax

subsection \<open>The abstract port\<close>

type_synonym periph = "adc_t \<times> dma_t \<times> tc0_t \<times> tc2_t \<times> port_t \<times> port_t \<times> port_t \<times> sys_t"

record aport =
  to_host :: "byte list"
  from_host :: "byte list"
  regs :: periph
  sample_mem :: "byte list"

record wire =
  outgoing :: "byte list"
  ring :: RingBuffer_t
  packet :: "byte list"
  full :: bool
  wregs :: periph
  wmem :: "byte list"

definition periph :: "xmega \<Rightarrow> periph" where
  "periph x = (adca x, dma x, tcd0 x, tcc2 x, porta x, portc x, portd x, sys x)"

definition delivered :: "fw \<Rightarrow> byte list" where
  "delivered s = concat (map snd (filter (\<lambda>p. fst p = EpIN 3) (sent s)))"

definition pending :: "fw \<Rightarrow> byte list" where
  "pending s = take (unat (pos s (EpIN 3))) (ram (hw s) In_fifo)"

definition arrived :: "fw \<Rightarrow> byte list" where
  "arrived s = (if rx_complete (hw s)
     then drop (unat (pos s (EpOUT 4))) (take (unat (rx_count (hw s))) (ram (hw s) Out_fifo)) else [])"

definition wire :: "fw \<Rightarrow> wire" where
  "wire s = \<lparr>outgoing = delivered s @ pending s, ring = USBtoUSART_Buffer s, packet = arrived s, full = rx_complete (hw s),
     wregs = periph (hw s), wmem = scopeBuf (hw s)\<rparr>"

definition port :: "fw \<Rightarrow> aport" where
  "port s = \<lparr>to_host = outgoing (wire s), from_host = rb_contents (ring (wire s)) @ packet (wire s),
     regs = wregs (wire s), sample_mem = wmem (wire s)\<rparr>"

subsection \<open>The cooperative host\<close>

definition ready :: "xmega \<Rightarrow> bool" where
  "ready x \<longleftrightarrow> EP_STATUS (eptable x (EpIN 3)) AND USB_EP_BUSNACK0_bm \<noteq> 0"

definition takes :: "(xmega \<Rightarrow> xmega) \<Rightarrow> bool" where
  "takes h \<longleftrightarrow> (\<forall>x. \<exists>e. h x = x\<lparr>eptable := (eptable x)(EpIN 3 := e)\<rparr> \<and> ready (h x))"

definition online :: "nat \<Rightarrow> fw \<Rightarrow> bool" where
  "online k s \<longleftrightarrow> idle s \<and> DeviceState s = DEVICE_STATE_Configured \<and> ok_to_send s \<and>
     BaudRateBPS (LineEncoding (CDC s)) \<noteq> 0 \<and> USB_INTFLAGSA (usb (hw s)) = 0 \<and> \<not> setup_flag (hw s) \<and>
     list_all takes (sched s) \<and> k \<le> length (sched s) \<and> Length (FIFOs s (EpIN 3)) = 64 \<and> pos s (EpIN 3) \<le> 64"

lemma online_less: "online n s \<Longrightarrow> k \<le> n \<Longrightarrow> online k s"
  by (simp add: online_def)

lemma online_idle: "online k s \<Longrightarrow> idle s"
  by (simp add: online_def)

lemma online_up: "online k s \<Longrightarrow> \<not> cdc_down s"
  by (simp add: online_def cdc_down_def)

lemma online_addr:
  assumes "online k s"
  shows "Address (DataINEndpoint (CDC s)) = 0x83" "Address (DataOUTEndpoint (CDC s)) = 0x04"
    "SelectedHandle s = Some (ep_of (SelectedEndpoint s))" "SelectedFIFO s = Some (ep_of (SelectedEndpoint s))"
  using usb_invD [OF idle_inv [OF online_idle [OF assms]]] by simp_all

lemma takes_ok: "takes h \<Longrightarrow> hw_ok h"
proof -
  assume t: "takes h"
  show "hw_ok h"
    unfolding hw_ok_def
  proof
    fix x
    obtain e where "h x = x\<lparr>eptable := (eptable x)(EpIN 3 := e)\<rparr>" using t by (auto simp: takes_def)
    then show "USB_EPPTR (usb (h x)) = USB_EPPTR (usb x) \<and>
     USB_INTCTRLA (usb (h x)) = USB_INTCTRLA (usb x) \<and>
     (\<forall>b. length (ram (h x) b) = length (ram x b)) \<and>
     length (scopeBuf (h x)) = length (scopeBuf x) \<and>
     (setup_flag x \<longrightarrow> setup_flag (h x)) \<and>
     (rx_complete x \<longrightarrow> rx_complete (h x) \<and> rx_count (h x) = rx_count x) \<and>
     (rx_count (h x) \<le> 64 \<or> rx_count (h x) = rx_count x)"
      by (simp add: setup_flag_def rx_complete_def rx_count_def)
  qed
qed

lemma poll_eq:
  assumes "online (Suc k) s"
  obtains e where "poll s = s\<lparr>hw := (hw s)\<lparr>eptable := (eptable (hw s))(EpIN 3 := e)\<rparr>, sched := tl (sched s)\<rparr>"
    "ready (hw (poll s))"
proof -
  obtain h hs where h: "sched s = h # hs" using assms by (cases "sched s") (auto simp: online_def)
  then have "takes h" using assms by (simp add: online_def)
  then obtain e where e: "h (hw s) = (hw s)\<lparr>eptable := (eptable (hw s))(EpIN 3 := e)\<rparr>" "ready (h (hw s))"
    unfolding takes_def by blast
  have "USB_INTFLAGSA (usb (hw s)) = 0" using assms by (simp add: online_def)
  then have "poll s = s\<lparr>hw := h (hw s), sched := hs\<rparr>"
    using h e(1) by (simp add: poll_def irq_def bus_event_pending_def)
  then show thesis using that e h by simp
qed

lemma online_poll:
  assumes "online (Suc k) s"
  shows "online k (poll s)" "wire (poll s) = wire s" "ready (hw (poll s))" "SelectedEndpoint (poll s) = SelectedEndpoint s"
    "FIFOs (poll s) = FIFOs s" "setup_flag (hw (poll s)) = setup_flag (hw s)"
proof -
  obtain e where e: "poll s = s\<lparr>hw := (hw s)\<lparr>eptable := (eptable (hw s))(EpIN 3 := e)\<rparr>, sched := tl (sched s)\<rparr>"
    "ready (hw (poll s))" using poll_eq [OF assms] .
  show "wire (poll s) = wire s" "SelectedEndpoint (poll s) = SelectedEndpoint s"
    "FIFOs (poll s) = FIFOs s" "setup_flag (hw (poll s)) = setup_flag (hw s)"
    by (simp_all add: e(1) wire_def delivered_def pending_def arrived_def periph_def rx_complete_def rx_count_def setup_flag_def)
  show "ready (hw (poll s))" by (rule e(2))
  have "idle (poll s)" using online_idle [OF assms] idle_quiet poll_quiet idle_inv by blast
  moreover have "list_all takes (tl (sched s))" using assms by (cases "sched s") (auto simp: online_def)
  moreover have "k \<le> length (tl (sched s))" using assms by (cases "sched s") (auto simp: online_def)
  ultimately show "online k (poll s)" using assms unfolding online_def by (simp add: e(1) setup_flag_def)
qed

lemma select_wire [simp]: "wire (Endpoint_SelectEndpoint a s) = wire s"
  by (simp add: wire_def delivered_def pending_def arrived_def Endpoint_SelectEndpoint_def)

lemma select_online [simp]: "online k (Endpoint_SelectEndpoint a s)" if "online k s"
proof -
  have "idle (Endpoint_SelectEndpoint a s)" using online_idle [OF that] by (simp add: idle_def)
  then show ?thesis using that by (simp add: online_def Endpoint_SelectEndpoint_def)
qed

lemma data_IN_sel: "0x83 OR ENDPOINT_DIR_IN = 0x83" "4 AND NOT ENDPOINT_DIR_IN = 4" "0 AND NOT ENDPOINT_DIR_IN = 0"
  by (simp_all add: ep_consts)

lemma IsINReady_on:
  assumes "online (Suc k) s" "SelectedEndpoint s = 0x83"
  shows "\<exists>t. Endpoint_IsINReady s = (True, t) \<and> online k t \<and> SelectedEndpoint t = 0x83 \<and> wire t = wire s \<and> FIFOs t = FIFOs s"
proof -
  let ?t = "Endpoint_SelectEndpoint 0x83 (poll s)"
  have "SelectedHandle ?t = Some (EpIN 3)" using online_addr(3) [OF select_online [OF online_poll(1) [OF assms(1)]], of "0x83"] by simp
  then have "Endpoint_IsINReady s = (True, ?t)"
    using assms(2) online_poll [OF assms(1)] by (simp add: Endpoint_IsINReady_def data_IN_sel Handle_def ready_def)
  then show ?thesis using online_poll [OF assms(1)] by simp
qed

lemma WaitUntilReady_on:
  assumes "online (Suc k) s" "SelectedEndpoint s = 0x83"
  shows "\<exists>t. Endpoint_WaitUntilReady s = Some (NoError, t) \<and> online k t \<and> SelectedEndpoint t = 0x83 \<and> wire t = wire s \<and> FIFOs t = FIFOs s"
proof -
  have "Endpoint_GetEndpointDirection s = ENDPOINT_DIR_IN" using assms(2) by (simp add: Endpoint_GetEndpointDirection_def ep_consts)
  then show ?thesis
    using IsINReady_on [OF assms] unfolding Endpoint_WaitUntilReady_def by (subst ready_loop.simps) auto
qed

lemma USBTask_on:
  assumes "online (k + 2) s"
  shows "\<exists>t. USB_USBTask s = Some t \<and> online k t \<and> wire t = wire s \<and> FIFOs t = FIFOs s \<and> SelectedEndpoint t = SelectedEndpoint s"
proof -
  have a: "online (Suc (Suc k)) s" using assms by simp
  define u where "u = Endpoint_SelectEndpoint ENDPOINT_CONTROLEP (poll s)"
  have u: "online (Suc k) u" "wire u = wire s" "FIFOs u = FIFOs s" using online_poll [OF a] by (simp_all add: u_def)
  have "SelectedEndpoint u = 0" by (simp add: u_def ep_consts)
  then have sel: "SelectedEndpoint (poll u) AND NOT ENDPOINT_DIR_IN = 0" using online_poll(4) [OF u(1)] by (simp add: data_IN_sel)
  define w where "w = Endpoint_SelectEndpoint 0 (poll u)"
  have w: "online k w" "wire w = wire u" "FIFOs w = FIFOs u" using online_poll [OF u(1)] by (simp_all add: w_def)
  have "SelectedHandle w = Some (EpOUT 0)" using online_addr(3) [OF w(1)] by (simp add: w_def)
  moreover have "\<not> setup_flag (hw w)" using w(1) by (simp add: online_def)
  ultimately have "EP_STATUS (Handle w) AND USB_EP_SETUP_bm = 0" by (simp add: Handle_def setup_flag_def)
  then have "Endpoint_IsSETUPReceived u = (False, w)"
    by (simp add: Endpoint_IsSETUPReceived_def Let_def sel w_def)
  moreover have "DeviceState (poll s) \<noteq> DEVICE_STATE_Unattached" using online_poll(1) [OF a] by (simp add: online_def)
  ultimately have "USB_USBTask s = Some (Endpoint_SelectEndpoint (SelectedEndpoint (poll s)) w)"
    by (simp add: USB_USBTask_def USB_DeviceTask_def Let_def u_def Endpoint_GetCurrentEndpoint_def)
  then show ?thesis using w u online_poll(4) [OF a] by simp
qed

subsection \<open>Sending\<close>

lemma fifo_data:
  assumes "online k s"
  shows "Data (FIFOs s (EpIN 3)) = Some In_fifo" "Data (FIFOs s (EpOUT 4)) = Some Out_fifo"
    "length (ram (hw s) In_fifo) = 64" "length (ram (hw s) Out_fifo) = 64" "Length (FIFOs s (EpIN 3)) = 64"
    "unat (pos s (EpIN 3)) \<le> 64"
  using usb_invD(3,4) [OF idle_inv [OF online_idle [OF assms]]] assms
  by (simp_all add: fifo_inv_def hw_inv_def online_def word_le_nat_alt)

lemma upd_FIFO_more [simp]:
  "DeviceState (upd_FIFO f s) = DeviceState s" "ok_to_send (upd_FIFO f s) = ok_to_send s" "CDC (upd_FIFO f s) = CDC s"
  "sched (upd_FIFO f s) = sched s" "sent (upd_FIFO f s) = sent s" "USBtoUSART_Buffer (upd_FIFO f s) = USBtoUSART_Buffer s"
  by (simp_all add: upd_FIFO_def raise_fault_def split: option.splits)

lemma ClearIN_eq:
  assumes "online k s" "SelectedEndpoint s = 0x83"
  shows "Endpoint_ClearIN s = s\<lparr>sent := sent s @ [(EpIN 3, pending s)],
    hw := (hw s)\<lparr>eptable := (eptable (hw s))(EpIN 3 := (eptable (hw s) (EpIN 3))\<lparr>EP_CNT := ucast (pos s (EpIN 3)),
      EP_STATUS := EP_STATUS (eptable (hw s) (EpIN 3)) AND NOT (USB_EP_TRNCOMPL0_bm OR USB_EP_BUSNACK0_bm OR USB_EP_OVF_bm)\<rparr>)\<rparr>,
    FIFOs := (FIFOs s)(EpIN 3 := (FIFOs s (EpIN 3))\<lparr>Position := 0\<rparr>)\<rparr>"
  using online_addr(3,4) [OF assms(1)] assms(2) fifo_data(1) [OF assms(1)]
  by (simp add: Endpoint_ClearIN_def log_packet_def fifo_bytes_def FIFO_def pending_def upd_Handle_def upd_FIFO_def Let_def)
     (intro fw.equality xmega.equality; simp add: fun_eq_iff)

lemma ClearIN_on:
  assumes "online k s" "SelectedEndpoint s = 0x83"
  shows "online k (Endpoint_ClearIN s)" "wire (Endpoint_ClearIN s) = wire s" "pos (Endpoint_ClearIN s) (EpIN 3) = 0"
    "SelectedEndpoint (Endpoint_ClearIN s) = 0x83" "delivered (Endpoint_ClearIN s) = delivered s @ pending s"
proof -
  have "quiet s (Endpoint_ClearIN s)"
    using assms(2) by (intro ClearIN_quiet [OF idle_inv [OF online_idle [OF assms(1)]]]) simp
  then have "idle (Endpoint_ClearIN s)" using idle_quiet online_idle [OF assms(1)] by blast
  then show "online k (Endpoint_ClearIN s)"
    using assms(1) unfolding online_def ClearIN_eq [OF assms] by (simp add: setup_flag_def)
  show "wire (Endpoint_ClearIN s) = wire s" "pos (Endpoint_ClearIN s) (EpIN 3) = 0"
    "SelectedEndpoint (Endpoint_ClearIN s) = 0x83" "delivered (Endpoint_ClearIN s) = delivered s @ pending s"
    unfolding ClearIN_eq [OF assms] using assms(2)
    by (simp_all add: wire_def delivered_def pending_def arrived_def periph_def rx_complete_def rx_count_def)
qed

lemma Write_8_on:
  assumes "online k s" "SelectedEndpoint s = 0x83" "pos s (EpIN 3) < 64"
  shows "online k (Endpoint_Write_8 v s)" "wire (Endpoint_Write_8 v s) = (wire s)\<lparr>outgoing := outgoing (wire s) @ [v]\<rparr>"
    "SelectedEndpoint (Endpoint_Write_8 v s) = 0x83"
proof -
  have p: "unat (pos s (EpIN 3)) < 64" using assms(3) by (simp add: word_less_nat_alt)
  have eq: "Endpoint_Write_8 v s = s\<lparr>FIFOs := (FIFOs s)(EpIN 3 := (FIFOs s (EpIN 3))\<lparr>Position := pos s (EpIN 3) + 1\<rparr>),
    hw := (hw s)\<lparr>ram := (ram (hw s))(In_fifo := (ram (hw s) In_fifo)[unat (pos s (EpIN 3)) := v])\<rparr>\<rparr>"
    using online_addr(4) [OF assms(1)] assms(2) fifo_data [OF assms(1)] p by (intro Write_8_eq) simp_all
  have u: "unat (pos s (EpIN 3) + 1) = Suc (unat (pos s (EpIN 3)))"
    using p by (simp add: unat_word_ariths)
  have "usb_inv (Endpoint_Write_8 v s)"
    by (rule Write_8_inv(1) [where e = "EpIN 3"]) (use idle_inv [OF online_idle [OF assms(1)]] assms(2) p in \<open>simp_all add: IN_room_def\<close>)
  then have "idle (Endpoint_Write_8 v s)" using online_idle [OF assms(1)] by (simp add: idle_def eq)
  then show "online k (Endpoint_Write_8 v s)"
    using assms(1) p u unfolding online_def eq by (simp add: setup_flag_def word_le_nat_alt)
  have "take (Suc (unat (pos s (EpIN 3)))) ((ram (hw s) In_fifo)[unat (pos s (EpIN 3)) := v]) = pending s @ [v]"
    using p fifo_data(3) [OF assms(1)] by (simp add: pending_def take_Suc_conv_app_nth)
  then show "wire (Endpoint_Write_8 v s) = (wire s)\<lparr>outgoing := outgoing (wire s) @ [v]\<rparr>"
    using u unfolding eq by (simp add: wire_def delivered_def pending_def arrived_def periph_def rx_complete_def rx_count_def)
  show "SelectedEndpoint (Endpoint_Write_8 v s) = 0x83" using assms(2) by (simp add: eq)
qed

lemma allowed_on:
  assumes "online k s" "SelectedEndpoint s = 0x83"
  shows "Endpoint_IsReadWriteAllowed s \<longleftrightarrow> pos s (EpIN 3) < 64"
  using online_addr(4) [OF assms(1)] assms fifo_data(5) [OF assms(1)] by (simp add: Endpoint_IsReadWriteAllowed_def FIFO_def)

lemma Flush_on:
  assumes "online (Suc k) s"
  shows "yields (CDC_Device_Flush s) (\<lambda>(e, t). online k t \<and> wire t = wire s \<and> pos t (EpIN 3) = 0)"
proof -
  let ?s = "Endpoint_SelectEndpoint 0x83 s"
  have on: "online (Suc k) ?s" "SelectedEndpoint ?s = 0x83" "wire ?s = wire s" using assms by simp_all
  have b: "Endpoint_BytesInEndpoint ?s = ucast (pos s (EpIN 3))"
    by (simp add: Endpoint_BytesInEndpoint_def FIFO_def)
  note c = ClearIN_on [OF on(1,2)]
  obtain t where t: "Endpoint_WaitUntilReady (Endpoint_ClearIN ?s) = Some (NoError, t)" "online k t" "SelectedEndpoint t = 0x83"
    "wire t = wire s" using WaitUntilReady_on [OF c(1,4)] c(2) by auto
  note d = ClearIN_on [OF t(2,3)]
  have "online k ?s" "online k (Endpoint_ClearIN ?s)" using online_less on(1) c(1) by (meson le_SucI order_refl)+
  then show ?thesis
    using t c d b online_up [OF assms] online_addr(1) [OF assms]
    by (auto simp: CDC_Device_Flush_def Let_def yields_def unat_eq_zero [symmetric])
qed

lemma CDC_USBTask_on:
  assumes "online (k + 2) s"
  shows "yields (CDC_Device_USBTask s) (\<lambda>t. online k t \<and> wire t = wire s \<and> pos t (EpIN 3) = 0)"
proof -
  have on: "online (Suc (Suc k)) (Endpoint_SelectEndpoint 0x83 s)" using assms by simp
  obtain t where t: "Endpoint_IsINReady (Endpoint_SelectEndpoint 0x83 s) = (True, t)" "online (Suc k) t" "wire t = wire s"
    using IsINReady_on [OF on] by auto
  show ?thesis
    using Flush_on [OF t(2)] t online_up [OF assms] online_addr(1) [OF assms]
    by (auto simp: CDC_Device_USBTask_def yields_def)
qed

lemma serial_tasks_on:
  assumes "online (k + 4) s"
  shows "yields (serial_tasks s) (\<lambda>t. online k t \<and> wire t = wire s \<and> pos t (EpIN 3) = 0)"
proof -
  obtain t where t: "CDC_Device_USBTask s = Some t" "online (k + 2) t" "wire t = wire s" "pos t (EpIN 3) = 0"
    using CDC_USBTask_on [of "k + 2" s] assms by (auto simp: yields_def eval_nat_numeral)
  then show ?thesis using USBTask_on [OF t(2)] by (auto simp: serial_tasks_def)
qed

lemma SendByte_on:
  assumes "online (Suc k) s"
  shows "yields (CDC_Device_SendByte v s) (\<lambda>(e, t). online k t \<and> wire t = (wire s)\<lparr>outgoing := outgoing (wire s) @ [v]\<rparr>)"
proof -
  let ?s = "Endpoint_SelectEndpoint 0x83 s"
  have on: "online (Suc k) ?s" "SelectedEndpoint ?s = 0x83" "wire ?s = wire s" using assms by simp_all
  note c = ClearIN_on [OF on(1,2)]
  obtain t where t: "Endpoint_WaitUntilReady (Endpoint_ClearIN ?s) = Some (NoError, t)" "online k t" "SelectedEndpoint t = 0x83"
    "wire t = wire s" "FIFOs t = FIFOs (Endpoint_ClearIN ?s)" using WaitUntilReady_on [OF c(1,4)] c(2) by auto
  have "pos t (EpIN 3) < 64" using t(5) c(3) by simp
  note d = Write_8_on [OF t(2,3) this, of v]
  have o: "online k ?s" by (rule online_less [OF on(1)]) simp
  note w = Write_8_on [OF o on(2), of v]
  show ?thesis
    using t d w on(3) allowed_on [OF on(1,2)] online_up [OF assms] online_addr(1) [OF assms]
    by (cases "pos ?s (EpIN 3) < 64") (simp_all add: CDC_Device_SendByte_def)
qed

lemma put_char_on:
  assumes "online (k + 6) s"
  shows "yields (USB_serial_put_char v s)
    (\<lambda>t. online k t \<and> wire t = (wire s)\<lparr>outgoing := outgoing (wire s) @ [v]\<rparr> \<and> pos t (EpIN 3) = 0)"
proof -
  have on: "online (Suc (k + 5)) (select_data_IN s)" "SelectedEndpoint (select_data_IN s) = 0x83" "wire (select_data_IN s) = wire s"
    using assms online_addr(1) [OF assms] by (simp_all add: select_data_IN_def eval_nat_numeral)
  obtain t where t: "Endpoint_IsINReady (select_data_IN s) = (True, t)" "online (k + 5) t" "wire t = wire s"
    using IsINReady_on [OF on(1,2)] on(3) by auto
  obtain e u where u: "CDC_Device_SendByte v t = Some (e, u)" "online (k + 4) u" "wire u = (wire s)\<lparr>outgoing := outgoing (wire s) @ [v]\<rparr>"
    using SendByte_on [of "k + 4" t v] t(2,3) by (auto simp: yields_def eval_nat_numeral)
  obtain w where w: "serial_tasks u = Some w" "online k w" "wire w = wire u" "pos w (EpIN 3) = 0"
    using serial_tasks_on [OF u(2)] by (auto simp: yields_def)
  have "DeviceState s = DEVICE_STATE_Configured" "ok_to_send s" using assms by (simp_all add: online_def)
  then have "USB_serial_put_char v s = put_char_loop v False w"
    unfolding USB_serial_put_char_def by (subst put_char_loop.simps) (simp add: t u w)
  also have "\<dots> = Some w" by (subst put_char_loop.simps) simp
  finally show ?thesis using w u by simp
qed

lemma stream_on:
  assumes "online (k + n) s" "SelectedEndpoint s = 0x83" "n < 2 ^ 16" "i + n \<le> length buf"
  shows "yields (stream_loop transfer_write Endpoint_ClearIN 1 (of_nat n) (int i) b None buf s)
    (\<lambda>(e, bp, bs, t). online k t \<and> wire t = (wire s)\<lparr>outgoing := outgoing (wire s) @ take n (drop i buf)\<rparr>)"
  using assms
proof (induction n arbitrary: s i b)
  case 0
  then show ?case by (simp add: stream_loop.simps)
next
  case (Suc n)
  have nz: "of_nat (Suc n) \<noteq> (0 :: u16)" using Suc.prems(3) by (intro of_nat_neq_0) simp_all
  have take: "take (Suc n) (drop i buf) = buf ! i # take n (drop (Suc i) buf)"
    using Suc.prems(4) by (simp add: Cons_nth_drop_Suc [symmetric])
  have step: "yields (stream_loop transfer_write Endpoint_ClearIN 1 (of_nat (Suc n)) (int i) b None buf t)
    (\<lambda>(e, bp, bs, u). online k u \<and> wire u = (wire t)\<lparr>outgoing := outgoing (wire t) @ take (Suc n) (drop i buf)\<rparr>)"
    if t: "online (k + n) t" "SelectedEndpoint t = 0x83" "pos t (EpIN 3) < 64" for t b
  proof -
    note w = Write_8_on [OF t, of "buf ! i"]
    have "transfer_write (int i) buf t = (buf, Endpoint_Write_8 (buf ! i) t)"
      using Suc.prems(4) by (simp add: transfer_write_def)
    then have "stream_loop transfer_write Endpoint_ClearIN 1 (of_nat (Suc n)) (int i) b None buf t =
        stream_loop transfer_write Endpoint_ClearIN 1 (of_nat n) (int (Suc i)) (b + 1) None buf (Endpoint_Write_8 (buf ! i) t)"
      using nz t allowed_on [OF t(1,2)] by (subst stream_loop.simps) (simp add: add.commute)
    then show ?thesis
      using Suc.IH [OF w(1,3), of "Suc i" "b + 1"] Suc.prems(3,4) w(2) by (simp add: take)
  qed
  show ?case
  proof (cases "pos s (EpIN 3) < 64")
    case True
    then show ?thesis using step [OF online_less [OF Suc.prems(1)] Suc.prems(2)] by simp
  next
    case False
    have on: "online (Suc (k + n)) s" using Suc.prems(1) by simp
    note c = ClearIN_on [OF on Suc.prems(2)]
    obtain t where t: "Endpoint_WaitUntilReady (Endpoint_ClearIN s) = Some (NoError, t)" "online (k + n) t"
      "SelectedEndpoint t = 0x83" "wire t = wire s" "FIFOs t = FIFOs (Endpoint_ClearIN s)"
      using WaitUntilReady_on [OF c(1,4)] c(2) by auto
    have "pos t (EpIN 3) < 64" using t(5) c(3) by simp
    from step [OF t(2,3) this, of b] show ?thesis
      using nz False t allowed_on [OF on Suc.prems(2)] by (subst stream_loop.simps) simp
  qed
qed

lemma SendData_on:
  assumes "online (k + Suc n) s" "n < 2 ^ 16" "n \<le> length buf"
  shows "yields (CDC_Device_SendData buf (of_nat n) s)
    (\<lambda>(e, t). online k t \<and> wire t = (wire s)\<lparr>outgoing := outgoing (wire s) @ take n buf\<rparr>)"
proof -
  have on: "online (Suc (k + n)) (Endpoint_SelectEndpoint 0x83 s)" using assms(1) by simp
  obtain t where t: "Endpoint_WaitUntilReady (Endpoint_SelectEndpoint 0x83 s) = Some (NoError, t)" "online (k + n) t"
    "SelectedEndpoint t = 0x83" "wire t = wire s" using WaitUntilReady_on [OF on] by auto
  show ?thesis
    using stream_on [OF t(2,3) assms(2), of 0 buf 0] assms(3) t(1,4) online_up [OF assms(1)] online_addr(1) [OF assms(1)]
    by (simp add: CDC_Device_SendData_def Endpoint_Write_Stream_LE_def stream_template_def offset_LE_def case_prod_unfold)
qed

lemma buf_bytes_wire: "wmem (wire t) = wmem (wire s) \<Longrightarrow> buf_bytes b t = buf_bytes b s"
  by (cases b) (simp_all add: wire_def)

lemma buf_bytes_split:
  "m \<le> n \<Longrightarrow> take m (buf_bytes b s) @ take (n - m) (buf_bytes (buf_add b m) s) = take n (buf_bytes b s)"
  using take_add [of m "n - m" "buf_bytes b s"] by (cases b) (simp_all add: add.commute)

text \<open>Every byte of a buffer costs the host at most seven turns.\<close>

lemma put_buf_on:
  assumes "online (k + 7 * n) s" "n < 2 ^ 16" "buf_fits b n"
  shows "yields (USB_serial_put_buf b (of_nat n) s)
    (\<lambda>t. online k t \<and> wire t = (wire s)\<lparr>outgoing := outgoing (wire s) @ take n (buf_bytes b s)\<rparr> \<and>
      (pos t (EpIN 3) = 0 \<or> t = s))"
  using assms
proof (induction n arbitrary: s b rule: less_induct)
  case (less n)
  have cfg: "DeviceState s = DEVICE_STATE_Configured" "ok_to_send s" using less.prems(1) by (simp_all add: online_def)
  show ?case
  proof (cases "n = 0")
    case True
    then show ?thesis using less.prems(1) by (subst USB_serial_put_buf.simps) simp
  next
    case False
    define m where "m = min n 63"
    have m: "0 < m" "m \<le> n" "m < 2 ^ 16" "n - m < n" using False less.prems(2) by (auto simp: m_def)
    have pos: "(of_nat n :: u16) > 0" "min (of_nat n :: u16) (CDC_RX_EPSIZE - 1) = of_nat m"
      using False less.prems(2) by (auto simp: m_def word_less_nat_alt word_le_nat_alt unat_of_nat min_def CDC_RX_EPSIZE_def)
    have u: "unat (of_nat m :: u16) = m" "of_nat n - of_nat m = (of_nat (n - m) :: u16)"
      using m by (simp_all add: unat_of_nat of_nat_diff)
    let ?k = "k + 7 * (n - m)"
    have on: "online (Suc (?k + 4 + Suc m)) (select_data_IN s)" "SelectedEndpoint (select_data_IN s) = 0x83"
      "wire (select_data_IN s) = wire s"
      using less.prems(1) m online_addr(1) [OF less.prems(1)]
      by (auto simp: select_data_IN_def intro!: online_less [OF less.prems(1), THEN select_online])
    obtain t where t: "Endpoint_IsINReady (select_data_IN s) = (True, t)" "online (?k + 4 + Suc m) t" "wire t = wire s"
      using IsINReady_on [OF on(1,2)] on(3) by auto
    have bt: "buf_bytes b t = buf_bytes b s" by (rule buf_bytes_wire) (simp add: t(3))
    have "m \<le> length (buf_bytes b t)"
      using buf_fits_bytes [OF idle_inv [OF online_idle [OF t(2)]] less.prems(3)] m(2) by simp
    then obtain e w where w: "CDC_Device_SendData (buf_bytes b t) (of_nat m) t = Some (e, w)" "online (?k + 4) w"
      "wire w = (wire s)\<lparr>outgoing := outgoing (wire s) @ take m (buf_bytes b s)\<rparr>"
      using SendData_on [OF t(2) m(3), of "buf_bytes b t"] t(3) bt by (auto simp: yields_def)
    obtain x where x: "serial_tasks w = Some x" "online ?k x" "wire x = wire w" "pos x (EpIN 3) = 0"
      using serial_tasks_on [OF w(2)] by (auto simp: yields_def)
    have "USB_serial_put_buf b (of_nat n) s = USB_serial_put_buf (buf_add b m) (of_nat (n - m)) x"
      using cfg pos u t(1) w(1) x(1) by (subst USB_serial_put_buf.simps) simp
    moreover have "buf_bytes (buf_add b m) x = buf_bytes (buf_add b m) s"
      by (rule buf_bytes_wire) (simp add: x(3) w(3))
    moreover have "n - m < 2 ^ 16" using less.prems(2) by simp
    ultimately show ?thesis
      using less.IH [OF m(4) x(2), of "buf_add b m"] less.prems(2) buf_fits_add [OF less.prems(3) m(2)] x(3,4) w(3) buf_bytes_split [OF m(2), of b s]
      by (auto simp: yields_def)
  qed
qed

subsection \<open>Receiving\<close>

lemma arrived_length:
  assumes "online k s"
  shows "length (arrived s) = (if rx_complete (hw s) then unat (rx_count (hw s)) - unat (pos s (EpOUT 4)) else 0)"
    "unat (rx_count (hw s)) \<le> 64" "rx_complete (hw s) \<Longrightarrow> unat (pos s (EpOUT 4)) \<le> unat (rx_count (hw s))"
  using usb_invD(3,5) [OF idle_inv [OF online_idle [OF assms]]] fifo_data(4) [OF assms]
  by (simp_all add: arrived_def hw_inv_def rx_inv_def word_le_nat_alt)

lemma length_wire [simp]: "wire (upd_FIFO (Length_update f) s) = wire s"
  by (auto simp: upd_FIFO_def raise_fault_def wire_def delivered_def pending_def arrived_def split: option.splits)

lemma length_online:
  assumes "online k s" "SelectedEndpoint s = 4"
  shows "online k (upd_FIFO (Length_update f) s)"
proof -
  have "quiet s (upd_FIFO (Length_update f) s)"
    using assms(2) by (intro set_Length_quiet [OF idle_inv [OF online_idle [OF assms(1)]]]) simp
  then have "idle (upd_FIFO (Length_update f) s)" using idle_quiet online_idle [OF assms(1)] by blast
  moreover have "FIFOs (upd_FIFO (Length_update f) s) (EpIN 3) = FIFOs s (EpIN 3)"
    using online_addr(4) [OF assms(1)] assms(2) by (simp add: upd_FIFO_def)
  ultimately show ?thesis using assms(1) by (simp add: online_def)
qed

lemma IsOUTReceived_on:
  assumes "online (Suc k) s" "SelectedEndpoint s = 4"
  shows "\<exists>t. Endpoint_IsOUTReceived s = (rx_complete (hw t), t) \<and> online k t \<and> SelectedEndpoint t = 4 \<and> wire t = wire s \<and>
    arrived t = arrived s \<and> USBtoUSART_Buffer t = USBtoUSART_Buffer s \<and>
    (rx_complete (hw t) \<longrightarrow> Length (FIFOs t (EpOUT 4)) = ucast (rx_count (hw t)))"
proof -
  obtain e where e: "poll s = s\<lparr>hw := (hw s)\<lparr>eptable := (eptable (hw s))(EpIN 3 := e)\<rparr>, sched := tl (sched s)\<rparr>"
    using poll_eq [OF assms(1)] .
  let ?p = "Endpoint_SelectEndpoint 4 (poll s)"
  have p: "online k ?p" "SelectedEndpoint ?p = 4" "wire ?p = wire s" using online_poll [OF assms(1)] by simp_all
  let ?u = "upd_FIFO (Length_update (\<lambda>_. ucast (EP_CNT (Handle ?p)))) ?p"
  have h: "Handle ?p = eptable (hw ?p) (EpOUT 4)" using online_addr(3) [OF p(1)] by (simp add: Handle_def)
  have a: "arrived ?p = arrived s" "arrived ?u = arrived s"
    using online_addr(4) [OF p(1)]
    by (simp_all add: e arrived_def Endpoint_SelectEndpoint_def upd_FIFO_def rx_complete_def rx_count_def)
  have l: "Length (FIFOs ?u (EpOUT 4)) = ucast (rx_count (hw ?u))"
    using online_addr(4) [OF p(1)] h by (simp add: upd_FIFO_def rx_count_def)
  have c: "rx_complete (hw ?u) = rx_complete (hw ?p)" by simp
  have "Endpoint_IsOUTReceived s = (if rx_complete (hw ?p) then (True, ?u) else (False, ?p))"
    using online_poll(4) [OF assms(1)] assms(2) h
    by (simp add: Endpoint_IsOUTReceived_def Let_def data_IN_sel rx_complete_def)
  then show ?thesis
    using p a l c length_online [OF p(1,2), of "\<lambda>_. ucast (EP_CNT (Handle ?p))"]
    by (cases "rx_complete (hw ?p)") (auto simp: e)
qed

lemma ClearOUT_on:
  assumes "online k s" "SelectedEndpoint s = 4" "arrived s = []"
  shows "online k (Endpoint_ClearOUT s)" "wire (Endpoint_ClearOUT s) = (wire s)\<lparr>full := False\<rparr>"
    "USBtoUSART_Buffer (Endpoint_ClearOUT s) = USBtoUSART_Buffer s"
proof -
  have eq: "Endpoint_ClearOUT s = s\<lparr>hw := (hw s)\<lparr>eptable := (eptable (hw s))(EpOUT 4 := (eptable (hw s) (EpOUT 4))\<lparr>
      EP_STATUS := EP_STATUS (eptable (hw s) (EpOUT 4)) AND NOT (USB_EP_TRNCOMPL0_bm OR USB_EP_BUSNACK0_bm OR USB_EP_OVF_bm)\<rparr>)\<rparr>,
    FIFOs := (FIFOs s)(EpOUT 4 := (FIFOs s (EpOUT 4))\<lparr>Position := 0\<rparr>)\<rparr>"
    using online_addr(3,4) [OF assms(1)] assms(2)
    by (simp add: Endpoint_ClearOUT_def upd_Handle_def upd_FIFO_def Let_def)
       (intro fw.equality xmega.equality; simp add: fun_eq_iff)
  have "idle (Endpoint_ClearOUT s)"
    using idle_quiet [OF online_idle [OF assms(1)] ClearOUT_quiet [OF idle_inv [OF online_idle [OF assms(1)]]]] .
  then show "online k (Endpoint_ClearOUT s)"
    using assms(1) unfolding online_def eq by (simp add: setup_flag_def)
  have n: "\<not> rx_complete (hw (Endpoint_ClearOUT s))"
    by (simp add: eq rx_complete_def) (rule bit_word_eqI, auto simp: bit_simps)
  from n have "arrived (Endpoint_ClearOUT s) = arrived s" by (simp add: arrived_def [of "Endpoint_ClearOUT s"] assms(3))
  then show "wire (Endpoint_ClearOUT s) = (wire s)\<lparr>full := False\<rparr>"
    using n by (simp add: wire_def) (simp add: eq delivered_def pending_def periph_def)
qed simp

lemma ReceiveByte_on:
  assumes "online (Suc k) s" "arrived s = c # cs"
  shows "\<exists>t. CDC_Device_ReceiveByte s = (uint c, t) \<and> online k t \<and> USBtoUSART_Buffer t = USBtoUSART_Buffer s \<and>
    wire t = (wire s)\<lparr>packet := cs, full := cs \<noteq> []\<rparr>"
proof -
  have on: "online (Suc k) (Endpoint_SelectEndpoint 4 s)" "SelectedEndpoint (Endpoint_SelectEndpoint 4 s) = 4"
    using assms(1) by simp_all
  have sel: "arrived (Endpoint_SelectEndpoint 4 s) = arrived s"
    "USBtoUSART_Buffer (Endpoint_SelectEndpoint 4 s) = USBtoUSART_Buffer s"
    by (simp_all add: arrived_def Endpoint_SelectEndpoint_def)
  obtain u where u: "Endpoint_IsOUTReceived (Endpoint_SelectEndpoint 4 s) = (rx_complete (hw u), u)" "online k u"
    "SelectedEndpoint u = 4" "wire u = wire s" "arrived u = c # cs" "USBtoUSART_Buffer u = USBtoUSART_Buffer s"
    "rx_complete (hw u) \<longrightarrow> Length (FIFOs u (EpOUT 4)) = ucast (rx_count (hw u))"
    using IsOUTReceived_on [OF on] assms(2) sel by auto
  have rc: "rx_complete (hw u)" using u(5) by (auto simp: arrived_def split: if_splits)
  have rx: "rx u" using rc u(2,3,7) online_idle [OF u(2)] by (simp add: rx_def)
  note al = arrived_length [OF u(2)]
  let ?p = "unat (pos u (EpOUT 4))"
  have lt: "?p < unat (rx_count (hw u))" using al(1) rc u(5) by simp
  have bytes: "Endpoint_BytesInEndpoint u \<noteq> 0"
  proof
    assume "Endpoint_BytesInEndpoint u = 0"
    then have "rx_count (hw u) = ucast (pos u (EpOUT 4))" using rx_bytes [OF rx] by simp
    then have "unat (rx_count (hw u)) = ?p" by simp
    with lt show False by simp
  qed
  define w where "w = u\<lparr>FIFOs := (FIFOs u)(EpOUT 4 := (FIFOs u (EpOUT 4))\<lparr>Position := pos u (EpOUT 4) + 1\<rparr>)\<rparr>"
  have rd: "Endpoint_Read_8 u = (ram (hw u) Out_fifo ! ?p, w)"
    unfolding w_def
    by (rule Read_8_eq) (use online_addr(4) [OF u(2)] u(3) fifo_data [OF u(2)] lt al(2) in simp_all)
  have p1: "unat (pos u (EpOUT 4) + 1) = Suc ?p" using lt al(2) by (simp add: unat_word_ariths)
  have "c # cs = ram (hw u) Out_fifo ! ?p # drop (Suc ?p) (take (unat (rx_count (hw u))) (ram (hw u) Out_fifo))"
    using u(5) rc lt al(2) fifo_data(4) [OF u(2)] by (simp add: arrived_def Cons_nth_drop_Suc [symmetric])
  then have c: "ram (hw u) Out_fifo ! ?p = c" and aw: "arrived w = cs"
    using rc p1 by (simp_all add: w_def arrived_def)
  have rw: "rx w" by (rule rx_Read_8 [OF rx bytes rd])
  have ow: "online k w" using u(2) online_idle [OF u(2)] rx_idle [OF rw] unfolding online_def by (simp add: w_def)
  have sw: "SelectedEndpoint w = 4" "USBtoUSART_Buffer w = USBtoUSART_Buffer s" using u(3,6) by (simp_all add: w_def)
  have rcw: "rx_complete (hw w)" using rc by (simp add: w_def)
  then have pw: "wire w = (wire s)\<lparr>packet := cs\<rparr>"
    using u(4) aw sw(2) rc by (simp add: wire_def) (simp add: w_def delivered_def pending_def)
  have fw: "full (wire s)" using u(4) [symmetric] rc by (simp add: wire_def)
  have all_read: "arrived w = []" if "Endpoint_BytesInEndpoint w = 0"
  proof -
    have "rx_count (hw w) = ucast (pos w (EpOUT 4))" using that rx_bytes [OF rw] by simp
    then have "unat (rx_count (hw w)) = unat (pos w (EpOUT 4))" by simp
    then show ?thesis by (simp add: arrived_def)
  qed
  moreover have "arrived w \<noteq> []" if "Endpoint_BytesInEndpoint w \<noteq> 0"
  proof
    assume "arrived w = []"
    then have "unat (rx_count (hw w)) = unat (ucast (pos w (EpOUT 4)) :: u16)" using arrived_length [OF ow] rcw by simp
    from word_unat_eqI [OF this] show False using that rx_bytes [OF rw] by simp
  qed
  ultimately have iff: "Endpoint_BytesInEndpoint w = 0 \<longleftrightarrow> cs = []" using aw by blast
  have "CDC_Device_ReceiveByte s = (uint c, if Endpoint_BytesInEndpoint w = 0 then Endpoint_ClearOUT w else w)"
    using online_up [OF assms(1)] online_addr(2) [OF assms(1)] u(1) rc bytes rd c
    by (simp add: CDC_Device_ReceiveByte_def)
  then show ?thesis using ow sw pw fw iff ClearOUT_on [OF ow sw(1) all_read] by auto
qed

lemma ring_on:
  assumes "online k s" "rb_invar b"
  shows "online k (s\<lparr>USBtoUSART_Buffer := b\<rparr>)"
    "wire (s\<lparr>USBtoUSART_Buffer := b\<rparr>) = (wire s)\<lparr>ring := b\<rparr>"
  using assms ring_update_inv [OF online_idle [OF assms(1)] assms(2)] unfolding online_def
  by (simp_all add: wire_def delivered_def pending_def arrived_def)

lemma get_char_loop_on:
  assumes "online (k + 5) s" "from_host (port s) \<noteq> []"
  shows "yields (get_char_loop s) (\<lambda>t. online k t \<and> port t = port s \<and> \<not> RingBuffer_IsEmpty (USBtoUSART_Buffer t) \<and>
    (pos t (EpIN 3) = 0 \<and> (full (wire t) \<longrightarrow> packet (wire t) \<noteq> []) \<or> t = s))"
proof (cases "RingBuffer_IsEmpty (USBtoUSART_Buffer s)")
  case False
  then show ?thesis using online_less [OF assms(1), of k] by (subst get_char_loop.simps) simp
next
  case True
  then have e: "rb_contents (USBtoUSART_Buffer s) = []" by (simp add: rb_empty_iff)
  then obtain c cs where cs: "arrived s = c # cs"
    using assms(2) by (cases "arrived s") (auto simp: port_def wire_def)
  have inv: "rb_invar (USBtoUSART_Buffer s)" by (rule usb_invD(8) [OF idle_inv [OF online_idle [OF assms(1)]]])
  have nf: "\<not> RingBuffer_IsFull (USBtoUSART_Buffer s)"
    using arg_cong [OF e, of length] rb_sizes(1) [OF inv] by (simp add: rb_full_iff)
  have on: "online (Suc (k + 4)) s" using assms(1) by (simp add: eval_nat_numeral)
  obtain t where t: "CDC_Device_ReceiveByte s = (uint c, t)" "online (k + 4) t" "USBtoUSART_Buffer t = USBtoUSART_Buffer s"
    "wire t = (wire s)\<lparr>packet := cs, full := cs \<noteq> []\<rparr>" using ReceiveByte_on [OF on cs] by auto
  obtain b where b: "RingBuffer_Insert (USBtoUSART_Buffer t) c = Some b" "rb_invar b" "rb_contents b = [c]"
    using rb_insert_ok [OF inv nf, of c] t(3) e by auto
  let ?u = "t\<lparr>USBtoUSART_Buffer := b\<rparr>"
  have u: "online (k + 4) ?u" "wire ?u = (wire s)\<lparr>packet := cs, full := cs \<noteq> [], ring := b\<rparr>" using ring_on [OF t(2) b(2)] t(4) by simp_all
  have "serial_receive s = ?u"
    using nf t(1) b(1) assms(1) by (simp add: serial_receive_def online_def ring_insert_def)
  moreover obtain w where w: "serial_tasks ?u = Some w" "online k w" "wire w = wire ?u" "pos w (EpIN 3) = 0"
    using serial_tasks_on [OF u(1)] by (auto simp: yields_def)
  ultimately have l: "get_char_loop s = get_char_loop w" using True by (subst get_char_loop.simps) simp
  have r: "USBtoUSART_Buffer w = b" using w(3) u(2) arg_cong [of "wire w" _ ring] by (simp add: wire_def)
  have "\<not> RingBuffer_IsEmpty (USBtoUSART_Buffer w)" using b(3) by (simp add: r rb_empty_iff)
  moreover from this have "get_char_loop w = Some w" by (subst get_char_loop.simps) simp
  moreover have "port w = port s"
    using w(3) u(2) b(3) cs e by (simp add: port_def) (simp add: wire_def)
  ultimately show ?thesis using l w(2-4) u(2) by simp
qed

text \<open>Between the commands every answer has been handed over to the host, and no empty packet is kept.\<close>

definition settled :: "nat \<Rightarrow> fw \<Rightarrow> bool" where
  "settled k s \<longleftrightarrow> online k s \<and> pos s (EpIN 3) = 0 \<and> (full (wire s) \<longrightarrow> packet (wire s) \<noteq> [])"

lemma settled_online: "settled k s \<Longrightarrow> online k s"
  by (simp add: settled_def)

lemma settled_less: "settled n s \<Longrightarrow> k \<le> n \<Longrightarrow> settled k s"
  by (auto simp: settled_def online_less)

lemma settled_delivered: "settled k s \<Longrightarrow> delivered s = to_host (port s)"
  by (simp add: settled_def port_def wire_def pending_def)

lemma get_char_on:
  assumes "settled (k + 5) s" "from_host (port s) = c # cs"
  shows "yields (USB_serial_get_char s) (\<lambda>(v, t). v = c \<and> settled k t \<and> port t = (port s)\<lparr>from_host := cs\<rparr>)"
proof -
  obtain t where t: "get_char_loop s = Some t" "online k t" "port t = port s" "\<not> RingBuffer_IsEmpty (USBtoUSART_Buffer t)"
    "pos t (EpIN 3) = 0" "full (wire t) \<longrightarrow> packet (wire t) \<noteq> []"
    using get_char_loop_on [OF settled_online [OF assms(1)]] assms(1,2) by (auto simp: yields_def settled_def)
  let ?r = "USBtoUSART_Buffer t"
  have inv: "rb_invar ?r" by (rule usb_invD(8) [OF idle_inv [OF online_idle [OF t(2)]]])
  have f: "rb_contents ?r @ arrived t = c # cs" using t(3) assms(2) by (simp add: port_def) (simp add: wire_def)
  moreover have "rb_contents ?r \<noteq> []" using t(4) by (simp add: rb_empty_iff)
  ultimately have hd: "hd (rb_contents ?r) = c" "tl (rb_contents ?r) @ arrived t = cs"
    by (cases "rb_contents ?r"; simp)+
  obtain b where b: "RingBuffer_Remove ?r = Some (c, b)" "rb_invar b" "rb_contents b = tl (rb_contents ?r)"
    using rb_remove_ok [OF inv t(4)] hd(1) by auto
  have "port (t\<lparr>USBtoUSART_Buffer := b\<rparr>) = (port s)\<lparr>from_host := cs\<rparr>"
    using ring_on(2) [OF t(2) b(2)] t(3) [symmetric] b(3) hd(2) by (simp add: port_def) (simp add: wire_def)
  then show ?thesis
    using t(1) rb_peek_ok [OF inv t(4)] b(1,2) hd(1) ring_on [OF t(2)] t(5,6) by (simp add: USB_serial_get_char_def settled_def)
qed

lemma get_short_on:
  assumes "settled (k + 10) s" "from_host (port s) = hi # lo # cs"
  shows "yields (USB_serial_get_short s)
    (\<lambda>(v, t). v = push_bit 8 (ucast hi) OR ucast lo \<and> settled k t \<and> port t = (port s)\<lparr>from_host := cs\<rparr>)"
proof -
  obtain t where t: "USB_serial_get_char s = Some (hi, t)" "settled (k + 5) t" "port t = (port s)\<lparr>from_host := lo # cs\<rparr>"
    using get_char_on [of "k + 5" s hi "lo # cs"] assms by (auto simp: yields_def eval_nat_numeral)
  then show ?thesis using get_char_on [of k t lo cs] by (auto simp: USB_serial_get_short_def yields_def)
qed

text \<open>The sending calls on the abstract port.\<close>

lemma port_wire: "wire t = (wire s)\<lparr>outgoing := bs\<rparr> \<Longrightarrow> port t = (port s)\<lparr>to_host := bs\<rparr>"
  by (simp add: port_def)

lemma put_char_port:
  assumes "settled (k + 6) s"
  shows "yields (USB_serial_put_char v s)
    (\<lambda>t. settled k t \<and> port t = (port s)\<lparr>to_host := to_host (port s) @ [v]\<rparr>)"
  by (rule yields_mono [OF put_char_on [OF settled_online [OF assms]]]) (use assms in \<open>auto simp: port_def settled_def\<close>)

lemma put_buf_port:
  assumes "settled (k + 7 * n) s" "n < 2 ^ 16" "buf_fits b n"
  shows "yields (USB_serial_put_buf b (of_nat n) s)
    (\<lambda>t. settled k t \<and> port t = (port s)\<lparr>to_host := to_host (port s) @ take n (buf_bytes b s)\<rparr>)"
  by (rule yields_mono [OF put_buf_on [OF settled_online [OF assms(1)] assms(2,3)]])
     (use assms(1) in \<open>auto simp: port_def settled_def\<close>)

subsection \<open>The host\<close>

text \<open>
  The host takes a packet the device offers: the controller reports the IN endpoint ready. It sends
  a packet when the OUT endpoint is free: the bytes are in the packet buffer of the endpoint and
  the controller reports the packet complete.
\<close>

definition takes_packet :: "xmega \<Rightarrow> xmega" where
  "takes_packet x = x\<lparr>eptable := (eptable x)(EpIN 3 := (eptable x (EpIN 3))\<lparr>EP_STATUS := USB_EP_BUSNACK0_bm\<rparr>)\<rparr>"

definition host_packet :: "byte list \<Rightarrow> xmega \<Rightarrow> xmega" where
  "host_packet bs x = x\<lparr>eptable := (eptable x)(EpOUT 4 := (eptable x (EpOUT 4))\<lparr>
       EP_STATUS := USB_EP_TRNCOMPL0_bm OR USB_EP_BUSNACK0_bm, EP_CNT := of_nat (length bs)\<rparr>),
     ram := (ram x)(Out_fifo := bs @ drop (length bs) (ram x Out_fifo))\<rparr>"

definition host_sends :: "nat \<Rightarrow> byte list \<Rightarrow> fw \<Rightarrow> fw" where
  "host_sends n bs s = s\<lparr>hw := host_packet bs (hw s), sched := replicate n takes_packet\<rparr>"

lemma takes_takes: "takes takes_packet" "hw_ok takes_packet"
  by (auto simp: takes_def takes_packet_def ready_def USB_EP_BUSNACK0_bm_def hw_ok_def setup_flag_def rx_complete_def
      rx_count_def)

lemma unat_of_nat_packet: "n \<le> 64 \<Longrightarrow> unat (of_nat n :: 16 word) = n"
  by (simp add: unat_of_nat take_bit_eq_mod)

lemma packet_fields:
  assumes "length bs \<le> 64"
  shows "rx_complete (host_packet bs x)" "rx_count (host_packet bs x) = of_nat (length bs)"
    "unat (rx_count (host_packet bs x)) = length bs"
    "setup_flag (host_packet bs x) = setup_flag x"
  using assms by (simp_all add: host_packet_def rx_complete_def rx_count_def setup_flag_def unat_of_nat_packet
      USB_EP_TRNCOMPL0_bm_def USB_EP_BUSNACK0_bm_def)

lemma packet_inv:
  assumes "hw_inv x" "length bs \<le> 64"
  shows "hw_inv (host_packet bs x)"
  using assms packet_fields [OF assms(2), of x]
  by (auto simp: hw_inv_def word_le_nat_alt) (auto simp: host_packet_def)

lemma host_sends_on:
  assumes "settled k s" "from_host (port s) = []" "0 < length bs" "length bs \<le> 64"
  shows "settled n (host_sends n bs s)" "port (host_sends n bs s) = (port s)\<lparr>from_host := bs\<rparr>"
proof -
  let ?s = "host_sends n bs s"
  have s: "online k s" "pos s (EpIN 3) = 0" "\<not> rx_complete (hw s)" "rb_contents (USBtoUSART_Buffer s) = []"
    using assms(1,2) by (auto simp: settled_def port_def wire_def)
  note i = usb_invD [OF idle_inv [OF online_idle [OF s(1)]]]
  have p: "pos s (EpOUT 4) = 0" using i(5) s(3) by (simp add: rx_inv_def)
  note f = packet_fields [OF assms(4), of "hw s"]
  have fr: "FIFOs ?s = FIFOs s" "hw ?s = host_packet bs (hw s)" "sched ?s = replicate n takes_packet"
    by (simp_all add: host_sends_def)
  have "idle ?s"
    using online_idle [OF s(1)] packet_inv [OF i(3) assms(4)] f p takes_takes(2)
    by (simp add: idle_def usb_inv_def host_sends_def sel_inv_def rx_inv_def list_all_iff)
  then have on: "online n ?s"
    using s(1) f takes_takes(1) by (auto simp: online_def host_sends_def list_all_iff) (simp add: host_packet_def)
  have ar: "arrived ?s = bs"
    using f p by (simp add: arrived_def fr) (simp add: host_packet_def)
  have w: "wire ?s = (wire s)\<lparr>packet := bs, full := True\<rparr>"
    using ar f by (simp add: wire_def fr)
      (simp add: host_sends_def host_packet_def delivered_def pending_def periph_def)
  show "settled n ?s" using on s(2) assms(3) by (auto simp: settled_def w fr)
  show "port ?s = (port s)\<lparr>from_host := bs\<rparr>"
    using s(4) by (simp add: port_def w) (simp add: wire_def)
qed

text \<open>A device the host has configured, with nothing sent and nothing waiting.\<close>

definition configured_fw :: fw where
  "configured_fw = reset_fw\<lparr>hw := reset_hw\<lparr>usb := reset_usb\<lparr>USB_EPPTR := True\<rparr>\<rparr>, sched := [],
     DeviceState := DEVICE_STATE_Configured, ok_to_send := True,
     CDC := VirtualSerial_CDC_Interface\<lparr>LineEncoding := \<lparr>BaudRateBPS = 9600, CharFormat = 0, ParityType = 0, DataBits = 8\<rparr>\<rparr>,
     SelectedEndpoint := 0, SelectedHandle := Some (EpOUT 0), SelectedFIFO := Some (EpOUT 0),
     FIFOs := boot_fifos(EpIN 3 := (boot_fifos (EpIN 3))\<lparr>Length := 64\<rparr>),
     USBtoUSART_Buffer := RingBuffer_InitBuffer [0, 0, 0, 0, 0] 5\<rparr>"

lemma configured_hw:
  "\<not> rx_complete (hw configured_fw)" "rx_count (hw configured_fw) = 0" "\<not> setup_flag (hw configured_fw)"
  by (simp_all add: configured_fw_def reset_hw_def rx_complete_def rx_count_def setup_flag_def ep_zero_def)

lemma configured_wire:
  "packet (wire configured_fw) = []" "\<not> full (wire configured_fw)" "outgoing (wire configured_fw) = []"
  "rb_contents (ring (wire configured_fw)) = []"
  using configured_hw
  by (simp_all add: wire_def arrived_def)
    (simp_all add: configured_fw_def reset_fw_def delivered_def pending_def boot_fifos_def fifo_zero_def rb_init_ok)

lemma configured_settled: "settled 0 configured_fw" "port configured_fw = (port configured_fw)\<lparr>to_host := [], from_host := []\<rparr>"
proof -
  have "fifo_inv (FIFOs configured_fw)" by (simp add: fifo_inv_def configured_fw_def boot_fifos_def fifo_zero_def)
  moreover have "hw_inv (hw configured_fw)" unfolding hw_inv_def configured_hw(2)
    by (simp add: configured_fw_def reset_hw_def reset_usb_def)
  moreover have "rx_inv (hw configured_fw) (pos configured_fw (EpOUT 4))"
    using configured_hw(1) by (simp add: rx_inv_def) (simp add: configured_fw_def boot_fifos_def fifo_zero_def)
  moreover have "cdc_inv (CDC configured_fw)"
    by (simp add: configured_fw_def cdc_inv_def VirtualSerial_CDC_Interface_def endpoint_entry_def CDC_TX_EPADDR_def
      CDC_TX_EPSIZE_def CDC_RX_EPADDR_def CDC_RX_EPSIZE_def CDC_NOTIFICATION_EPADDR_def CDC_NOTIFICATION_EPSIZE_def
      ENDPOINT_DIR_IN_def)
  moreover have "sel_inv configured_fw" "\<not> fault configured_fw" "sched configured_fw = []" "rb_invar (USBtoUSART_Buffer configured_fw)"
    "pos configured_fw (EpOUT 0) = 0"
    using rb_init_ok(1) [of 5 "[0, 0, 0, 0, 0]"]
    by (simp_all add: configured_fw_def reset_fw_def sel_inv_def ep_of_def boot_fifos_def fifo_zero_def)
  ultimately have "idle configured_fw" by (simp add: idle_def usb_inv_def)
  then show "settled 0 configured_fw"
    using configured_hw(3) configured_wire(2) unfolding settled_def online_def
    by (simp add: configured_fw_def reset_hw_def reset_usb_def boot_fifos_def fifo_zero_def)
  show "port configured_fw = (port configured_fw)\<lparr>to_host := [], from_host := []\<rparr>"
    by (simp add: port_def configured_wire)
qed

subsection \<open>The streams\<close>

text \<open>C3. Sending reaches the host. On a configured device with a host that takes its packets, a
  buffer of \<open>n\<close> bytes inside the memory of its object is sent within \<open>7 * n\<close> turns of the host:
  the call returns and the bytes the host has received are those it had, then the \<open>n\<close> bytes of
  the buffer, in order, none lost and none repeated.
\<close>

theorem put_buf_delivers:
  assumes "settled (7 * n) s" "n < 2 ^ 16" "buf_fits b n"
  shows "\<exists>t. USB_serial_put_buf b (of_nat n) s = Some t \<and> delivered t = delivered s @ take n (buf_bytes b s)"
proof -
  have "settled (0 + 7 * n) s" using assms(1) by simp
  from put_buf_port [OF this assms(2,3)] show ?thesis
    using settled_delivered [where k = 0] settled_delivered [OF assms(1)] by (auto simp: yields_def)
qed

theorem put_buf_delivers_witness:
  "\<exists>t. USB_serial_put_buf (ScopeBuf 0) 3584 (host_sends 25088 [0x74] configured_fw) = Some t \<and> delivered t = replicate 3584 0"
proof -
  let ?s = "host_sends 25088 [0x74] configured_fw"
  have "from_host (port configured_fw) = []" by (subst configured_settled(2)) simp
  note on = host_sends_on [OF configured_settled(1) this, of "[0x74]"]
  have s: "settled (7 * 3584) ?s" using on(1) by simp
  have "delivered ?s = []" "buf_bytes (ScopeBuf 0) ?s = replicate 3584 0"
    by (simp_all add: delivered_def host_sends_def host_packet_def configured_fw_def reset_fw_def reset_hw_def SCOPE_SIZE_def)
  then show ?thesis
    using put_buf_delivers [OF s, of "ScopeBuf 0"] by (simp add: SCOPE_SIZE_def)
qed

text \<open>C4. Reading takes the next byte. On a configured device to which the host has sent the bytes
  \<open>c # cs\<close>, some of them already moved to the ring buffer and the others still in the packet
  buffer of the endpoint, reading a character returns \<open>c\<close> within five turns of the host, leaves
  \<open>cs\<close> to be read and sends nothing.
\<close>

theorem get_char_reads:
  assumes "settled 5 s" "from_host (port s) = c # cs"
  shows "\<exists>t. USB_serial_get_char s = Some (c, t) \<and> from_host (port t) = cs \<and> delivered t = delivered s"
proof -
  have "settled (0 + 5) s" using assms(1) by simp
  from get_char_on [OF this assms(2)] show ?thesis
    using settled_delivered [where k = 0] settled_delivered [OF assms(1)] by (auto simp: yields_def)
qed

theorem get_char_reads_witness:
  "\<exists>t. USB_serial_get_char (host_sends 5 [0x73, 0x74] configured_fw) = Some (0x73, t) \<and> from_host (port t) = [0x74]"
proof -
  have "from_host (port configured_fw) = []" by (subst configured_settled(2)) simp
  note on = host_sends_on [OF configured_settled(1) this, of "[0x73, 0x74]" 5]
  show ?thesis using get_char_reads [of "host_sends 5 [0x73, 0x74] configured_fw"] on by auto
qed

end
