(* ===== verification/ScopeProtocol.thy ===== *)
theory ScopeProtocol
  imports SerialPort
begin

text \<open>
  The command protocol of the oscilloscope. \<open>command_spec\<close> is an interpreter of the commands on the
  abstract port: the settings, the bytes to the host, the registers. The command loop of the
  firmware implements it: every script of commands the host sends is executed, every command
  returns, and the host receives the bytes of the interpreter.
\<close>

unbundle bit_operations_syntax

subsection \<open>Commands of the abstract port\<close>

definition say :: "byte list \<Rightarrow> aport \<Rightarrow> aport" where
  "say bs p = p\<lparr>to_host := to_host p @ bs\<rparr>"

definition set_adca :: "(adc_t \<Rightarrow> adc_t) \<Rightarrow> aport \<Rightarrow> aport" where
  "set_adca f p = p\<lparr>regs := (case regs p of (a, r) \<Rightarrow> (f a, r))\<rparr>"

definition set_power :: "byte \<Rightarrow> aport \<Rightarrow> aport" where
  "set_power x p = p\<lparr>regs := (case regs p of (a, d, t, c, pa, pc, r) \<Rightarrow>
     (a, d, t, c\<lparr>TC2_CTRLC := x\<rparr>, pa, pc\<lparr>PORT_OUT := x\<rparr>, r))\<rparr>"

definition arguments :: "byte \<Rightarrow> nat" where
  "arguments c = (if c \<in> ch ` {CHR ''n'', CHR ''b'', CHR ''w'', CHR ''l'', CHR ''e''} then 2
     else if c \<in> ch ` {CHR ''g'', CHR ''c'', CHR ''8'', CHR ''p''} then 1 else 0)"

definition big_endian :: "byte list \<Rightarrow> u16" where
  "big_endian args = push_bit 8 (ucast (args ! 0)) OR ucast (args ! 1)"

text \<open>Commands that wait for the trigger or for the DMA controller need other hardware than the USB.\<close>

definition waits_for_hardware :: "byte \<Rightarrow> bool" where
  "waits_for_hardware c \<longleftrightarrow> c \<in> ch ` {CHR ''d'', CHR ''f'', CHR ''8'', CHR ''h''}"

definition command_spec :: "byte \<Rightarrow> byte list \<Rightarrow> scope_vars \<times> aport \<Rightarrow> scope_vars \<times> aport" where
  "command_spec c args vp = (case vp of (v, p) \<Rightarrow>
     if c = ch CHR ''t'' \<or> c = ch CHR ''T'' then (v, say [ch CHR ''T''] p)
     else if c = ch CHR ''s'' then (v, say (take (unat (numberOfSamples v)) (sample_mem p)) p)
     else if c = ch CHR ''n'' then
       (if unat (big_endian args) \<le> 3584 then (v\<lparr>numberOfSamples := big_endian args\<rparr>, say [ch CHR ''d''] p)
        else (v, say (map ch (''Buffer too big'' @ crlf)) p))
     else if c = ch CHR ''g'' then
       (v, say [ch CHR ''d''] (set_adca (ADC_CH0_update (CH_CTRL_update (\<lambda>x. x OR push_bit 2 (args ! 0)))) p))
     else if c = ch CHR ''c'' then
       (v, say [ch CHR ''d''] (set_adca (ADC_PRESCALER_update (\<lambda>x. x AND NOT 7 OR args ! 0 AND 7)) p))
     else if c = ch CHR ''b'' then (v, say [ch CHR ''d''] (set_adca (ADC_CAL_update (\<lambda>_. big_endian args)) p))
     else if c = ch CHR ''w'' then (v\<lparr>delay := big_endian args\<rparr>, say [ch CHR ''d''] p)
     else if c = ch CHR ''l'' then (v\<lparr>glitch_length := ucast (big_endian args)\<rparr>, say [ch CHR ''d''] p)
     else if c = ch CHR ''e'' then (v\<lparr>timeout := ucast (big_endian args)\<rparr>, say [ch CHR ''d''] p)
     else if c = ch CHR ''p'' then (v\<lparr>pulses := args ! 0\<rparr>, say [ch CHR ''d''] p)
     else if c = ch CHR ''x'' then (v, say [ch CHR ''d''] (set_power 0 p))
     else if c = ch CHR ''y'' then (v, say [ch CHR ''d''] (set_power 0xFF p))
     else (v, say (map ch ''Invalid command:'' @ [c] @ map ch crlf) p))"

subsection \<open>Registers\<close>

lemma settled_view: "usb_view t = usb_view s \<Longrightarrow> settled k s \<Longrightarrow> settled k t"
proof -
  have "settled k (usb_view u) = settled k u" for u
    using idle_view [of u] by (simp add: settled_def online_def) (simp add: usb_view_def setup_flag_def wire_def arrived_def rx_complete_def rx_count_def)
  then show "usb_view t = usb_view s \<Longrightarrow> settled k s \<Longrightarrow> settled k t" by metis
qed

lemma regs_port:
  "port (upd_adca f s) = set_adca f (port s)"
  "port (upd_tcc2 (TC2_CTRLC_update (\<lambda>_. x)) (upd_port PORTC (PORT_OUT_update (\<lambda>_. x)) s)) = set_power x (port s)"
  by (simp_all add: port_def wire_def set_adca_def set_power_def delivered_def pending_def arrived_def periph_def
      rx_complete_def rx_count_def)

subsection \<open>The command loop\<close>

lemma reply_on:
  assumes "settled (k + 6) s"
  shows "yields (reply c v s) (\<lambda>(v', t). settled k t \<and> v' = v \<and> port t = say [ch c] (port s))"
  using put_char_port [OF assms, of "ch c"] by (auto simp: reply_def put_def say_def yields_def)

lemma put_string_on:
  assumes "settled (k + 6 * length bs) s" "0 \<notin> set bs"
  shows "yields (USB_serial_put_string_P_internal (bs @ [0]) s) (\<lambda>t. settled k t \<and> port t = say bs (port s))"
  using assms
proof (induction bs arbitrary: s)
  case Nil
  then show ?case by (simp add: say_def)
next
  case (Cons b bs)
  have on: "settled (k + 6 * length bs + 6) s" using Cons.prems(1) by (simp add: algebra_simps)
  obtain t where t: "USB_serial_put_char b s = Some t" "settled (k + 6 * length bs) t" "port t = say [b] (port s)"
    using put_char_port [OF on, of b] by (auto simp: yields_def say_def)
  then show ?case using Cons.IH [OF t(2)] Cons.prems(2) by (auto simp: say_def)
qed

lemma byte_full: "(x :: byte) OR 0xFF = 0xFF" "(x :: byte) AND NOT 0xFF = 0"
proof -
  have "(0xFF :: byte) = - 1" by simp
  then show "(x :: byte) OR 0xFF = 0xFF" "(x :: byte) AND NOT 0xFF = 0" 
    by (simp_all only: bit.disj_one_right bit.compl_one bit.conj_zero_right)
qed

lemma reply_regs:
  assumes "settled (k + 6) s" "usb_view t = usb_view s"
  shows "yields (reply c v t) (\<lambda>(v', u). settled k u \<and> v' = v \<and> port u = say [ch c] (port t))"
  by (rule reply_on [OF settled_view [OF assms(2,1)]])

lemma power_on_cmd:
  assumes "settled (k + 6) s"
  shows "yields (cmd_on v s) (\<lambda>(v', t). settled k t \<and> v' = v \<and> port t = say [ch CHR ''d''] (set_power 0xFF (port s)))"
    "yields (cmd_off v s) (\<lambda>(v', t). settled k t \<and> v' = v \<and> port t = say [ch CHR ''d''] (set_power 0 (port s)))"
  unfolding cmd_on_def cmd_off_def Let_def
  by (rule yields_mono [OF reply_regs [OF assms]], simp only: view_regs, simp only: byte_full regs_port)+

lemma char_commands:
  assumes "settled (k + 11) s" "from_host (port s) = a # cs"
  shows "yields (cmd_gain v s) (\<lambda>(v', t). settled k t \<and> v' = v \<and> port t = say [ch CHR ''d'']
      (set_adca (ADC_CH0_update (CH_CTRL_update (\<lambda>x. x OR push_bit 2 a))) ((port s)\<lparr>from_host := cs\<rparr>)))"
    "yields (cmd_clock v s) (\<lambda>(v', t). settled k t \<and> v' = v \<and> port t = say [ch CHR ''d'']
      (set_adca (ADC_PRESCALER_update (\<lambda>x. x AND NOT 7 OR a AND 7)) ((port s)\<lparr>from_host := cs\<rparr>)))"
    "yields (cmd_pulses v s) (\<lambda>(v', t). settled k t \<and> v' = v\<lparr>pulses := a\<rparr> \<and> port t = say [ch CHR ''d''] ((port s)\<lparr>from_host := cs\<rparr>))"
proof -
  have "settled ((k + 6) + 5) s" using assms(1) by (simp add: add.assoc)
  from get_char_on [OF this assms(2)] obtain t where t: "USB_serial_get_char s = Some (a, t)" "settled (k + 6) t"
    "port t = (port s)\<lparr>from_host := cs\<rparr>" by (auto simp: yields_def)
  have g: "adc_ch_gain (push_bit 2 a) = CH_CTRL_update (\<lambda>x. x OR push_bit 2 a)" by (simp add: adc_ch_gain_def fun_eq_iff)
  have p: "adc_prescaler (a AND 7) = upd_adca (ADC_PRESCALER_update (\<lambda>x. x AND NOT 7 OR a AND 7))"
    by (simp add: adc_prescaler_def set_group_def ADC_PRESCALER_gm_def fun_eq_iff)
  show "yields (cmd_gain v s) (\<lambda>(v', t). settled k t \<and> v' = v \<and> port t = say [ch CHR ''d'']
      (set_adca (ADC_CH0_update (CH_CTRL_update (\<lambda>x. x OR push_bit 2 a))) ((port s)\<lparr>from_host := cs\<rparr>)))"
    using reply_regs [OF t(2), of "upd_CH0 (adc_ch_gain (push_bit 2 a)) t" "CHR ''d''" v] t(1,3) regs_port(1)
    by (simp only: cmd_gain_def yields_simps g view_adc case_prod_conv)
  show "yields (cmd_clock v s) (\<lambda>(v', t). settled k t \<and> v' = v \<and> port t = say [ch CHR ''d'']
      (set_adca (ADC_PRESCALER_update (\<lambda>x. x AND NOT 7 OR a AND 7)) ((port s)\<lparr>from_host := cs\<rparr>)))"
    using reply_regs [OF t(2), of "adc_prescaler (a AND 7) t" "CHR ''d''" v] t(1,3) regs_port(1)
    by (simp only: cmd_clock_def yields_simps p view_adc case_prod_conv)
  show "yields (cmd_pulses v s) (\<lambda>(v', t). settled k t \<and> v' = v\<lparr>pulses := a\<rparr> \<and> port t = say [ch CHR ''d''] ((port s)\<lparr>from_host := cs\<rparr>))"
    using reply_on [OF t(2)] t(1,3) by (simp add: cmd_pulses_def)
qed

lemma short_commands:
  assumes "settled (k + 16) s" "from_host (port s) = hi # lo # cs"
  defines "d \<equiv> push_bit 8 (ucast hi) OR ucast lo"
  shows "yields (cmd_bias v s) (\<lambda>(v', t). settled k t \<and> v' = v \<and> port t = say [ch CHR ''d'']
      (set_adca (ADC_CAL_update (\<lambda>_. d)) ((port s)\<lparr>from_host := cs\<rparr>)))"
    "yields (cmd_delay v s) (\<lambda>(v', t). settled k t \<and> v' = v\<lparr>delay := d\<rparr> \<and> port t = say [ch CHR ''d''] ((port s)\<lparr>from_host := cs\<rparr>))"
    "yields (cmd_length v s) (\<lambda>(v', t). settled k t \<and> v' = v\<lparr>glitch_length := ucast d\<rparr> \<and> port t = say [ch CHR ''d''] ((port s)\<lparr>from_host := cs\<rparr>))"
    "yields (cmd_timeout v s) (\<lambda>(v', t). settled k t \<and> v' = v\<lparr>timeout := ucast d\<rparr> \<and> port t = say [ch CHR ''d''] ((port s)\<lparr>from_host := cs\<rparr>))"
proof -
  have "settled ((k + 6) + 10) s" using assms(1) by (simp add: add.assoc)
  from get_short_on [OF this assms(2)] obtain t where t: "USB_serial_get_short s = Some (d, t)" "settled (k + 6) t"
    "port t = (port s)\<lparr>from_host := cs\<rparr>" by (auto simp: yields_def d_def)
  show "yields (cmd_bias v s) (\<lambda>(v', t). settled k t \<and> v' = v \<and> port t = say [ch CHR ''d'']
      (set_adca (ADC_CAL_update (\<lambda>_. d)) ((port s)\<lparr>from_host := cs\<rparr>)))"
    using reply_regs [OF t(2), of "adc_calibrate d t" "CHR ''d''" v] t(1,3) regs_port(1)
    by (simp only: cmd_bias_def yields_simps adc_calibrate_def view_adc case_prod_conv)
  show "yields (cmd_delay v s) (\<lambda>(v', t). settled k t \<and> v' = v\<lparr>delay := d\<rparr> \<and> port t = say [ch CHR ''d''] ((port s)\<lparr>from_host := cs\<rparr>))"
    "yields (cmd_length v s) (\<lambda>(v', t). settled k t \<and> v' = v\<lparr>glitch_length := ucast d\<rparr> \<and> port t = say [ch CHR ''d''] ((port s)\<lparr>from_host := cs\<rparr>))"
    "yields (cmd_timeout v s) (\<lambda>(v', t). settled k t \<and> v' = v\<lparr>timeout := ucast d\<rparr> \<and> port t = say [ch CHR ''d''] ((port s)\<lparr>from_host := cs\<rparr>))"
    using reply_on [OF t(2)] t(1,3) by (simp_all add: cmd_delay_def cmd_length_def cmd_timeout_def)
qed

lemma samples_command:
  assumes "settled (k + 106) s" "from_host (port s) = hi # lo # cs"
  shows "yields (cmd_samples v s) (\<lambda>(v', t). settled k t \<and>
    (v', port t) = command_spec (ch CHR ''n'') [hi, lo] (v, (port s)\<lparr>from_host := cs\<rparr>))"
proof -
  let ?d = "push_bit 8 (ucast hi) OR ucast lo :: u16"
  have "settled ((k + 96) + 10) s" using assms(1) by (simp add: add.assoc)
  from get_short_on [OF this assms(2)] obtain t where t: "USB_serial_get_short s = Some (?d, t)" "settled (k + 96) t"
    "port t = (port s)\<lparr>from_host := cs\<rparr>" by (auto simp: yields_def)
  have m: "settled (k + 6 * length (map ch (''Buffer too big'' @ crlf))) t" "0 \<notin> set (map ch (''Buffer too big'' @ crlf))"
    using t(2) by (simp_all add: crlf_def ch_def)
  have o: "settled (k + 6) t" by (rule settled_less [OF t(2)]) simp
  obtain u where u: "USB_serial_put_string_P_internal (cstring (''Buffer too big'' @ crlf)) t = Some u" "settled k u"
    "port u = say (map ch (''Buffer too big'' @ crlf)) (port t)"
    using put_string_on [OF m] unfolding yields_def cstring_def by blast
  obtain w where w: "reply CHR ''d'' (v\<lparr>numberOfSamples := ?d\<rparr>) t = Some (v\<lparr>numberOfSamples := ?d\<rparr>, w)" "settled k w"
    "port w = say [ch CHR ''d''] (port t)"
    using reply_on [OF o, of "CHR ''d''" "v\<lparr>numberOfSamples := ?d\<rparr>"] by (auto simp: yields_def)
  show ?thesis
  proof (cases "unat ?d \<le> 3584")
    case True
    then show ?thesis
      using t(1,3) w by (simp add: cmd_samples_def SCOPE_SIZE_def command_spec_def big_endian_def ch_def)
  next
    case False
    then have "cmd_samples v s = Some (v, u)" using t(1) u(1) by (simp only: cmd_samples_def SCOPE_SIZE_def) simp
    then show ?thesis using False u t(3) by (simp add: command_spec_def big_endian_def) (simp add: ch_def)
  qed
qed

lemma invalid_command:
  assumes "settled (k + 114) s"
  shows "yields (cmd_invalid c v s) (\<lambda>(v', t). settled k t \<and> v' = v \<and>
    port t = say (map ch ''Invalid command:'' @ [c] @ map ch crlf) (port s))"
proof -
  have m: "settled ((k + 18) + 6 * length (map ch ''Invalid command:'')) s" "0 \<notin> set (map ch ''Invalid command:'')"
    using assms by (simp add: add.commute) (simp add: ch_def)
  obtain t where t: "USB_serial_put_string_P_internal (cstring ''Invalid command:'') s = Some t" "settled (k + 18) t"
    "port t = say (map ch ''Invalid command:'') (port s)"
    using put_string_on [OF m] unfolding yields_def cstring_def by blast
  have "settled ((k + 12) + 6) t" using t(2) by (simp add: add.assoc)
  then obtain u where u: "USB_serial_put_char c t = Some u" "settled (k + 12) u" "port u = say [c] (port t)"
    using put_char_port [of "k + 12" t c] by (auto simp: yields_def say_def)
  have n: "settled (k + 6 * length (map ch crlf)) u" "0 \<notin> set (map ch crlf)" using u(2) by (simp_all add: crlf_def ch_def)
  obtain w where w: "USB_serial_put_string_P_internal (cstring crlf) u = Some w" "settled k w" "port w = say (map ch crlf) (port u)"
    using put_string_on [OF n] unfolding yields_def cstring_def by blast
  have "cmd_invalid c v s = Some (v, w)" by (simp only: cmd_invalid_def t(1) u(1) w(1) bind.bind_lunit)
  then show ?thesis using t u w by (simp add: say_def)
qed

lemma fetch_command:
  assumes "settled (k + 7 * unat (numberOfSamples v)) s" "unat (numberOfSamples v) \<le> SCOPE_SIZE"
  shows "yields (cmd_sample_fetch v s) (\<lambda>(v', t). settled k t \<and> v' = v \<and>
    port t = say (take (unat (numberOfSamples v)) (sample_mem (port s))) (port s))"
proof -
  have "unat (numberOfSamples v) < 2 ^ 16" using unat_u16_bound [of "numberOfSamples v"] by simp
  from put_buf_port [OF assms(1) this, of "ScopeBuf 0"] assms(2) show ?thesis
    by (auto simp: cmd_sample_fetch_def yields_def say_def port_def wire_def)
qed

text \<open>What a turn of the command loop may cost: the longest answer is the sample buffer.\<close>

definition turn_cost :: nat where
  "turn_cost = 7 * 3584 + 130"

lemma arguments_split:
  "length args = 2 \<Longrightarrow> \<exists>a b. args = [a, b]" "length args = 1 \<Longrightarrow> \<exists>a. args = [a]"
  by (auto simp: length_Suc_conv numeral_2_eq_2)

lemma ch_eq: "ch x = ch y \<longleftrightarrow> x = y"
proof
  have u: "unat (ch c) = of_char c" for c
  proof -
    have "ch c = of_nat (of_char c)" by (cases c) (simp add: ch_def of_char_def)
    then show ?thesis using nat_of_char_less_256 [of c] by (simp only: unat_of_nat) simp
  qed
  assume "ch x = ch y"
  then have "(of_char x :: nat) = of_char y" using u by metis
  then show "x = y" by simp
qed simp

lemma dispatch_eqs:
  "scope_dispatch lk (ch CHR ''T'') v s = reply CHR ''T'' v s" "scope_dispatch lk (ch CHR ''t'') v s = reply CHR ''T'' v s"
  "scope_dispatch lk (ch CHR ''s'') v s = cmd_sample_fetch v s" "scope_dispatch lk (ch CHR ''n'') v s = cmd_samples v s"
  "scope_dispatch lk (ch CHR ''g'') v s = cmd_gain v s" "scope_dispatch lk (ch CHR ''c'') v s = cmd_clock v s"
  "scope_dispatch lk (ch CHR ''b'') v s = cmd_bias v s" "scope_dispatch lk (ch CHR ''w'') v s = cmd_delay v s"
  "scope_dispatch lk (ch CHR ''l'') v s = cmd_length v s" "scope_dispatch lk (ch CHR ''e'') v s = cmd_timeout v s"
  "scope_dispatch lk (ch CHR ''p'') v s = cmd_pulses v s" "scope_dispatch lk (ch CHR ''x'') v s = cmd_off v s"
  "scope_dispatch lk (ch CHR ''y'') v s = cmd_on v s"
  by (simp_all add: scope_dispatch_def ch_eq)

lemma spec_eqs:
  "command_spec (ch CHR ''T'') args (v, p) = (v, say [ch CHR ''T''] p)"
  "command_spec (ch CHR ''t'') args (v, p) = (v, say [ch CHR ''T''] p)"
  "command_spec (ch CHR ''s'') args (v, p) = (v, say (take (unat (numberOfSamples v)) (sample_mem p)) p)"
  "command_spec (ch CHR ''g'') args (v, p) =
     (v, say [ch CHR ''d''] (set_adca (ADC_CH0_update (CH_CTRL_update (\<lambda>x. x OR push_bit 2 (args ! 0)))) p))"
  "command_spec (ch CHR ''c'') args (v, p) =
     (v, say [ch CHR ''d''] (set_adca (ADC_PRESCALER_update (\<lambda>x. x AND NOT 7 OR args ! 0 AND 7)) p))"
  "command_spec (ch CHR ''b'') args (v, p) = (v, say [ch CHR ''d''] (set_adca (ADC_CAL_update (\<lambda>_. big_endian args)) p))"
  "command_spec (ch CHR ''w'') args (v, p) = (v\<lparr>delay := big_endian args\<rparr>, say [ch CHR ''d''] p)"
  "command_spec (ch CHR ''l'') args (v, p) = (v\<lparr>glitch_length := ucast (big_endian args)\<rparr>, say [ch CHR ''d''] p)"
  "command_spec (ch CHR ''e'') args (v, p) = (v\<lparr>timeout := ucast (big_endian args)\<rparr>, say [ch CHR ''d''] p)"
  "command_spec (ch CHR ''p'') args (v, p) = (v\<lparr>pulses := args ! 0\<rparr>, say [ch CHR ''d''] p)"
  "command_spec (ch CHR ''x'') args (v, p) = (v, say [ch CHR ''d''] (set_power 0 p))"
  "command_spec (ch CHR ''y'') args (v, p) = (v, say [ch CHR ''d''] (set_power 0xFF p))"
  by (simp_all add: command_spec_def ch_eq)

lemma dispatch_on:
  assumes "settled (k + 7 * 3584 + 120) s" "from_host (port s) = args @ rest" "length args = arguments c"
    "\<not> waits_for_hardware c" "unat (numberOfSamples v) \<le> SCOPE_SIZE"
  shows "yields (scope_dispatch lk c v s) (\<lambda>(v', t). settled k t \<and>
    (v', port t) = command_spec c args (v, (port s)\<lparr>from_host := rest\<rparr>))"
proof -
  have on: "settled (k + n) s" if "n \<le> 7 * 3584 + 120" for n by (rule settled_less [OF assms(1)]) (use that in simp)
  have nh: "c \<noteq> ch CHR ''d''" "c \<noteq> ch CHR ''f''" "c \<noteq> ch CHR ''8''" "c \<noteq> ch CHR ''h''"
    using assms(4) by (auto simp: waits_for_hardware_def)
  have nop: "(port s)\<lparr>from_host := args @ rest\<rparr> = port s" using assms(2) by (metis aport.surjective aport.update_convs(2))
  have no: "(port s)\<lparr>from_host := rest\<rparr> = port s" if "args = []" using that nop by simp
  have o: "settled (k + 6) s" "settled (k + 11) s" "settled (k + 16) s" "settled (k + 106) s" "settled (k + 114) s"
    "settled (k + 7 * unat (numberOfSamples v)) s"
    using assms(5) by (auto intro!: on simp: SCOPE_SIZE_def)
  note d = ch_eq
  consider "c \<in> {ch CHR ''T'', ch CHR ''t''}" | "c = ch CHR ''s''" | "c = ch CHR ''n''" | "c \<in> {ch CHR ''g'', ch CHR ''c'', ch CHR ''p''}"
    | "c \<in> {ch CHR ''b'', ch CHR ''w'', ch CHR ''l'', ch CHR ''e''}" | "c \<in> {ch CHR ''x'', ch CHR ''y''}"
    | "c \<notin> ch ` {CHR ''T'', CHR ''t'', CHR ''s'', CHR ''n'', CHR ''g'', CHR ''c'', CHR ''p'', CHR ''b'', CHR ''w'',
        CHR ''l'', CHR ''e'', CHR ''x'', CHR ''y''}"
    by auto
  then show ?thesis
  proof cases
    case 1
    then have "args = []" using assms(3) by (auto simp: arguments_def d)
    then show ?thesis using 1 no reply_on [OF o(1), of "CHR ''T''" v] by (auto simp: dispatch_eqs spec_eqs)
  next
    case 2
    then have "args = []" using assms(3) by (auto simp: arguments_def d)
    then show ?thesis using 2 no fetch_command [OF o(6) assms(5)] by (simp add: dispatch_eqs spec_eqs)
  next
    case 3
    then have "length args = 2" using assms(3) by (simp add: arguments_def d)
    from arguments_split(1) [OF this] obtain a b where "args = [a, b]" by blast
    then show ?thesis using 3 samples_command [OF o(4), of a b rest v] assms(2) by (simp add: dispatch_eqs)
  next
    case 4
    then have "length args = 1" using assms(3) by (auto simp: arguments_def d)
    from arguments_split(2) [OF this] obtain a where "args = [a]" by blast
    then show ?thesis using 4 char_commands [OF o(2), of a rest v] assms(2) by (elim insertE emptyE) (simp_all add: dispatch_eqs spec_eqs)
  next
    case 5
    then have "length args = 2" using assms(3) by (auto simp: arguments_def d)
    from arguments_split(1) [OF this] obtain a b where "args = [a, b]" by blast
    then show ?thesis using 5 short_commands [OF o(3), of a b rest v] assms(2)
      by (elim insertE emptyE) (simp_all add: dispatch_eqs spec_eqs big_endian_def)
  next
    case 6
    then have "args = []" using assms(3) by (auto simp: arguments_def d)
    then show ?thesis using 6 no power_on_cmd [OF o(1), of v] by (auto simp: dispatch_eqs spec_eqs)
  next
    case 7
    then have "args = []" using assms(3) nh by (auto simp: arguments_def d)
    then show ?thesis using 7 nh no invalid_command [OF o(5), of c v] by (simp add: scope_dispatch_def command_spec_def)
  qed
qed

lemma spec_keeps:
  assumes "unat (numberOfSamples v) \<le> SCOPE_SIZE"
  shows "from_host (snd (command_spec c args (v, p))) = from_host p"
    "unat (numberOfSamples (fst (command_spec c args (v, p)))) \<le> SCOPE_SIZE"
    "command_spec c args (v, p\<lparr>from_host := r\<rparr>) = map_prod id (from_host_update (\<lambda>_. r)) (command_spec c args (v, p))"
  using assms by (simp_all add: command_spec_def say_def set_adca_def set_power_def SCOPE_SIZE_def split: prod.splits)

lemma step_on:
  assumes "settled (k + turn_cost) s" "from_host (port s) = c # args @ rest" "length args = arguments c"
    "\<not> waits_for_hardware c" "unat (numberOfSamples v) \<le> SCOPE_SIZE"
  shows "yields (scope_step lk v s) (\<lambda>(v', t). settled k t \<and>
    (v', port t) = command_spec c args (v, (port s)\<lparr>from_host := rest\<rparr>))"
proof -
  have "settled ((k + 7 * 3584 + 120) + 5) s" by (rule settled_less [OF assms(1)]) (simp add: turn_cost_def)
  from get_char_on [OF this assms(2)] obtain t where t: "USB_serial_get_char s = Some (c, t)"
    "settled (k + 7 * 3584 + 120) t" "port t = (port s)\<lparr>from_host := args @ rest\<rparr>" by (auto simp: yields_def)
  then show ?thesis
    using dispatch_on [OF t(2) _ assms(3-5), of rest lk] by (simp add: scope_step_def)
qed

text \<open>A script of commands with their arguments, and a number of turns of the command loop.\<close>

type_synonym script = "(byte \<times> byte list) list"

definition script_ok :: "script \<Rightarrow> bool" where
  "script_ok cmds \<longleftrightarrow> (\<forall>(c, args)\<in>set cmds. length args = arguments c \<and> \<not> waits_for_hardware c)"

definition script_bytes :: "script \<Rightarrow> byte list" where
  "script_bytes cmds = concat (map (\<lambda>(c, args). c # args) cmds)"

primrec scope_turns :: "linker \<Rightarrow> nat \<Rightarrow> scope_vars \<Rightarrow> fw \<Rightarrow> (scope_vars \<times> fw) option" where
  "scope_turns lk 0 v s = Some (v, s)"
| "scope_turns lk (Suc n) v s = do { (v, s) \<leftarrow> scope_step lk v s; scope_turns lk n v s }"

lemma turns_on:
  assumes "settled (k + length cmds * turn_cost) s" "from_host (port s) = script_bytes cmds @ rest" "script_ok cmds"
    "unat (numberOfSamples v) \<le> SCOPE_SIZE"
  shows "yields (scope_turns lk (length cmds) v s) (\<lambda>(v', t). settled k t \<and>
    (v', port t) = fold (\<lambda>(c, args). command_spec c args) cmds (v, (port s)\<lparr>from_host := rest\<rparr>))"
  using assms
proof (induction cmds arbitrary: v s)
  case Nil
  then show ?case by (simp add: script_bytes_def)
next
  case (Cons cmd cmds)
  obtain c args where cmd: "cmd = (c, args)" by fastforce
  have ok: "length args = arguments c" "\<not> waits_for_hardware c" "script_ok cmds"
    using Cons.prems(3) by (simp_all add: script_ok_def cmd)
  let ?r = "script_bytes cmds @ rest"
  have f: "from_host (port s) = c # args @ ?r" using Cons.prems(2) by (simp add: script_bytes_def cmd)
  have on: "settled ((k + length cmds * turn_cost) + turn_cost) s" using Cons.prems(1) by (simp add: algebra_simps)
  obtain v1 t where t: "scope_step lk v s = Some (v1, t)" "settled (k + length cmds * turn_cost) t"
    "(v1, port t) = command_spec c args (v, (port s)\<lparr>from_host := ?r\<rparr>)"
    using step_on [OF on f ok(1,2) Cons.prems(4), of lk] by (auto simp: yields_def)
  note keep = spec_keeps [OF Cons.prems(4), of c args]
  have p: "from_host (port t) = ?r" "unat (numberOfSamples v1) \<le> SCOPE_SIZE"
    using keep(1) [of "(port s)\<lparr>from_host := ?r\<rparr>"] keep(2) [of "(port s)\<lparr>from_host := ?r\<rparr>"] t(3) [symmetric] by simp_all
  have "command_spec c args (v, (port s)\<lparr>from_host := rest\<rparr>) = (v1, (port t)\<lparr>from_host := rest\<rparr>)"
    using keep(3) [of rest "(port s)\<lparr>from_host := ?r\<rparr>"] t(3) [symmetric] by simp
  then show ?case using Cons.IH [OF t(2) p(1) ok(3) p(2)] t(1) by (simp add: cmd)
qed

definition two_commands :: script where
  "two_commands = [(ch CHR ''n'', [1, 0]), (ch CHR ''t'', [])]"

subsection \<open>The command loop implements the protocol\<close>



end
