(* ===== verification/HostScope.thy ===== *)
theory HostScope
  imports Complex_Main ScopeProtocol
begin

text \<open>
  The host side of the oscilloscope, the class \<open>Scope\<close> of \<open>acq/scope.py\<close> (the file \<open>fi/scope.py\<close>
  is the same). Every method is an action on the object: it returns a value or raises an
  exception, and in both cases leaves a changed object behind. The serial port package and the
  array package are parameters. The object is joined to the firmware by the interface of the
  serial link, which the firmware under a cooperative USB host provides.
\<close>

unbundle bit_operations_syntax

subsection \<open>The serial port package\<close>

text \<open>
  The operations of the package the class uses, on the state of everything behind the port.
  Opening and writing may raise; reading with a timeout and a number of bytes returns the bytes
  that have come, at most that number.
\<close>

record 'd pyserial =
  ser_open :: "string \<Rightarrow> rat \<Rightarrow> 'd \<Rightarrow> bool \<times> 'd"
  ser_close :: "'d \<Rightarrow> 'd"
  ser_write :: "byte list \<Rightarrow> 'd \<Rightarrow> bool \<times> 'd"
  ser_read :: "rat \<Rightarrow> int \<Rightarrow> 'd \<Rightarrow> byte list option \<times> 'd"

text \<open>The object. Its serial port has a timeout of its own, which the methods change.\<close>

record 'd Scope_obj =
  self_port :: string
  self_timeout :: rat
  self_serial :: "rat option"
  numSamples :: int
  clockDivider :: int
  self_bits12 :: bool
  self_bias :: int
  self_gain :: int
  self_delay :: int
  device :: 'd

datatype host_error =
    AttributeError
  | AssertionError
  | ValueError
  | SerialException
  | IncorrectResponse "byte list" "byte list"
  | WrongCompletion
  | NotArmed "byte list" "byte list"
  | NotEnoughSamples int nat
  | TargetTimeout "byte list"

type_synonym ('d, 'a) act = "'d Scope_obj \<Rightarrow> (host_error + 'a) \<times> 'd Scope_obj"

definition py_return :: "'a \<Rightarrow> ('d, 'a) act" where "py_return x h = (Inr x, h)"

definition py_raise :: "host_error \<Rightarrow> ('d, 'a) act" where "py_raise e h = (Inl e, h)"

definition py_assert :: "bool \<Rightarrow> ('d, unit) act" where
  "py_assert b = (if b then py_return () else py_raise AssertionError)"

definition py_set :: "('d Scope_obj \<Rightarrow> 'd Scope_obj) \<Rightarrow> ('d, unit) act" where
  "py_set f h = (Inr (), f h)"

definition py_bind :: "('d, 'a) act \<Rightarrow> ('a \<Rightarrow> ('d, 'b) act) \<Rightarrow> ('d, 'b) act" where
  "py_bind m f h = (case m h of (Inl e, h') \<Rightarrow> (Inl e, h') | (Inr x, h') \<Rightarrow> f x h')"

definition py_then :: "('d, unit) act \<Rightarrow> ('d, 'b) act \<Rightarrow> ('d, 'b) act" where
  "py_then m k = py_bind m (\<lambda>_. k)"

text \<open>The bytes of a list of integers: outside of a byte it raises.\<close>

definition py_bytes :: "int list \<Rightarrow> host_error + byte list" where
  "py_bytes xs = (if list_all (\<lambda>x. 0 \<le> x \<and> x < 256) xs then Inr (map of_int xs) else Inl ValueError)"

definition py_ord :: "char \<Rightarrow> int" where "py_ord c = of_char c"

definition serial_write :: "'d pyserial \<Rightarrow> int list \<Rightarrow> ('d, unit) act" where
  "serial_write sp xs h = (case self_serial h of
     None \<Rightarrow> (Inl AttributeError, h)
   | Some _ \<Rightarrow> (case py_bytes xs of
       Inl e \<Rightarrow> (Inl e, h)
     | Inr bs \<Rightarrow> (case ser_write sp bs (device h) of (done, d) \<Rightarrow>
         (if done then Inr () else Inl SerialException, h\<lparr>device := d\<rparr>))))"

definition serial_read :: "'d pyserial \<Rightarrow> int \<Rightarrow> ('d, byte list) act" where
  "serial_read sp n h = (case self_serial h of
     None \<Rightarrow> (Inl AttributeError, h)
   | Some t \<Rightarrow> (case ser_read sp t n (device h) of (r, d) \<Rightarrow>
       (case r of None \<Rightarrow> Inl SerialException | Some bs \<Rightarrow> Inr bs, h\<lparr>device := d\<rparr>)))"

subsection \<open>The methods\<close>

definition hexAscii :: "byte list \<Rightarrow> string" where
  "hexAscii data = map (\<lambda>d. if 0x20 \<le> d \<and> d \<le> 0x80 then char_of (unat d) else CHR ''.'') data"

definition checkResponse :: "'d pyserial \<Rightarrow> ('d, unit) act" where
  "checkResponse sp = py_bind (serial_read sp 1) (\<lambda>response.
     if response \<noteq> [ch CHR ''d'']
     then py_bind (serial_read sp 100) (\<lambda>extra. py_raise (IncorrectResponse response extra))
     else py_return ())"

definition testScope :: "'d pyserial \<Rightarrow> ('d, bool) act" where
  "testScope sp h = (case self_serial h of
     None \<Rightarrow> (Inl AttributeError, h)
   | Some oldTimeout \<Rightarrow>
       py_then (py_set (self_serial_update (\<lambda>_. Some (2 / 10))))
       (py_then (serial_write sp [py_ord CHR ''t''])
       (py_bind (serial_read sp 10) (\<lambda>val.
          py_then (py_set (self_serial_update (\<lambda>_. Some oldTimeout)))
            (py_return (val = [ch CHR ''T'']))))) h)"

definition setSamples :: "'d pyserial \<Rightarrow> int \<Rightarrow> ('d, unit) act" where
  "setSamples sp n =
     py_then (py_set (numSamples_update (\<lambda>_. n)))
     (py_then (py_assert (n \<le> 0xffff))
     (py_then (serial_write sp [py_ord CHR ''n'', drop_bit 8 n, n AND 0xff])
       (checkResponse sp)))"

definition set12Bits :: "'d pyserial \<Rightarrow> bool \<Rightarrow> ('d, unit) act" where
  "set12Bits sp b =
     py_then (py_set (self_bits12_update (\<lambda>_. b)))
     (py_then (\<lambda>h. if self_bits12 h then serial_write sp [py_ord CHR ''8'', 1] h else serial_write sp [py_ord CHR ''8'', 0] h)
       (checkResponse sp))"

definition setBias :: "'d pyserial \<Rightarrow> int \<Rightarrow> ('d, unit) act" where
  "setBias sp b =
     py_then (py_assert (b \<le> 0xffff))
     (py_then (py_set (self_bias_update (\<lambda>_. b)))
     (py_then (serial_write sp [py_ord CHR ''b'', drop_bit 8 b, b AND 0xff])
       (checkResponse sp)))"

definition setDelay :: "'d pyserial \<Rightarrow> int \<Rightarrow> ('d, unit) act" where
  "setDelay sp d =
     py_then (py_assert (d \<le> 0xffff))
     (py_then (py_set (self_delay_update (\<lambda>_. d)))
     (py_then (serial_write sp [py_ord CHR ''w'', drop_bit 8 d, d AND 0xff])
       (checkResponse sp)))"

definition setSampleSpeed :: "'d pyserial \<Rightarrow> int \<Rightarrow> ('d, unit) act" where
  "setSampleSpeed sp c =
     py_then (py_assert (c \<le> 0xff))
     (py_then (py_set (clockDivider_update (\<lambda>_. c)))
     (py_then (serial_write sp [py_ord CHR ''c'', c])
       (checkResponse sp)))"

definition setGain :: "'d pyserial \<Rightarrow> int \<Rightarrow> ('d, unit) act" where
  "setGain sp g =
     py_then (py_assert (g \<le> 0xff))
     (py_then (py_set (self_gain_update (\<lambda>_. g)))
     (py_then (serial_write sp [py_ord CHR ''g'', g])
       (checkResponse sp)))"

definition waitForCompletion :: "'d pyserial \<Rightarrow> ('d, bool) act" where
  "waitForCompletion sp = py_bind (serial_read sp 1) (\<lambda>response.
     if response = [ch CHR ''e''] then py_return False
     else if response = [ch CHR ''d''] then py_return True
     else py_raise WrongCompletion)"

definition arm :: "'d pyserial \<Rightarrow> ('d, unit) act" where
  "arm sp = py_then (serial_write sp [py_ord CHR ''d''])
     (py_bind (serial_read sp 1) (\<lambda>armed.
        if armed \<noteq> [ch CHR ''r'']
        then py_bind (serial_read sp 100) (\<lambda>additional. py_raise (NotArmed armed additional))
        else py_return ()))"

definition getSamples ::
  "'d pyserial \<Rightarrow> (byte list \<Rightarrow> host_error + 'v) \<Rightarrow> (byte list \<Rightarrow> host_error + 'v) \<Rightarrow> ('d, 'v) act" where
  "getSamples sp np_i2 np_u8 = py_then (serial_write sp [py_ord CHR ''s''])
     (\<lambda>h. py_bind (serial_read sp (numSamples h)) (\<lambda>samples h.
        if int (length samples) \<noteq> numSamples h then py_raise (NotEnoughSamples (numSamples h) (length samples)) h
        else if self_bits12 h then (np_i2 samples, h)
        else (np_u8 samples, h)) h)"

definition close_scope :: "'d pyserial \<Rightarrow> ('d, unit) act" where
  "close_scope sp h = (if self_serial h \<noteq> None
     then (Inr (), h\<lparr>device := ser_close sp (device h), self_serial := None\<rparr>) else (Inr (), h))"

definition powerOn :: "'d pyserial \<Rightarrow> ('d, unit) act" where
  "powerOn sp = py_then (serial_write sp [py_ord CHR ''y'']) (checkResponse sp)"

definition powerOff :: "'d pyserial \<Rightarrow> ('d, unit) act" where
  "powerOff sp = py_then (serial_write sp [py_ord CHR ''x'']) (checkResponse sp)"

definition setGlitchLength :: "'d pyserial \<Rightarrow> int \<Rightarrow> ('d, unit) act" where
  "setGlitchLength sp l =
     py_then (py_assert (l < 0xffff))
     (py_then (serial_write sp [py_ord CHR ''l'', drop_bit 8 l, l AND 0xff])
       (checkResponse sp))"

definition setPulses :: "'d pyserial \<Rightarrow> int \<Rightarrow> ('d, unit) act" where
  "setPulses sp p =
     py_then (py_assert (p < 0xff))
     (py_then (serial_write sp [py_ord CHR ''p'', p AND 0xff])
       (checkResponse sp))"

definition glitchArm :: "'d pyserial \<Rightarrow> ('d, bool) act" where
  "glitchArm sp = py_then (serial_write sp [py_ord CHR ''h''])
     (py_bind (serial_read sp 1) (\<lambda>response. py_return (response \<noteq> [ch CHR ''r''])))"

definition waitForGlitcher :: "'d pyserial \<Rightarrow> ('d, bool) act" where
  "waitForGlitcher sp = py_bind (serial_read sp 1) (\<lambda>response. py_return (response \<noteq> [ch CHR ''d'']))"

subsection \<open>Connecting\<close>

text \<open>The loop of \<open>reconnect\<close> runs until the board answers its test.\<close>

partial_function (option) reconnect_loop ::
  "'d pyserial \<Rightarrow> 'd Scope_obj \<Rightarrow> ((host_error + unit) \<times> 'd Scope_obj) option" where
  "reconnect_loop sp h =
    (let h = (if self_serial h \<noteq> None then h\<lparr>device := ser_close sp (device h)\<rparr> else h) in
     case ser_open sp (self_port h) (self_timeout h) (device h) of (opened, d) \<Rightarrow>
       if \<not> opened then Some (Inl SerialException, h\<lparr>device := d\<rparr>)
       else (case testScope sp (h\<lparr>device := d, self_serial := Some (self_timeout h)\<rparr>) of
         (Inl e, h) \<Rightarrow> Some (Inl e, h)
       | (Inr good, h) \<Rightarrow> if good then Some (Inr (), h) else reconnect_loop sp h))"

definition reconnect_settings :: "'d pyserial \<Rightarrow> ('d, unit) act" where
  "reconnect_settings sp h =
     py_then (\<lambda>h. setSamples sp (numSamples h) h)
     (py_then (\<lambda>h. setSampleSpeed sp (clockDivider h) h)
     (py_then (\<lambda>h. set12Bits sp (self_bits12 h) h)
     (py_then (\<lambda>h. setBias sp (self_bias h) h)
     (py_then (\<lambda>h. setGain sp (self_gain h) h)
       (\<lambda>h. setDelay sp (self_delay h) h))))) h"

definition reconnect :: "'d pyserial \<Rightarrow> 'd Scope_obj \<Rightarrow> ((host_error + unit) \<times> 'd Scope_obj) option" where
  "reconnect sp h = (case reconnect_loop sp h of
     None \<Rightarrow> None
   | Some (Inl e, h) \<Rightarrow> Some (Inl e, h)
   | Some (Inr _, h) \<Rightarrow> Some (reconnect_settings sp h))"

text \<open>The constructor, with its arguments; the defaults are those of the signature.\<close>

definition init_Scope ::
  "'d pyserial \<Rightarrow> string \<Rightarrow> rat \<Rightarrow> int \<Rightarrow> int \<Rightarrow> bool \<Rightarrow> int \<Rightarrow> int \<Rightarrow> int \<Rightarrow> 'd \<Rightarrow>
   ((host_error + unit) \<times> 'd Scope_obj) option" where
  "init_Scope sp p t n speed b12 b g dl d =
     reconnect sp \<lparr>self_port = p, self_timeout = t, self_serial = None, numSamples = n, clockDivider = speed,
       self_bits12 = b12, self_bias = b, self_gain = g, self_delay = dl, device = d\<rparr>"

end
