(* ===== verification/HostLink.thy ===== *)
theory HostLink
  imports HostScope
begin

text \<open>
  The class of the host and the firmware together. The interface \<open>scope_link\<close> says what the class
  relies on: a command that is written is executed and its answer can be read. The methods of
  the class are correct over it. The firmware provides it: the bytes written become one packet
  of the host, the command loop runs until it has read them, and what it sends is read.
\<close>

unbundle bit_operations_syntax

subsection \<open>The methods as sequences\<close>

lemma py_simps [simp]:
  "py_bind (py_return x) f = f x" "py_bind (py_raise e) f = py_raise e"
  "py_then (py_set g) k h = k (g h)"
  "py_then (py_assert True) k = k" "py_then (py_assert False) k = py_raise AssertionError"
  by (simp_all add: py_bind_def py_then_def py_return_def py_raise_def py_set_def py_assert_def fun_eq_iff)

lemma py_then_ok: "m h = (Inr (), h') \<Longrightarrow> py_then m k h = k h'"
  by (simp add: py_then_def py_bind_def)

lemma py_then_fails: "m h = (Inl e, h') \<Longrightarrow> py_then m k h = (Inl e, h')"
  by (simp add: py_then_def py_bind_def)

lemma py_bind_ok: "m h = (Inr x, h') \<Longrightarrow> py_bind m f h = f x h'"
  by (simp add: py_bind_def)

text \<open>A number of sixteen bits as the two bytes of the protocol.\<close>

lemma drop_bit_byte: "0 \<le> (n :: int) \<Longrightarrow> n \<le> 0xffff \<Longrightarrow> 0 \<le> drop_bit 8 n \<and> drop_bit 8 n < 256"
  by (simp add: drop_bit_eq_div) arith

lemma and_byte: "0 \<le> (n :: int) AND 0xff \<and> n AND 0xff < 256"
proof -
  have "n AND 0xff = take_bit 8 n" by (simp add: take_bit_eq_mask mask_eq_exp_minus_1)
  then show ?thesis by (simp add: take_bit_eq_mod)
qed

lemma and_byte_id: "0 \<le> (n :: int) \<Longrightarrow> n < 256 \<Longrightarrow> n AND 0xff = n"
proof -
  assume "0 \<le> n" "n < 256"
  moreover have "n AND 0xff = take_bit 8 n" by (simp add: take_bit_eq_mask mask_eq_exp_minus_1)
  ultimately show ?thesis by (simp add: take_bit_int_eq_self)
qed

lemma two_bytes_word: "big_endian [of_int (drop_bit 8 n), of_int (n AND 0xff)] = (of_int n :: u16)"
proof (rule bit_word_eqI)
  fix i assume "i < LENGTH(16)"
  have "n AND 0xff = take_bit 8 n" by (simp add: take_bit_eq_mask mask_eq_exp_minus_1)
  with \<open>i < LENGTH(16)\<close> show "bit (big_endian [of_int (drop_bit 8 n), of_int (n AND 0xff)]) i = bit (of_int n :: u16) i"
    by (cases "i < 8") (auto simp: big_endian_def bit_simps)
qed

lemma unat_of_int_short: "0 \<le> n \<Longrightarrow> n \<le> 0xffff \<Longrightarrow> unat (of_int n :: u16) = nat n"
  by (simp add: unat_eq_nat_uint uint_word_of_int)

lemma short_bytes:
  assumes "0 \<le> n" "n \<le> 0xffff"
  shows "py_bytes [py_ord c, drop_bit 8 n, n AND 0xff] = Inr [ch c, of_int (drop_bit 8 n), of_int (n AND 0xff)]"
proof -
  have "0 \<le> py_ord c \<and> py_ord c < 256" by (cases c) (auto simp: py_ord_def of_char_def)
  moreover have "of_int (py_ord c) = ch c" by (cases c) (simp add: py_ord_def ch_def of_char_def)
  ultimately show ?thesis using drop_bit_byte [OF assms] and_byte [of n] by (simp add: py_bytes_def)
qed

subsection \<open>The interface of the link\<close>

text \<open>
  What the class relies on: behind the port there is a board with its settings and its abstract
  port. A whole command that is written is executed and what it says can be read; reading
  returns the first of the unread bytes.
\<close>

locale scope_link =
  fixes sp :: "'d pyserial" and vars :: "'d \<Rightarrow> scope_vars" and dport :: "'d \<Rightarrow> aport"
    and unread :: "'d \<Rightarrow> byte list" and link_ok :: "'d \<Rightarrow> bool"
  assumes link_write: "link_ok d \<Longrightarrow> length args = arguments c \<Longrightarrow> \<not> waits_for_hardware c \<Longrightarrow>
      \<exists>d'. ser_write sp (c # args) d = (True, d') \<and> link_ok d' \<and>
        (vars d', dport d') = command_spec c args (vars d, dport d) \<and>
        unread d' = unread d @ drop (length (to_host (dport d))) (to_host (dport d'))"
    and link_read: "link_ok d \<Longrightarrow> 0 \<le> n \<Longrightarrow>
      \<exists>d'. ser_read sp t n d = (Some (take (nat n) (unread d)), d') \<and> link_ok d' \<and>
        vars d' = vars d \<and> dport d' = dport d \<and> unread d' = drop (nat n) (unread d)"
    and link_open: "link_ok d \<Longrightarrow>
      \<exists>d'. ser_open sp p t d = (True, d') \<and> link_ok d' \<and> vars d' = vars d \<and> dport d' = dport d \<and> unread d' = unread d"
    and link_close: "link_ok d \<Longrightarrow> link_ok (ser_close sp d) \<and> vars (ser_close sp d) = vars d \<and>
      dport (ser_close sp d) = dport d \<and> unread (ser_close sp d) = unread d"
    and link_memory: "link_ok d \<Longrightarrow> length (sample_mem (dport d)) = 3584 \<and> numberOfSamples (vars d) \<le> 3584"
begin

definition connected :: "'d Scope_obj \<Rightarrow> bool" where
  "connected h \<longleftrightarrow> link_ok (device h) \<and> unread (device h) = [] \<and> self_serial h \<noteq> None"

lemma written:
  assumes "connected h" "py_bytes xs = Inr (c # args)" "length args = arguments c" "\<not> waits_for_hardware c"
    "command_spec c args (vars (device h), dport (device h)) = (v, p)" "to_host p = to_host (dport (device h)) @ answer"
  shows "\<exists>d. serial_write sp xs h = (Inr (), h\<lparr>device := d\<rparr>) \<and> link_ok d \<and> vars d = v \<and> dport d = p \<and> unread d = answer"
  using link_write [of "device h" args c] assms by (auto simp: connected_def serial_write_def)

lemma has_read:
  assumes "link_ok (device h)" "self_serial h \<noteq> None" "0 \<le> n"
  shows "\<exists>d. serial_read sp n h = (Inr (take (nat n) (unread (device h))), h\<lparr>device := d\<rparr>) \<and> link_ok d \<and>
    vars d = vars (device h) \<and> dport d = dport (device h) \<and> unread d = drop (nat n) (unread (device h))"
proof -
  obtain t where "self_serial h = Some t" using assms(2) by blast
  then show ?thesis using link_read [OF assms(1,3), of t] by (auto simp: serial_read_def)
qed

lemma answered:
  assumes "link_ok (device h)" "self_serial h \<noteq> None" "unread (device h) = [ch CHR ''d'']"
  shows "\<exists>d. checkResponse sp h = (Inr (), h\<lparr>device := d\<rparr>) \<and> link_ok d \<and>
    vars d = vars (device h) \<and> dport d = dport (device h) \<and> unread d = []"
  using has_read [OF assms(1,2), of 1] assms(3) by (auto simp: checkResponse_def py_bind_def py_return_def)

lemma refused:
  assumes "link_ok (device h)" "self_serial h \<noteq> None" "unread (device h) = b # bs" "b \<noteq> ch CHR ''d''" "length bs \<le> 100"
  shows "\<exists>d. checkResponse sp h = (Inl (IncorrectResponse [b] bs), h\<lparr>device := d\<rparr>) \<and> link_ok d \<and>
    vars d = vars (device h) \<and> dport d = dport (device h) \<and> unread d = []"
proof -
  obtain d where d: "serial_read sp 1 h = (Inr [b], h\<lparr>device := d\<rparr>)" "link_ok d" "vars d = vars (device h)"
    "dport d = dport (device h)" "unread d = bs"
    using has_read [OF assms(1,2), of 1] assms(3) by auto
  then show ?thesis
    using has_read [of "h\<lparr>device := d\<rparr>" 100] assms(2,4,5)
    by (auto simp: checkResponse_def py_bind_def py_raise_def)
qed

lemma accepted:
  assumes "connected h" "py_bytes xs = Inr (c # args)" "length args = arguments c" "\<not> waits_for_hardware c"
    "command_spec c args (vars (device h), dport (device h)) = (v, say [ch CHR ''d''] p)"
    "to_host p = to_host (dport (device h))"
  shows "\<exists>d. py_then (serial_write sp xs) (checkResponse sp) h = (Inr (), h\<lparr>device := d\<rparr>) \<and>
    connected (h\<lparr>device := d\<rparr>) \<and> vars d = v \<and> dport d = say [ch CHR ''d''] p"
proof -
  obtain d where d: "serial_write sp xs h = (Inr (), h\<lparr>device := d\<rparr>)" "link_ok d" "vars d = v"
    "dport d = say [ch CHR ''d''] p" "unread d = [ch CHR ''d'']"
    using written [OF assms(1-5)] assms(6) by (auto simp: say_def)
  then show ?thesis
    using answered [of "h\<lparr>device := d\<rparr>"] assms(1) d(1) by (auto simp: connected_def py_then_def py_bind_def)
qed

text \<open>The methods of the class over the link.\<close>

lemma short_setting:
  assumes "connected h" "0 \<le> n" "n \<le> 0xffff" "arguments (ch c) = 2" "\<not> waits_for_hardware (ch c)"
    "command_spec (ch c) [of_int (drop_bit 8 n), of_int (n AND 0xff)] (vars (device h), dport (device h)) = (v, say [ch CHR ''d''] p)"
    "to_host p = to_host (dport (device h))"
  shows "\<exists>d. py_then (serial_write sp [py_ord c, drop_bit 8 n, n AND 0xff]) (checkResponse sp) h = (Inr (), h\<lparr>device := d\<rparr>) \<and>
    connected (h\<lparr>device := d\<rparr>) \<and> vars d = v \<and> dport d = say [ch CHR ''d''] p"
  by (rule accepted [OF assms(1) short_bytes [OF assms(2,3)] _ assms(5,6,7)]) (simp add: assms(4))

lemma connected_fields [simp]:
  "connected (numSamples_update f h) = connected h" "connected (self_delay_update f h) = connected h"
  "connected (self_bias_update f h) = connected h"
  by (simp_all add: connected_def)

lemma setSamples_accepted:
  assumes "connected h" "0 \<le> n" "n \<le> 3584"
  shows "\<exists>d. setSamples sp n h = (Inr (), h\<lparr>numSamples := n, device := d\<rparr>) \<and> connected (h\<lparr>device := d\<rparr>) \<and>
    vars d = (vars (device h))\<lparr>numberOfSamples := of_int n\<rparr> \<and> sample_mem (dport d) = sample_mem (dport (device h))"
proof -
  let ?h = "h\<lparr>numSamples := n\<rparr>"
  have c: "command_spec (ch CHR ''n'') [of_int (drop_bit 8 n), of_int (n AND 0xff)] (vars (device ?h), dport (device ?h))
      = ((vars (device h))\<lparr>numberOfSamples := of_int n\<rparr>, say [ch CHR ''d''] (dport (device h)))"
    using assms(2,3) unfolding command_spec_def two_bytes_word by (simp add: ch_eq unat_of_int_short)
  have "connected ?h" using assms(1) by simp
  from short_setting [OF this assms(2) _ _ _ c] assms(3) show ?thesis
    by (auto simp: setSamples_def arguments_def waits_for_hardware_def ch_eq connected_def say_def)
qed

lemma setSamples_refused:
  assumes "connected h" "3584 < n" "n \<le> 0xffff"
  shows "\<exists>d. setSamples sp n h = (Inl (IncorrectResponse [ch CHR ''B''] (map ch (''uffer too big'' @ crlf))),
      h\<lparr>numSamples := n, device := d\<rparr>) \<and> connected (h\<lparr>device := d\<rparr>) \<and> vars d = vars (device h) \<and>
    sample_mem (dport d) = sample_mem (dport (device h))"
proof -
  let ?h = "h\<lparr>numSamples := n\<rparr>" and ?p = "dport (device h)"
  have c: "command_spec (ch CHR ''n'') [of_int (drop_bit 8 n), of_int (n AND 0xff)] (vars (device ?h), dport (device ?h))
      = (vars (device h), say (map ch (''Buffer too big'' @ crlf)) ?p)"
    using assms(2,3) unfolding command_spec_def two_bytes_word by (simp add: ch_eq unat_of_int_short)
  obtain d where d: "serial_write sp [py_ord CHR ''n'', drop_bit 8 n, n AND 0xff] ?h = (Inr (), ?h\<lparr>device := d\<rparr>)"
    "link_ok d" "vars d = vars (device h)" "dport d = say (map ch (''Buffer too big'' @ crlf)) ?p"
    "unread d = map ch (''Buffer too big'' @ crlf)"
    using written [OF _ short_bytes, of ?h n "CHR ''n''", OF _ _ _ _ _ c] assms
    by (auto simp: arguments_def waits_for_hardware_def ch_eq say_def connected_def)
  have un: "unread (device (?h\<lparr>device := d\<rparr>)) = ch CHR ''B'' # map ch (''uffer too big'' @ crlf)" using d(5) by simp
  have nd: "ch CHR ''B'' \<noteq> ch CHR ''d''" "length (map ch (''uffer too big'' @ crlf)) \<le> 100"
    by (simp add: ch_def) (simp add: crlf_def)
  have ok: "link_ok (device (?h\<lparr>device := d\<rparr>))" "self_serial (?h\<lparr>device := d\<rparr>) \<noteq> None"
    using d(2) assms(1) by (simp_all add: connected_def)
  obtain e where e: "checkResponse sp (?h\<lparr>device := d\<rparr>) =
      (Inl (IncorrectResponse [ch CHR ''B''] (map ch (''uffer too big'' @ crlf))), ?h\<lparr>device := e\<rparr>)"
    "link_ok e" "vars e = vars d" "dport e = dport d" "unread e = []"
    using refused [OF ok un nd] by auto
  show ?thesis
    using e d assms by (intro exI [of _ e]) (simp add: setSamples_def py_then_def py_bind_def connected_def say_def py_assert_def py_set_def py_return_def)
qed

lemma setDelay_accepted:
  assumes "connected h" "0 \<le> n" "n \<le> 0xffff"
  shows "\<exists>d. setDelay sp n h = (Inr (), h\<lparr>self_delay := n, device := d\<rparr>) \<and> connected (h\<lparr>device := d\<rparr>) \<and>
    vars d = (vars (device h))\<lparr>delay := of_int n\<rparr>"
proof -
  let ?h = "h\<lparr>self_delay := n\<rparr>"
  have c: "command_spec (ch CHR ''w'') [of_int (drop_bit 8 n), of_int (n AND 0xff)] (vars (device ?h), dport (device ?h))
      = ((vars (device h))\<lparr>delay := of_int n\<rparr>, say [ch CHR ''d''] (dport (device h)))"
    unfolding command_spec_def two_bytes_word by (simp add: ch_eq)
  have "connected ?h" using assms(1) by simp
  from short_setting [OF this assms(2,3) _ _ c] assms(3) show ?thesis
    by (auto simp: setDelay_def arguments_def waits_for_hardware_def ch_eq connected_def)
qed

lemma setGlitchLength_accepted:
  assumes "connected h" "0 \<le> n" "n < 0xffff"
  shows "\<exists>d. setGlitchLength sp n h = (Inr (), h\<lparr>device := d\<rparr>) \<and> connected (h\<lparr>device := d\<rparr>) \<and>
    vars d = (vars (device h))\<lparr>glitch_length := of_int n\<rparr>"
proof -
  have g: "ucast (of_int n :: u16) = (of_int n :: byte)" by (rule bit_word_eqI) (simp add: bit_simps)
  have c: "command_spec (ch CHR ''l'') [of_int (drop_bit 8 n), of_int (n AND 0xff)] (vars (device h), dport (device h))
      = ((vars (device h))\<lparr>glitch_length := of_int n\<rparr>, say [ch CHR ''d''] (dport (device h)))"
    unfolding command_spec_def two_bytes_word g by (simp add: ch_eq)
  from short_setting [OF assms(1,2) _ _ _ c] assms(3) show ?thesis
    by (auto simp: setGlitchLength_def arguments_def waits_for_hardware_def ch_eq connected_def)
qed

lemma setPulses_accepted:
  assumes "connected h" "0 \<le> n" "n < 0xff"
  shows "\<exists>d. setPulses sp n h = (Inr (), h\<lparr>device := d\<rparr>) \<and> connected (h\<lparr>device := d\<rparr>) \<and>
    vars d = (vars (device h))\<lparr>pulses := of_int n\<rparr>"
proof -
  have b: "n AND 0xff = n" using assms(2,3) by (simp add: and_byte_id)
  have p: "py_bytes [py_ord CHR ''p'', n] = Inr [ch CHR ''p'', of_int n]"
    using assms(2,3) by (simp add: py_bytes_def py_ord_def ch_def)
  show ?thesis
    using accepted [OF assms(1) p, of "(vars (device h))\<lparr>pulses := of_int n\<rparr>" "dport (device h)"] assms(3)
    by (auto simp: setPulses_def b arguments_def waits_for_hardware_def ch_eq connected_def command_spec_def)
qed

lemma getSamples_fetches:
  assumes "connected h" "numSamples h = int (unat (numberOfSamples (vars (device h))))"
  shows "\<exists>d. getSamples sp np_i2 np_u8 h = ((if self_bits12 h then np_i2 else np_u8)
        (take (nat (numSamples h)) (sample_mem (dport (device h)))), h\<lparr>device := d\<rparr>) \<and>
    connected (h\<lparr>device := d\<rparr>) \<and> vars d = vars (device h)"
proof -
  let ?n = "unat (numberOfSamples (vars (device h)))"
  let ?bs = "take ?n (sample_mem (dport (device h)))"
  have l: "length ?bs = ?n" using link_memory [of "device h"] assms(1) by (simp add: connected_def word_le_nat_alt)
  have p: "py_bytes [py_ord CHR ''s''] = Inr [ch CHR ''s'']" by (simp add: py_bytes_def py_ord_def ch_def)
  obtain d where d: "serial_write sp [py_ord CHR ''s''] h = (Inr (), h\<lparr>device := d\<rparr>)" "link_ok d" "vars d = vars (device h)"
    "dport d = say ?bs (dport (device h))" "unread d = ?bs"
    using written [OF assms(1) p] by (auto simp: command_spec_def arguments_def waits_for_hardware_def ch_eq say_def)
  obtain e where e: "serial_read sp (numSamples h) (h\<lparr>device := d\<rparr>) = (Inr ?bs, h\<lparr>device := e\<rparr>)" "link_ok e"
    "vars e = vars d" "unread e = []"
    using has_read [of "h\<lparr>device := d\<rparr>" "numSamples h"] assms d(2,5) l by (auto simp: connected_def)
  show ?thesis
    using d(1,3) e l assms by (intro exI [of _ e]) (simp add: getSamples_def py_then_def py_bind_def connected_def)
qed

lemma getSamples_short:
  assumes "connected h" "int (unat (numberOfSamples (vars (device h)))) < numSamples h"
  shows "\<exists>d. getSamples sp np_i2 np_u8 h =
    (Inl (NotEnoughSamples (numSamples h) (unat (numberOfSamples (vars (device h))))), h\<lparr>device := d\<rparr>)"
proof -
  let ?n = "unat (numberOfSamples (vars (device h)))"
  let ?bs = "take ?n (sample_mem (dport (device h)))"
  have l: "length ?bs = ?n" using link_memory [of "device h"] assms(1) by (simp add: connected_def word_le_nat_alt)
  have p: "py_bytes [py_ord CHR ''s''] = Inr [ch CHR ''s'']" by (simp add: py_bytes_def py_ord_def ch_def)
  obtain d where d: "serial_write sp [py_ord CHR ''s''] h = (Inr (), h\<lparr>device := d\<rparr>)" "link_ok d" "unread d = ?bs"
    using written [OF assms(1) p] by (auto simp: command_spec_def arguments_def waits_for_hardware_def ch_eq say_def)
  obtain e where e: "serial_read sp (numSamples h) (h\<lparr>device := d\<rparr>) = (Inr ?bs, h\<lparr>device := e\<rparr>)"
    using has_read [of "h\<lparr>device := d\<rparr>" "numSamples h"] assms d(2,3) l by (auto simp: connected_def)
  show ?thesis
    using d(1) e l assms(2) by (intro exI [of _ e]) (simp add: getSamples_def py_then_def py_bind_def py_raise_def)
qed

lemma testScope_answers:
  assumes "connected h"
  shows "\<exists>d. testScope sp h = (Inr True, h\<lparr>device := d\<rparr>) \<and> connected (h\<lparr>device := d\<rparr>) \<and> vars d = vars (device h)"
proof -
  obtain t where t: "self_serial h = Some t" using assms by (auto simp: connected_def)
  let ?h = "h\<lparr>self_serial := Some (2 / 10)\<rparr>"
  have c: "connected ?h" using assms by (simp add: connected_def)
  have p: "py_bytes [py_ord CHR ''t''] = Inr [ch CHR ''t'']" by (simp add: py_bytes_def py_ord_def ch_def)
  obtain d where d: "serial_write sp [py_ord CHR ''t''] ?h = (Inr (), ?h\<lparr>device := d\<rparr>)" "link_ok d" "vars d = vars (device h)"
    "unread d = [ch CHR ''T'']"
    using written [OF c p] by (auto simp: command_spec_def arguments_def waits_for_hardware_def ch_eq say_def)
  obtain e where e: "serial_read sp 10 (?h\<lparr>device := d\<rparr>) = (Inr [ch CHR ''T''], ?h\<lparr>device := e\<rparr>)" "link_ok e"
    "vars e = vars d" "unread e = []"
    using has_read [of "?h\<lparr>device := d\<rparr>" 10] d(2,4) by auto
  show ?thesis
    using t d(1,3) e by (intro exI [of _ e])
      (simp add: testScope_def py_then_def py_bind_def py_set_def py_return_def connected_def)
qed

lemma reconnect_loop_returns:
  assumes "link_ok (device h)" "unread (device h) = []"
  shows "\<exists>h'. reconnect_loop sp h = Some (Inr (), h') \<and> connected h' \<and> vars (device h') = vars (device h)"
proof -
  define g where "g = (if self_serial h \<noteq> None then h\<lparr>device := ser_close sp (device h)\<rparr> else h)"
  have g: "link_ok (device g)" "unread (device g) = []" "vars (device g) = vars (device h)"
    using assms link_close [of "device h"] by (simp_all add: g_def)
  obtain d where d: "ser_open sp (self_port g) (self_timeout g) (device g) = (True, d)" "link_ok d" "unread d = []"
    "vars d = vars (device g)" using link_open [OF g(1), of "self_port g" "self_timeout g"] g(2) by auto
  let ?g = "g\<lparr>device := d, self_serial := Some (self_timeout g)\<rparr>"
  have "connected ?g" using d by (simp add: connected_def)
  from testScope_answers [OF this] obtain e where e: "testScope sp ?g = (Inr True, ?g\<lparr>device := e\<rparr>)"
    "connected (?g\<lparr>device := e\<rparr>)" "vars e = vars d" by auto
  have "reconnect_loop sp h = Some (Inr (), ?g\<lparr>device := e\<rparr>)"
    by (subst reconnect_loop.simps) (simp only: g_def [symmetric] Let_def d(1) e(1) prod.case sum.case not_True_eq_False if_False if_True)
  then show ?thesis using e d(4) g(3) by auto
qed

end

subsection \<open>The firmware behind the link\<close>

text \<open>
  The bytes written are one packet of the host; the firmware takes turns of its command loop until it
  has read all of them. What it has sent and the host has not read yet is unread.
\<close>

record fw_link =
  dev_vars :: scope_vars
  dev_fw :: fw
  dev_read :: nat

primrec run_pending :: "linker \<Rightarrow> nat \<Rightarrow> scope_vars \<Rightarrow> fw \<Rightarrow> (scope_vars \<times> fw) option" where
  "run_pending lk 0 v s = (if from_host (port s) = [] then Some (v, s) else None)"
| "run_pending lk (Suc n) v s =
     (if from_host (port s) = [] then Some (v, s) else do { (v, s) \<leftarrow> scope_step lk v s; run_pending lk n v s })"

definition firmware_link :: "linker \<Rightarrow> fw_link pyserial" where
  "firmware_link lk = \<lparr>ser_open = (\<lambda>_ _ l. (True, l)), ser_close = (\<lambda>l. l),
     ser_write = (\<lambda>bs l. case run_pending lk (length bs) (dev_vars l)
         (host_sends (length bs * turn_cost) bs (dev_fw l)) of
       None \<Rightarrow> (False, l) | Some (v, t) \<Rightarrow> (True, l\<lparr>dev_vars := v, dev_fw := t\<rparr>)),
     ser_read = (\<lambda>_ n l. let bs = take (nat n) (drop (dev_read l) (delivered (dev_fw l))) in
       (Some bs, l\<lparr>dev_read := dev_read l + length bs\<rparr>))\<rparr>"

definition link_unread :: "fw_link \<Rightarrow> byte list" where
  "link_unread l = drop (dev_read l) (delivered (dev_fw l))"

definition link_good :: "fw_link \<Rightarrow> bool" where
  "link_good l \<longleftrightarrow> settled 0 (dev_fw l) \<and> from_host (port (dev_fw l)) = [] \<and> numberOfSamples (dev_vars l) \<le> 3584 \<and>
     dev_read l \<le> length (delivered (dev_fw l))"

lemma run_pending_command:
  assumes "settled k s" "from_host (port s) = []" "length args = arguments c" "\<not> waits_for_hardware c"
    "numberOfSamples v \<le> 3584"
  shows "\<exists>v' t. run_pending lk (Suc (length args)) v (host_sends (Suc (length args) * turn_cost) (c # args) s) = Some (v', t) \<and>
    settled 0 t \<and> (v', port t) = command_spec c args (v, port s)"
proof -
  define N where "N = Suc (length args) * turn_cost"
  let ?s = "host_sends N (c # args) s"
  have "length args \<le> 2" using assms(3) by (simp add: arguments_def)
  then have h: "settled N ?s" "port ?s = (port s)\<lparr>from_host := c # args\<rparr>"
    using host_sends_on [OF assms(1,2), of "c # args"] by simp_all
  have n: "unat (numberOfSamples v) \<le> SCOPE_SIZE" using assms(5) by (simp add: SCOPE_SIZE_def word_le_nat_alt)
  have e: "(port ?s)\<lparr>from_host := []\<rparr> = port s" using assms(2) by (simp add: h(2))
  have "settled (0 + turn_cost) ?s" by (rule settled_less [OF h(1)]) (simp add: N_def)
  from step_on [OF this _ assms(3,4) n, of "[]" lk] obtain v' t where t: "scope_step lk v ?s = Some (v', t)"
    "settled 0 t" "(v', port t) = command_spec c args (v, port s)"
    unfolding e yields_def by (auto simp: h(2))
  have "from_host (port t) = []" using spec_keeps(1) [OF n, of c args "port s"] t(3) [symmetric] assms(2) by simp
  then have "run_pending lk (length args) v' t = Some (v', t)" by (cases "length args") simp_all
  then have "run_pending lk (Suc (length args)) v ?s = Some (v', t)" using t(1) by (simp add: h(2))
  with t(2,3) show ?thesis unfolding N_def by blast
qed

lemma spec_says: "\<exists>bs. to_host (snd (command_spec c args (v, p))) = to_host p @ bs"
  by (simp add: command_spec_def say_def set_adca_def set_power_def)

lemma firmware_write:
  assumes a: "link_good d" "length args = arguments c" "\<not> waits_for_hardware c"
  shows "\<exists>d'. ser_write (firmware_link lk) (c # args) d = (True, d') \<and> link_good d' \<and>
      (dev_vars d', port (dev_fw d')) = command_spec c args (dev_vars d, port (dev_fw d)) \<and>
      link_unread d' = link_unread d @ drop (length (to_host (port (dev_fw d)))) (to_host (port (dev_fw d')))"
proof -
  obtain v t where t: "run_pending lk (Suc (length args)) (dev_vars d)
      (host_sends (Suc (length args) * turn_cost) (c # args) (dev_fw d)) = Some (v, t)" "settled 0 t"
    "(v, port t) = command_spec c args (dev_vars d, port (dev_fw d))"
    using run_pending_command [of 0 "dev_fw d" args c "dev_vars d" lk] a by (auto simp: link_good_def)
  obtain bs where bs: "to_host (port t) = to_host (port (dev_fw d)) @ bs"
    using spec_says [of c args "dev_vars d" "port (dev_fw d)"] t(3) [symmetric] by auto
  have n: "unat (numberOfSamples (dev_vars d)) \<le> SCOPE_SIZE" using a(1) by (simp add: link_good_def SCOPE_SIZE_def word_le_nat_alt)
  have k: "from_host (port t) = []" "unat (numberOfSamples v) \<le> SCOPE_SIZE"
    using spec_keeps(1,2) [OF n, of c args "port (dev_fw d)"] t(3) [symmetric] a(1) by (simp_all add: link_good_def)
  have dl: "delivered t = to_host (port t)" "delivered (dev_fw d) = to_host (port (dev_fw d))"
    using settled_delivered [OF t(2)] settled_delivered [of 0 "dev_fw d"] a(1) by (simp_all add: link_good_def)
  have w: "ser_write (firmware_link lk) (c # args) d = (True, d\<lparr>dev_vars := v, dev_fw := t\<rparr>)"
    unfolding firmware_link_def pyserial.select_convs list.size add_0_right add_Suc_right t(1) by simp
  have g: "link_good (d\<lparr>dev_vars := v, dev_fw := t\<rparr>)"
    using t(2) k bs dl a(1) by (simp add: link_good_def SCOPE_SIZE_def word_le_nat_alt)
  have un: "link_unread (d\<lparr>dev_vars := v, dev_fw := t\<rparr>) = link_unread d @ bs"
    using bs dl a(1) by (simp add: link_good_def link_unread_def)
  show "\<exists>d'. ser_write (firmware_link lk) (c # args) d = (True, d') \<and> link_good d' \<and>
      (dev_vars d', port (dev_fw d')) = command_spec c args (dev_vars d, port (dev_fw d)) \<and>
      link_unread d' = link_unread d @ drop (length (to_host (port (dev_fw d)))) (to_host (port (dev_fw d')))"
    by (rule exI [of _ "d\<lparr>dev_vars := v, dev_fw := t\<rparr>"]) (simp add: w g un bs t(3))
qed

lemma firmware_read:
  assumes "link_good d" "0 \<le> n"
  shows "\<exists>d'. ser_read (firmware_link lk) t n d = (Some (take (nat n) (link_unread d)), d') \<and> link_good d' \<and>
      dev_vars d' = dev_vars d \<and> port (dev_fw d') = port (dev_fw d) \<and> link_unread d' = drop (nat n) (link_unread d)"
proof -
  let ?D = "delivered (dev_fw d)"
  let ?d = "d\<lparr>dev_read := dev_read d + length (take (nat n) (link_unread d))\<rparr>"
  have "ser_read (firmware_link lk) t n d = (Some (take (nat n) (link_unread d)), ?d)"
    by (simp add: firmware_link_def link_unread_def Let_def)
  moreover have "drop (dev_read d + min (length ?D - dev_read d) (nat n)) ?D = drop (dev_read d + nat n) ?D"
    by (cases "nat n \<le> length ?D - dev_read d") (simp_all add: min_def)
  then have "link_unread ?d = drop (nat n) (link_unread d)" by (simp add: link_unread_def add.commute)
  moreover have "dev_read d + min (length ?D - dev_read d) (nat n) \<le> length ?D"
    using assms(1) unfolding link_good_def by linarith
  then have "link_good ?d" using assms(1) by (simp add: link_good_def link_unread_def)
  ultimately show ?thesis by (intro exI [of _ ?d]) simp
qed

lemma firmware_open:
  "link_good d \<Longrightarrow> \<exists>d'. ser_open (firmware_link lk) p t d = (True, d') \<and> link_good d' \<and> dev_vars d' = dev_vars d \<and>
     port (dev_fw d') = port (dev_fw d) \<and> link_unread d' = link_unread d"
  by (simp add: firmware_link_def)

lemma firmware_close:
  "link_good d \<Longrightarrow> link_good (ser_close (firmware_link lk) d) \<and> dev_vars (ser_close (firmware_link lk) d) = dev_vars d \<and>
     port (dev_fw (ser_close (firmware_link lk) d)) = port (dev_fw d) \<and>
     link_unread (ser_close (firmware_link lk) d) = link_unread d"
  by (simp add: firmware_link_def)

lemma firmware_memory:
  "link_good d \<Longrightarrow> length (sample_mem (port (dev_fw d))) = 3584 \<and> numberOfSamples (dev_vars d) \<le> 3584"
  using usb_invD(3) [OF idle_inv [OF online_idle [OF settled_online [of 0 "dev_fw d"]]]]
  by (simp add: link_good_def port_def wire_def hw_inv_def SCOPE_SIZE_def)

interpretation board: scope_link "firmware_link lk" dev_vars "\<lambda>l. port (dev_fw l)" link_unread link_good for lk
  by unfold_locales (rule firmware_write firmware_read firmware_open firmware_close firmware_memory; assumption)+

subsection \<open>The class and the firmware together\<close>

definition attached :: "fw_link Scope_obj \<Rightarrow> bool" where
  "attached h \<longleftrightarrow> link_good (device h) \<and> link_unread (device h) = [] \<and> self_serial h \<noteq> None"

lemma attached_connected: "board.connected h = attached h"
  by (simp add: board.connected_def attached_def)

text \<open>A class object on a board the host has configured.\<close>

definition bench :: "fw_link Scope_obj" where
  "bench = \<lparr>self_port = ''/dev/ttyACM0'', self_timeout = 5 / 2, self_serial = Some (5 / 2), numSamples = 3584, clockDivider = 2,
     self_bits12 = True, self_bias = 0x444, self_gain = 0, self_delay = 0,
     device = \<lparr>dev_vars = scope_vars_init, dev_fw = configured_fw, dev_read = 0\<rparr>\<rparr>"

lemma bench_attached: "attached bench"
proof -
  have "from_host (port configured_fw) = []" by (subst configured_settled(2)) simp
  moreover have "delivered configured_fw = []" by (simp add: delivered_def configured_fw_def reset_fw_def)
  ultimately show ?thesis
    using configured_settled(1)
    by (simp add: attached_def bench_def link_good_def link_unread_def scope_vars_init_def SCOPE_SIZE_def)
qed



text \<open>C5. Fetching the samples returns the sample memory. When the class and the board agree on the
  number of samples, \<open>getSamples\<close> returns exactly this number of bytes from the start of the
  sample buffer of the board, converted by the array package, and nothing is left to be read.
\<close>

theorem getSamples_returns_memory:
  assumes "attached h" "numSamples h = int (unat (numberOfSamples (dev_vars (device h))))"
  shows "\<exists>b. getSamples (firmware_link lk) np_i2 np_u8 h = ((if self_bits12 h then np_i2 else np_u8)
        (take (nat (numSamples h)) (scopeBuf (hw (dev_fw (device h))))), h\<lparr>device := b\<rparr>) \<and> attached (h\<lparr>device := b\<rparr>)"
proof -
  have "sample_mem (port (dev_fw (device h))) = scopeBuf (hw (dev_fw (device h)))" by (simp add: port_def wire_def)
  then show ?thesis
    using board.getSamples_fetches [of h lk np_i2 np_u8] assms by (auto simp: attached_connected)
qed

theorem getSamples_returns_memory_witness:
  "\<exists>b. getSamples (firmware_link \<lparr>scopeBuf_addr = 0, clkSel_addr = 0\<rparr>) Inr (\<lambda>_. Inl ValueError) bench =
     (Inr (replicate 3584 0), bench\<lparr>device := b\<rparr>)"
proof -
  have n: "numSamples bench = int (unat (numberOfSamples (dev_vars (device bench))))"
    by (simp add: bench_def scope_vars_init_def SCOPE_SIZE_def)
  have m: "scopeBuf (hw (dev_fw (device bench))) = replicate 3584 0" "self_bits12 bench" "numSamples bench = 3584"
    by (simp_all add: bench_def configured_fw_def reset_hw_def SCOPE_SIZE_def)
  show ?thesis
    using getSamples_returns_memory [OF bench_attached n, of "\<lparr>scopeBuf_addr = 0, clkSel_addr = 0\<rparr>" Inr "\<lambda>_. Inl ValueError"]
    by (auto simp: m)
qed

text \<open>C20. A refused number of samples. When the board's buffer is too small for the number the class
  asks for, \<open>setSamples\<close> raises with the answer of the board and the board keeps its number. The
  class has nevertheless stored the refused number, so that the next \<open>getSamples\<close> raises as well:
  the board sends fewer bytes than the class then expects.
\<close>

theorem refused_samples:
  assumes "attached h" "3584 < n" "n \<le> 0xffff"
  shows "\<exists>b b'. setSamples (firmware_link lk) n h =
      (Inl (IncorrectResponse [ch CHR ''B''] (map ch (''uffer too big'' @ crlf))), h\<lparr>numSamples := n, device := b\<rparr>) \<and>
    dev_vars b = dev_vars (device h) \<and>
    getSamples (firmware_link lk) np_i2 np_u8 (h\<lparr>numSamples := n, device := b\<rparr>) =
      (Inl (NotEnoughSamples n (unat (numberOfSamples (dev_vars (device h))))), h\<lparr>numSamples := n, device := b'\<rparr>)"
proof -
  obtain b where b: "setSamples (firmware_link lk) n h =
      (Inl (IncorrectResponse [ch CHR ''B''] (map ch (''uffer too big'' @ crlf))), h\<lparr>numSamples := n, device := b\<rparr>)"
    "attached (h\<lparr>device := b\<rparr>)" "dev_vars b = dev_vars (device h)"
    using board.setSamples_refused [OF assms(1) [folded attached_connected] assms(2,3), of lk] attached_connected by metis
  let ?h = "h\<lparr>numSamples := n, device := b\<rparr>"
  have a: "attached ?h" using b(2) by (simp add: attached_def)
  then have "numberOfSamples (dev_vars b) \<le> 3584" by (simp add: attached_def link_good_def)
  then have "unat (numberOfSamples (dev_vars b)) \<le> 3584" by (simp add: word_le_nat_alt)
  then have "int (unat (numberOfSamples (dev_vars b))) < n" using assms(2) by linarith
  then have "int (unat (numberOfSamples (dev_vars (device ?h)))) < numSamples ?h" by simp
  from board.getSamples_short [OF a [folded attached_connected] this, of lk np_i2 np_u8] show ?thesis using b(1,3) by auto
qed

theorem refused_samples_witness:
  "\<exists>b b'. setSamples (firmware_link \<lparr>scopeBuf_addr = 0, clkSel_addr = 0\<rparr>) 4000 bench =
      (Inl (IncorrectResponse [ch CHR ''B''] (map ch (''uffer too big'' @ crlf))), bench\<lparr>numSamples := 4000, device := b\<rparr>) \<and>
    getSamples (firmware_link \<lparr>scopeBuf_addr = 0, clkSel_addr = 0\<rparr>) Inr Inr (bench\<lparr>numSamples := 4000, device := b\<rparr>) =
      (Inl (NotEnoughSamples 4000 3584), bench\<lparr>numSamples := 4000, device := b'\<rparr>)"
proof -
  have "unat (numberOfSamples (dev_vars (device bench))) = 3584"
    by (simp add: bench_def scope_vars_init_def SCOPE_SIZE_def)
  then show ?thesis
    using refused_samples [OF bench_attached, of 4000 "\<lparr>scopeBuf_addr = 0, clkSel_addr = 0\<rparr>" Inr Inr] by auto
qed





end
