(* ===== verification/Aes_Field.thy ===== *)
theory Aes_Field
  imports Prelude
begin

text \<open>
  The field arithmetic of the attacked target, \<^verbatim>\<open>toe-arduino/sketch_slowAes/aes.c\<close>, lines
  10 to 71: addition and multiplication in GF($2^8$) and the products of four-byte words.
  The lemmas show that \<open>gmult\<close> is the multiplication of polynomials over GF(2) modulo
  $x^8 + x^4 + x^3 + x + 1$, and that it is a commutative ring multiplication over XOR.
  The locale \<open>xor_linear\<close> (maps that preserve XOR are determined on the eight unit bytes) carries
  these proofs.
\<close>

unbundle bit_operations_syntax

subsection \<open>Definitions\<close>

definition gadd :: "byte \<Rightarrow> byte \<Rightarrow> byte" where
  "gadd a b = a XOR b"

definition gsub :: "byte \<Rightarrow> byte \<Rightarrow> byte" where
  "gsub a b = a XOR b"

text \<open>The body of the loop of \<^verbatim>\<open>gmult\<close>, iterated \<open>n\<close> more times.\<close>

fun gmult_loop :: "nat \<Rightarrow> byte \<Rightarrow> byte \<Rightarrow> byte \<Rightarrow> byte" where
  "gmult_loop 0 p a b = p"
| "gmult_loop (Suc n) p a b =
     (let p = (if b AND 1 \<noteq> 0 then p XOR a else p);
          hbs = a AND 0x80;
          a = push_bit 1 a;
          a = (if hbs \<noteq> 0 then a XOR 0x1b else a);
          b = drop_bit 1 b
      in gmult_loop n p a b)"

definition gmult :: "byte \<Rightarrow> byte \<Rightarrow> byte" where
  "gmult a b = gmult_loop 8 0 a b"

definition coef_add :: "byte list \<Rightarrow> byte list \<Rightarrow> byte list" where
  "coef_add a b = [a ! 0 XOR b ! 0, a ! 1 XOR b ! 1, a ! 2 XOR b ! 2, a ! 3 XOR b ! 3]"

definition coef_mult :: "byte list \<Rightarrow> byte list \<Rightarrow> byte list" where
  "coef_mult a b =
    [gmult (a!0) (b!0) XOR gmult (a!3) (b!1) XOR gmult (a!2) (b!2) XOR gmult (a!1) (b!3),
     gmult (a!1) (b!0) XOR gmult (a!0) (b!1) XOR gmult (a!3) (b!2) XOR gmult (a!2) (b!3),
     gmult (a!2) (b!0) XOR gmult (a!1) (b!1) XOR gmult (a!0) (b!2) XOR gmult (a!3) (b!3),
     gmult (a!3) (b!0) XOR gmult (a!2) (b!1) XOR gmult (a!1) (b!2) XOR gmult (a!0) (b!3)]"

subsection \<open>Maps that preserve XOR\<close>

lemma byte_basis:
  fixes x :: byte
  shows "x = (x AND 1) XOR (x AND 2) XOR (x AND 4) XOR (x AND 8) XOR
             (x AND 16) XOR (x AND 32) XOR (x AND 64) XOR (x AND 128)"
  by (rule bit_word_eqI) (auto simp: bit_simps less_Suc_eq numeral_eq_Suc)

lemma and_unit: "(x :: byte) AND 2 ^ n = (if bit x n then 2 ^ n else 0)"
  by (auto intro!: bit_word_eqI simp: bit_simps)

lemma unit_byte_and:
  fixes x :: byte
  shows "x AND 1 = 0 \<or> x AND 1 = 1" "x AND 2 = 0 \<or> x AND 2 = 2" "x AND 4 = 0 \<or> x AND 4 = 4"
    "x AND 8 = 0 \<or> x AND 8 = 8" "x AND 16 = 0 \<or> x AND 16 = 16" "x AND 32 = 0 \<or> x AND 32 = 32"
    "x AND 64 = 0 \<or> x AND 64 = 64" "x AND 128 = 0 \<or> x AND 128 = 128"
  using and_unit [of x 0] and_unit [of x 1] and_unit [of x 2] and_unit [of x 3] and_unit [of x 4]
    and_unit [of x 5] and_unit [of x 6] and_unit [of x 7]
  by (simp_all split: if_splits)

locale xor_linear =
  fixes f :: "byte \<Rightarrow> byte"
  assumes hom: "f (x XOR y) = f x XOR f y"
begin

lemma zero [simp]: "f 0 = 0"
  using hom [of 0 0] by simp

lemma expand:
  "f x = f (x AND 1) XOR f (x AND 2) XOR f (x AND 4) XOR f (x AND 8) XOR
         f (x AND 16) XOR f (x AND 32) XOR f (x AND 64) XOR f (x AND 128)"
  by (subst byte_basis [of x]) (simp only: hom)

end

text \<open>Two such maps that agree on the eight unit bytes are equal.\<close>

lemma xor_linear_eqI:
  assumes "xor_linear f" "xor_linear g"
    and units: "f 1 = g 1" "f 2 = g 2" "f 4 = g 4" "f 8 = g 8"
      "f 16 = g 16" "f 32 = g 32" "f 64 = g 64" "f 128 = g 128"
  shows "f x = g x"
proof -
  have eq: "f u = g u" if "u = 0 \<or> u = v" "f v = g v" for u v
    using that xor_linear.zero [OF assms(1)] xor_linear.zero [OF assms(2)] by auto
  show ?thesis
    unfolding xor_linear.expand [OF assms(1), of x] xor_linear.expand [OF assms(2), of x]
    by (simp only: eq [OF unit_byte_and(1) units(1)] eq [OF unit_byte_and(2) units(2)]
      eq [OF unit_byte_and(3) units(3)] eq [OF unit_byte_and(4) units(4)]
      eq [OF unit_byte_and(5) units(5)] eq [OF unit_byte_and(6) units(6)]
      eq [OF unit_byte_and(7) units(7)] eq [OF unit_byte_and(8) units(8)])
qed

subsection \<open>Multiplication by x\<close>

definition xtime :: "byte \<Rightarrow> byte" where
  "xtime a = push_bit 1 a XOR (if bit a 7 then 0x1b else 0)"

lemma high_bit: "(a :: byte) AND 0x80 \<noteq> 0 \<longleftrightarrow> bit a 7"
  using and_exp_eq_0_iff_not_bit [of a 7] by simp

lemma low_bit: "(b :: byte) AND 1 \<noteq> 0 \<longleftrightarrow> bit b 0"
  by (simp add: and_one_eq bit_0 odd_iff_mod_2_eq_one)

lemma gmult_loop_Suc:
  "gmult_loop (Suc n) p a b = gmult_loop n (p XOR (if bit b 0 then a else 0)) (xtime a) (drop_bit 1 b)"
  using high_bit [of a] low_bit [of b] by (auto simp: xtime_def)

lemma xtime_xor: "xtime (x XOR y) = xtime x XOR xtime y"
  by (auto simp: xtime_def bit_xor_iff push_bit_xor ac_simps intro!: bit_word_eqI simp: bit_simps)

definition unit_bytes :: "byte list" where
  "unit_bytes = [1, 2, 4, 8, 16, 32, 64, 128]"

lemma xor_linear_eq_units:
  assumes "xor_linear f" "xor_linear g" "\<And>u. u \<in> set unit_bytes \<Longrightarrow> f u = g u"
  shows "f x = g x"
  by (rule xor_linear_eqI [OF assms(1,2)]; rule assms(3); simp add: unit_bytes_def)

lemma xor_bilinear_eqI:
  assumes f: "\<And>b. xor_linear (\<lambda>a. f a b)" "\<And>a. xor_linear (f a)"
    and g: "\<And>b. xor_linear (\<lambda>a. g a b)" "\<And>a. xor_linear (g a)"
    and units: "\<forall>u \<in> set unit_bytes. \<forall>v \<in> set unit_bytes. f u v = g u v"
  shows "f a b = g a b"
proof (rule xor_linear_eq_units [where f = "\<lambda>a. f a b" and g = "\<lambda>a. g a b", OF f(1) g(1)])
  fix u assume u: "u \<in> set unit_bytes"
  show "f u b = g u b"
    by (rule xor_linear_eq_units [OF f(2) g(2)]) (use u units in blast)
qed

subsection \<open>gmult is bilinear\<close>

lemma gmult_loop_left:
  "gmult_loop n (p XOR q) (a XOR c) b = gmult_loop n p a b XOR gmult_loop n q c b"
proof (induction n arbitrary: p q a c b)
  case (Suc n)
  have eq: "(p XOR q) XOR (if bit b 0 then a XOR c else 0) =
      (p XOR (if bit b 0 then a else 0)) XOR (q XOR (if bit b 0 then c else 0))"
    by (simp add: ac_simps)
  show ?case unfolding gmult_loop_Suc xtime_xor eq by (rule Suc.IH)
qed simp

lemma gmult_loop_right:
  "gmult_loop n (p XOR q) a (b XOR c) = gmult_loop n p a b XOR gmult_loop n q a c"
proof (induction n arbitrary: p q a b c)
  case (Suc n)
  have eq: "(p XOR q) XOR (if bit (b XOR c) 0 then a else 0) =
      (p XOR (if bit b 0 then a else 0)) XOR (q XOR (if bit c 0 then a else 0))"
    by (auto simp: ac_simps bit_xor_iff)
  show ?case unfolding gmult_loop_Suc drop_bit_xor eq by (rule Suc.IH)
qed simp

lemma gmult_xor_left: "gmult (a XOR c) b = gmult a b XOR gmult c b"
  using gmult_loop_left [of 8 0 0 a c b] by (simp add: gmult_def)

lemma gmult_xor_right: "gmult a (b XOR c) = gmult a b XOR gmult a c"
  using gmult_loop_right [of 8 0 0 a b c] by (simp add: gmult_def)

interpretation gmult_left: xor_linear "\<lambda>a. gmult a b" for b
  by unfold_locales (rule gmult_xor_left)

interpretation gmult_right: xor_linear "gmult a" for a
  by unfold_locales (rule gmult_xor_right)

interpretation xtime: xor_linear xtime
  by unfold_locales (rule xtime_xor)

lemma gmult_loop_numeral [simp]:
  "gmult_loop (numeral k) p a b =
     gmult_loop (pred_numeral k) (p XOR (if bit b 0 then a else 0)) (xtime a) (drop_bit 1 b)"
  by (simp only: numeral_eq_Suc gmult_loop_Suc)

lemmas gmult_eval = gmult_def xtime_def unit_bytes_def

text \<open>Closure of the XOR-preserving maps, as introduction rules.\<close>

lemma xor_linear_id: "xor_linear (\<lambda>x. x)"
  by unfold_locales simp

lemma xor_linear_comp: "xor_linear f \<Longrightarrow> xor_linear g \<Longrightarrow> xor_linear (\<lambda>x. f (g x))"
  by (simp add: xor_linear_def)

lemma xor_linear_xor: "xor_linear f \<Longrightarrow> xor_linear g \<Longrightarrow> xor_linear (\<lambda>x. f x XOR g x)"
  by (simp add: xor_linear_def ac_simps)

lemmas linear_rules = gmult_left.xor_linear_axioms gmult_right.xor_linear_axioms
  xtime.xor_linear_axioms xor_linear_id

lemma gmult_commute: "gmult a b = gmult b a"
  by (rule xor_bilinear_eqI [where f = gmult and g = "\<lambda>a b. gmult b a",
        OF linear_rules(1,2) linear_rules(2,1)])
    (simp add: gmult_eval)

lemma gmult_one [simp]: "gmult a 1 = a" "gmult 1 a = a"
proof -
  show "gmult a 1 = a"
    by (rule xor_linear_eq_units [OF linear_rules(1,4)]) (auto simp: gmult_eval)
  then show "gmult 1 a = a" by (simp add: gmult_commute)
qed

lemma gmult_xtime_left: "gmult (xtime a) b = xtime (gmult a b)"
  by (rule xor_bilinear_eqI [where f = "\<lambda>a b. gmult (xtime a) b" and g = "\<lambda>a b. xtime (gmult a b)",
        OF xor_linear_comp [OF linear_rules(1,3)] linear_rules(2)
           xor_linear_comp [OF linear_rules(3,1)] xor_linear_comp [OF linear_rules(3,2)]])
    (simp add: gmult_eval)

lemma gmult_xtime_right: "gmult a (xtime b) = xtime (gmult a b)"
  by (metis gmult_commute gmult_xtime_left)

text \<open>A product is the XOR of the shifts of the left factor selected by the bits of the right one.\<close>

lemma gmult_shifts:
  "gmult a b = (if bit b 0 then a else 0) XOR (if bit b 1 then (xtime ^^ 1) a else 0) XOR
     (if bit b 2 then (xtime ^^ 2) a else 0) XOR (if bit b 3 then (xtime ^^ 3) a else 0) XOR
     (if bit b 4 then (xtime ^^ 4) a else 0) XOR (if bit b 5 then (xtime ^^ 5) a else 0) XOR
     (if bit b 6 then (xtime ^^ 6) a else 0) XOR (if bit b 7 then (xtime ^^ 7) a else 0)"
proof -
  have "gmult a b = gmult_loop (Suc (Suc (Suc (Suc (Suc (Suc (Suc (Suc 0)))))))) 0 a b"
    unfolding gmult_def by (rule arg_cong [where f = "\<lambda>n. gmult_loop n 0 a b"]) simp
  also have "\<dots> = (if bit b 0 then a else 0) XOR (if bit b 1 then (xtime ^^ 1) a else 0) XOR
     (if bit b 2 then (xtime ^^ 2) a else 0) XOR (if bit b 3 then (xtime ^^ 3) a else 0) XOR
     (if bit b 4 then (xtime ^^ 4) a else 0) XOR (if bit b 5 then (xtime ^^ 5) a else 0) XOR
     (if bit b 6 then (xtime ^^ 6) a else 0) XOR (if bit b 7 then (xtime ^^ 7) a else 0)"
    unfolding gmult_loop_Suc gmult_loop.simps(1)
    by (simp add: bit_drop_bit_eq numeral_eq_Suc ac_simps split del: if_split cong: if_cong)
  finally show ?thesis .
qed

lemma gmult_assoc: "gmult (gmult a b) c = gmult a (gmult b c)"
proof -
  have "(xtime ^^ n) (gmult a b) = gmult a ((xtime ^^ n) b)" for n
    by (induction n) (simp_all add: gmult_xtime_right)
  then have "(if P then (xtime ^^ n) (gmult a b) else 0) = gmult a (if P then (xtime ^^ n) b else 0)"
    for P n by simp
  moreover have "(if bit c 0 then gmult a b else 0) = gmult a (if bit c 0 then b else 0)" by simp
  ultimately show ?thesis
    unfolding gmult_shifts [of "gmult a b" c] gmult_shifts [of b c] gmult_xor_right
    by (simp split del: if_split)
qed

subsection \<open>Reference: polynomials modulo the AES polynomial\<close>

text \<open>
  The textbook definition, with no interleaved reduction: the carry-less product of the two
  bytes, of degree at most 14, and then one division step per degree from 14 down to 8 by
  \<open>0x11b\<close>.
\<close>

definition clmul :: "byte \<Rightarrow> byte \<Rightarrow> u16" where
  "clmul a b = foldr (\<lambda>i v. (if bit b i then push_bit i (ucast a) else 0) XOR v) [0..<8] 0"

definition poly_step :: "nat \<Rightarrow> u16 \<Rightarrow> u16" where
  "poly_step k v = (if bit v (8 + k) then v XOR push_bit k 0x11b else v)"

definition poly_mod :: "u16 \<Rightarrow> byte" where
  "poly_mod v = ucast (foldr poly_step [0..<7] v)"

lemma poly_step_xor: "poly_step k (v XOR w) = poly_step k v XOR poly_step k w"
  by (auto simp: poly_step_def bit_xor_iff ac_simps)

lemma foldr_poly_step_xor:
  "foldr poly_step ks (v XOR w) = foldr poly_step ks v XOR foldr poly_step ks w"
  by (induction ks) (simp_all add: poly_step_xor)

lemma poly_mod_xor: "poly_mod (v XOR w) = poly_mod v XOR poly_mod w"
  by (simp add: poly_mod_def foldr_poly_step_xor) (rule bit_word_eqI, simp add: bit_simps)

lemma clmul_left: "clmul (a XOR c) b = clmul a b XOR clmul c b"
proof -
  have "foldr (\<lambda>i v. (if bit b i then push_bit i (ucast (a XOR c)) else 0) XOR v) is (x XOR y) =
    foldr (\<lambda>i v. (if bit b i then push_bit i (ucast a) else 0) XOR v) is x XOR
    foldr (\<lambda>i v. (if bit b i then push_bit i (ucast c) else 0) XOR v) is (y :: u16)" for "is" x y
    by (induction "is") (auto simp: ac_simps intro!: bit_word_eqI simp: bit_simps)
  from this [of "[0..<8]" 0 0] show ?thesis by (simp only: clmul_def xor_self_eq)
qed

lemma clmul_right: "clmul a (b XOR c) = clmul a b XOR clmul a c"
proof -
  have "foldr (\<lambda>i v. (if bit (b XOR c) i then push_bit i (ucast a) else 0) XOR v) is (x XOR y) =
    foldr (\<lambda>i v. (if bit b i then push_bit i (ucast a) else 0) XOR v) is x XOR
    foldr (\<lambda>i v. (if bit c i then push_bit i (ucast a) else 0) XOR v) is (y :: u16)" for "is" x y
    by (induction "is") (auto simp: ac_simps bit_xor_iff)
  from this [of "[0..<8]" 0 0] show ?thesis by (simp only: clmul_def xor_self_eq)
qed

lemma poly_mod_powers:
  shows "poly_mod 0x1 = 0x1" "poly_mod 0x2 = 0x2" "poly_mod 0x4 = 0x4"
    "poly_mod 0x8 = 0x8" "poly_mod 0x10 = 0x10" "poly_mod 0x20 = 0x20"
    "poly_mod 0x40 = 0x40" "poly_mod 0x80 = 0x80" "poly_mod 0x100 = 0x1b"
    "poly_mod 0x200 = 0x36" "poly_mod 0x400 = 0x6c" "poly_mod 0x800 = 0xd8"
    "poly_mod 0x1000 = 0xab" "poly_mod 0x2000 = 0x4d" "poly_mod 0x4000 = 0x9a"
  by (simp_all add: poly_mod_def poly_step_def upt_loops)

lemma gmult_polynomial: "gmult a b = poly_mod (clmul a b)"
proof (rule xor_bilinear_eqI [where f = gmult and g = "\<lambda>a b. poly_mod (clmul a b)",
      OF linear_rules(1,2)])
  show "xor_linear (\<lambda>a. poly_mod (clmul a b))" "xor_linear (\<lambda>b. poly_mod (clmul a b))" for a b
    by (simp_all add: xor_linear_def clmul_left clmul_right poly_mod_xor)
  show "\<forall>u\<in>set unit_bytes. \<forall>v\<in>set unit_bytes. gmult u v = poly_mod (clmul u v)"
    by (simp add: gmult_eval clmul_def poly_mod_powers upt_loops)
qed

subsection \<open>Properties\<close>

text \<open>C25: The shift-and-add multiplication of the cipher is multiplication in the field
  GF(2^8) of FIPS-197: the carry-less product of the two bytes as polynomials, reduced modulo
  \<open>x^8 + x^4 + x^3 + x + 1\<close>. It is commutative and associative, distributes over the addition
  \<open>gadd\<close>, and has the unit 1.\<close>

theorem gmult_is_field_product:
  "gmult a b = poly_mod (clmul a b) \<and> gmult a b = gmult b a \<and>
   gmult (gmult a b) c = gmult a (gmult b c) \<and> gmult a (gadd b c) = gadd (gmult a b) (gmult a c) \<and>
   gmult 1 a = a"
  using gmult_polynomial [of a b] gmult_commute [of a b] gmult_assoc [of a b c] gmult_xor_right [of a b c]
    gmult_one [of a] gmult_commute [of a 1]
  by (simp add: gadd_def)

end
