(* ===== verification/Aes.thy ===== *)
theory Aes
  imports Aes_Field
begin

text \<open>
  The cipher of the attacked target, \<^verbatim>\<open>toe-arduino/sketch_slowAes/aes.c\<close>, lines 76 to 443:
  the tables, the round transformations, key expansion, \<^verbatim>\<open>cipher\<close> and \<^verbatim>\<open>inv_cipher\<close>.
  Arrays are lists; the pointers the code receives are the lists it reads and the updated
  lists it returns. The globals \<^verbatim>\<open>Nk\<close> and \<^verbatim>\<open>Nr\<close> are arguments, \<^verbatim>\<open>Nb\<close> is never assigned after
  its initialiser, and the static array \<^verbatim>\<open>R\<close> that \<^verbatim>\<open>Rcon\<close> overwrites is threaded through key
  expansion.
\<close>

unbundle bit_operations_syntax

subsection \<open>Tables\<close>

definition Nb :: nat where
  "Nb = 4"

definition s_box :: "byte list" where
  "s_box =
  [0x63, 0x7c, 0x77, 0x7b, 0xf2, 0x6b, 0x6f, 0xc5, 0x30, 0x01, 0x67, 0x2b, 0xfe, 0xd7, 0xab, 0x76,
   0xca, 0x82, 0xc9, 0x7d, 0xfa, 0x59, 0x47, 0xf0, 0xad, 0xd4, 0xa2, 0xaf, 0x9c, 0xa4, 0x72, 0xc0,
   0xb7, 0xfd, 0x93, 0x26, 0x36, 0x3f, 0xf7, 0xcc, 0x34, 0xa5, 0xe5, 0xf1, 0x71, 0xd8, 0x31, 0x15,
   0x04, 0xc7, 0x23, 0xc3, 0x18, 0x96, 0x05, 0x9a, 0x07, 0x12, 0x80, 0xe2, 0xeb, 0x27, 0xb2, 0x75,
   0x09, 0x83, 0x2c, 0x1a, 0x1b, 0x6e, 0x5a, 0xa0, 0x52, 0x3b, 0xd6, 0xb3, 0x29, 0xe3, 0x2f, 0x84,
   0x53, 0xd1, 0x00, 0xed, 0x20, 0xfc, 0xb1, 0x5b, 0x6a, 0xcb, 0xbe, 0x39, 0x4a, 0x4c, 0x58, 0xcf,
   0xd0, 0xef, 0xaa, 0xfb, 0x43, 0x4d, 0x33, 0x85, 0x45, 0xf9, 0x02, 0x7f, 0x50, 0x3c, 0x9f, 0xa8,
   0x51, 0xa3, 0x40, 0x8f, 0x92, 0x9d, 0x38, 0xf5, 0xbc, 0xb6, 0xda, 0x21, 0x10, 0xff, 0xf3, 0xd2,
   0xcd, 0x0c, 0x13, 0xec, 0x5f, 0x97, 0x44, 0x17, 0xc4, 0xa7, 0x7e, 0x3d, 0x64, 0x5d, 0x19, 0x73,
   0x60, 0x81, 0x4f, 0xdc, 0x22, 0x2a, 0x90, 0x88, 0x46, 0xee, 0xb8, 0x14, 0xde, 0x5e, 0x0b, 0xdb,
   0xe0, 0x32, 0x3a, 0x0a, 0x49, 0x06, 0x24, 0x5c, 0xc2, 0xd3, 0xac, 0x62, 0x91, 0x95, 0xe4, 0x79,
   0xe7, 0xc8, 0x37, 0x6d, 0x8d, 0xd5, 0x4e, 0xa9, 0x6c, 0x56, 0xf4, 0xea, 0x65, 0x7a, 0xae, 0x08,
   0xba, 0x78, 0x25, 0x2e, 0x1c, 0xa6, 0xb4, 0xc6, 0xe8, 0xdd, 0x74, 0x1f, 0x4b, 0xbd, 0x8b, 0x8a,
   0x70, 0x3e, 0xb5, 0x66, 0x48, 0x03, 0xf6, 0x0e, 0x61, 0x35, 0x57, 0xb9, 0x86, 0xc1, 0x1d, 0x9e,
   0xe1, 0xf8, 0x98, 0x11, 0x69, 0xd9, 0x8e, 0x94, 0x9b, 0x1e, 0x87, 0xe9, 0xce, 0x55, 0x28, 0xdf,
   0x8c, 0xa1, 0x89, 0x0d, 0xbf, 0xe6, 0x42, 0x68, 0x41, 0x99, 0x2d, 0x0f, 0xb0, 0x54, 0xbb, 0x16]"

definition inv_s_box :: "byte list" where
  "inv_s_box =
  [0x52, 0x09, 0x6a, 0xd5, 0x30, 0x36, 0xa5, 0x38, 0xbf, 0x40, 0xa3, 0x9e, 0x81, 0xf3, 0xd7, 0xfb,
   0x7c, 0xe3, 0x39, 0x82, 0x9b, 0x2f, 0xff, 0x87, 0x34, 0x8e, 0x43, 0x44, 0xc4, 0xde, 0xe9, 0xcb,
   0x54, 0x7b, 0x94, 0x32, 0xa6, 0xc2, 0x23, 0x3d, 0xee, 0x4c, 0x95, 0x0b, 0x42, 0xfa, 0xc3, 0x4e,
   0x08, 0x2e, 0xa1, 0x66, 0x28, 0xd9, 0x24, 0xb2, 0x76, 0x5b, 0xa2, 0x49, 0x6d, 0x8b, 0xd1, 0x25,
   0x72, 0xf8, 0xf6, 0x64, 0x86, 0x68, 0x98, 0x16, 0xd4, 0xa4, 0x5c, 0xcc, 0x5d, 0x65, 0xb6, 0x92,
   0x6c, 0x70, 0x48, 0x50, 0xfd, 0xed, 0xb9, 0xda, 0x5e, 0x15, 0x46, 0x57, 0xa7, 0x8d, 0x9d, 0x84,
   0x90, 0xd8, 0xab, 0x00, 0x8c, 0xbc, 0xd3, 0x0a, 0xf7, 0xe4, 0x58, 0x05, 0xb8, 0xb3, 0x45, 0x06,
   0xd0, 0x2c, 0x1e, 0x8f, 0xca, 0x3f, 0x0f, 0x02, 0xc1, 0xaf, 0xbd, 0x03, 0x01, 0x13, 0x8a, 0x6b,
   0x3a, 0x91, 0x11, 0x41, 0x4f, 0x67, 0xdc, 0xea, 0x97, 0xf2, 0xcf, 0xce, 0xf0, 0xb4, 0xe6, 0x73,
   0x96, 0xac, 0x74, 0x22, 0xe7, 0xad, 0x35, 0x85, 0xe2, 0xf9, 0x37, 0xe8, 0x1c, 0x75, 0xdf, 0x6e,
   0x47, 0xf1, 0x1a, 0x71, 0x1d, 0x29, 0xc5, 0x89, 0x6f, 0xb7, 0x62, 0x0e, 0xaa, 0x18, 0xbe, 0x1b,
   0xfc, 0x56, 0x3e, 0x4b, 0xc6, 0xd2, 0x79, 0x20, 0x9a, 0xdb, 0xc0, 0xfe, 0x78, 0xcd, 0x5a, 0xf4,
   0x1f, 0xdd, 0xa8, 0x33, 0x88, 0x07, 0xc7, 0x31, 0xb1, 0x12, 0x10, 0x59, 0x27, 0x80, 0xec, 0x5f,
   0x60, 0x51, 0x7f, 0xa9, 0x19, 0xb5, 0x4a, 0x0d, 0x2d, 0xe5, 0x7a, 0x9f, 0x93, 0xc9, 0x9c, 0xef,
   0xa0, 0xe0, 0x3b, 0x4d, 0xae, 0x2a, 0xf5, 0xb0, 0xc8, 0xeb, 0xbb, 0x3c, 0x83, 0x53, 0x99, 0x61,
   0x17, 0x2b, 0x04, 0x7e, 0xba, 0x77, 0xd6, 0x26, 0xe1, 0x69, 0x14, 0x63, 0x55, 0x21, 0x0c, 0x7d]"

subsection \<open>Round constants\<close>

text \<open>The \<^verbatim>\<open>while (i-1 > 0)\<close> loop of \<^verbatim>\<open>Rcon\<close>; \<open>i\<close> is at least one when it is entered.\<close>

fun Rcon_loop :: "nat \<Rightarrow> byte \<Rightarrow> byte" where
  "Rcon_loop i r = (if i - 1 > 0 then Rcon_loop (i - 1) (gmult r 0x02) else r)"

declare Rcon_loop.simps [simp del]

definition Rcon :: "nat \<Rightarrow> byte list \<Rightarrow> byte list" where
  "Rcon i R =
     (if i = 1 then R[0 := 0x01]
      else if i > 1 then R[0 := Rcon_loop (i - 1) 0x02]
      else R)"

subsection \<open>Round transformations\<close>

definition add_round_key :: "byte list \<Rightarrow> byte list \<Rightarrow> nat \<Rightarrow> byte list" where
  "add_round_key state w r = fold (\<lambda>c state.
     let state = state[Nb*0+c := state ! (Nb*0+c) XOR w ! (4*Nb*r+4*c+0)];
         state = state[Nb*1+c := state ! (Nb*1+c) XOR w ! (4*Nb*r+4*c+1)];
         state = state[Nb*2+c := state ! (Nb*2+c) XOR w ! (4*Nb*r+4*c+2)];
         state = state[Nb*3+c := state ! (Nb*3+c) XOR w ! (4*Nb*r+4*c+3)]
     in state) [0..<Nb] state"

text \<open>The loop shared by \<^verbatim>\<open>mix_columns\<close> and \<^verbatim>\<open>inv_mix_columns\<close>: they differ in \<open>a\<close> only.\<close>

definition mix_with :: "byte list \<Rightarrow> byte list \<Rightarrow> byte list" where
  "mix_with a state = fold (\<lambda>j state.
     let col = map (\<lambda>i. state ! (Nb*i+j)) [0..<4];
         res = coef_mult a col
     in fold (\<lambda>i state. state[Nb*i+j := res ! i]) [0..<4] state) [0..<Nb] state"

definition mix_columns :: "byte list \<Rightarrow> byte list" where
  "mix_columns state = mix_with [0x02, 0x01, 0x01, 0x03] state"

definition inv_mix_columns :: "byte list \<Rightarrow> byte list" where
  "inv_mix_columns state = mix_with [0x0e, 0x09, 0x0d, 0x0b] state"

text \<open>One pass of the inner \<^verbatim>\<open>while (s < i)\<close> loops: row \<open>i\<close> moves by one place.\<close>

definition rotate_row :: "nat \<Rightarrow> byte list \<Rightarrow> byte list" where
  "rotate_row i state =
     (let tmp = state ! (Nb*i+0);
          state = fold (\<lambda>k state. state[Nb*i+k-1 := state ! (Nb*i+k)]) [1..<Nb] state
      in state[Nb*i+Nb-1 := tmp])"

definition shift_rows :: "byte list \<Rightarrow> byte list" where
  "shift_rows state = fold (\<lambda>i. rotate_row i ^^ i) [1..<4] state"

definition inv_rotate_row :: "nat \<Rightarrow> byte list \<Rightarrow> byte list" where
  "inv_rotate_row i state =
     (let tmp = state ! (Nb*i+Nb-1);
          state = fold (\<lambda>k state. state[Nb*i+k := state ! (Nb*i+k-1)]) (rev [1..<Nb]) state
      in state[Nb*i+0 := tmp])"

definition inv_shift_rows :: "byte list \<Rightarrow> byte list" where
  "inv_shift_rows state = fold (\<lambda>i. inv_rotate_row i ^^ i) [1..<4] state"

text \<open>The table index is assembled from the two nibbles, as the code does.\<close>

definition nibble_lookup :: "byte list \<Rightarrow> byte \<Rightarrow> byte" where
  "nibble_lookup box x =
     (let row = drop_bit 4 (x AND 0xf0); col = x AND 0x0f in box ! (16 * unat row + unat col))"

definition sub_bytes :: "byte list \<Rightarrow> byte list" where
  "sub_bytes state = fold (\<lambda>i state. fold (\<lambda>j state.
     state[Nb*i+j := nibble_lookup s_box (state ! (Nb*i+j))]) [0..<Nb] state) [0..<4] state"

definition inv_sub_bytes :: "byte list \<Rightarrow> byte list" where
  "inv_sub_bytes state = fold (\<lambda>i state. fold (\<lambda>j state.
     state[Nb*i+j := nibble_lookup inv_s_box (state ! (Nb*i+j))]) [0..<Nb] state) [0..<4] state"

subsection \<open>Key expansion\<close>

definition sub_word :: "byte list \<Rightarrow> byte list" where
  "sub_word w = fold (\<lambda>i w. w[i := nibble_lookup s_box (w ! i)]) [0..<4] w"

definition rot_word :: "byte list \<Rightarrow> byte list" where
  "rot_word w =
     (let tmp = w ! 0; w = fold (\<lambda>i w. w[i := w ! (i+1)]) [0..<3] w in w[3 := tmp])"

text \<open>The two loops of \<^verbatim>\<open>key_expansion\<close>: copying the key, and one new word.\<close>

definition copy_word :: "byte list \<Rightarrow> nat \<Rightarrow> byte list \<Rightarrow> byte list" where
  "copy_word key i w =
     w[4*i+0 := key ! (4*i+0), 4*i+1 := key ! (4*i+1), 4*i+2 := key ! (4*i+2),
       4*i+3 := key ! (4*i+3)]"

definition expand_word :: "nat \<Rightarrow> nat \<Rightarrow> byte list \<times> byte list \<Rightarrow> byte list \<times> byte list" where
  "expand_word Nk i wR = (case wR of (w, R) \<Rightarrow>
     let tmp = [w ! (4*(i-1)+0), w ! (4*(i-1)+1), w ! (4*(i-1)+2), w ! (4*(i-1)+3)];
         (tmp, R) =
           (if i mod Nk = 0 then
              (let tmp = sub_word (rot_word tmp); R = Rcon (i div Nk) R in (coef_add tmp R, R))
            else if Nk > 6 \<and> i mod Nk = 4 then (sub_word tmp, R)
            else (tmp, R));
         w = w[4*i+0 := w ! (4*(i-Nk)+0) XOR tmp ! 0];
         w = w[4*i+1 := w ! (4*(i-Nk)+1) XOR tmp ! 1];
         w = w[4*i+2 := w ! (4*(i-Nk)+2) XOR tmp ! 2];
         w = w[4*i+3 := w ! (4*(i-Nk)+3) XOR tmp ! 3]
     in (w, R))"

definition key_expansion ::
  "nat \<Rightarrow> nat \<Rightarrow> byte list \<Rightarrow> byte list \<Rightarrow> byte list \<Rightarrow> byte list \<times> byte list" where
  "key_expansion Nk Nr key w R =
     (let len = Nb * (Nr + 1) mod 256;
          w = fold (copy_word key) [0..<Nk] w
      in fold (expand_word Nk) [Nk..<len] (w, R))"

subsection \<open>Cipher and inverse cipher\<close>

text \<open>
  Loading the state from the input block and storing it to the output block. The local
  array \<^verbatim>\<open>state\<close> is uninitialised; the two loops write all its elements before any is read.
\<close>

definition load_state :: "byte list \<Rightarrow> byte list \<Rightarrow> byte list" where
  "load_state inp state = fold (\<lambda>i state. fold (\<lambda>j state.
     state[Nb*i+j := inp ! (i+4*j)]) [0..<Nb] state) [0..<4] state"

definition store_state :: "byte list \<Rightarrow> byte list \<Rightarrow> byte list" where
  "store_state state out = fold (\<lambda>i out. fold (\<lambda>j out.
     out[i+4*j := state ! (Nb*i+j)]) [0..<Nb] out) [0..<4] out"

definition cipher_round :: "byte list \<Rightarrow> nat \<Rightarrow> byte list \<Rightarrow> byte list" where
  "cipher_round w r state = add_round_key (mix_columns (shift_rows (sub_bytes state))) w r"

definition cipher :: "nat \<Rightarrow> byte list \<Rightarrow> byte list \<Rightarrow> byte list \<Rightarrow> byte list" where
  "cipher Nr inp out w =
     (let state = load_state inp (replicate (4*Nb) 0);
          state = add_round_key state w 0;
          state = fold (cipher_round w) [1..<Nr] state;
          state = sub_bytes state;
          state = shift_rows state;
          state = add_round_key state w Nr
      in store_state state out)"

definition inv_cipher_round :: "byte list \<Rightarrow> nat \<Rightarrow> byte list \<Rightarrow> byte list" where
  "inv_cipher_round w r state =
     inv_mix_columns (add_round_key (inv_sub_bytes (inv_shift_rows state)) w r)"

definition inv_cipher :: "nat \<Rightarrow> byte list \<Rightarrow> byte list \<Rightarrow> byte list \<Rightarrow> byte list" where
  "inv_cipher Nr inp out w =
     (let state = load_state inp (replicate (4*Nb) 0);
          state = add_round_key state w Nr;
          state = fold (inv_cipher_round w) (rev [1..<Nr]) state;
          state = inv_shift_rows state;
          state = inv_sub_bytes state;
          state = add_round_key state w 0
      in store_state state out)"

subsection \<open>The transformations on an explicit state\<close>

text \<open>
  All states have sixteen bytes, so each loop is evaluated once on a symbolic state
  \<open>[a0, \<dots>, a15]\<close> (row-major: \<open>a(4r+c)\<close> is row \<open>r\<close>, column \<open>c\<close>); the lemmas below are the
  FIPS-197 descriptions of the transformations.
\<close>

lemma list16E:
  assumes "length (xs :: 'a list) = 16"
  obtains a0 a1 a2 a3 a4 a5 a6 a7 a8 a9 a10 a11 a12 a13 a14 a15
  where "xs = [a0, a1, a2, a3, a4, a5, a6, a7, a8, a9, a10, a11, a12, a13, a14, a15]"
  using assms by (auto simp: numeral_eq_Suc length_Suc_conv)

lemma shift_rows_explicit:
  "shift_rows [a0, a1, a2, a3, a4, a5, a6, a7, a8, a9, a10, a11, a12, a13, a14, a15] =
   [a0, a1, a2, a3, a5, a6, a7, a4, a10, a11, a8, a9, a15, a12, a13, a14]"
  by (simp add: shift_rows_def rotate_row_def Nb_def upt_loops eval_nat_numeral)

lemma inv_shift_rows_explicit:
  "inv_shift_rows [a0, a1, a2, a3, a4, a5, a6, a7, a8, a9, a10, a11, a12, a13, a14, a15] =
   [a0, a1, a2, a3, a7, a4, a5, a6, a10, a11, a8, a9, a13, a14, a15, a12]"
  by (simp add: inv_shift_rows_def inv_rotate_row_def Nb_def upt_loops eval_nat_numeral)

lemma add_round_key_explicit:
  "add_round_key [a0, a1, a2, a3, a4, a5, a6, a7, a8, a9, a10, a11, a12, a13, a14, a15] w r =
   [a0 XOR w ! (16*r), a1 XOR w ! (16*r+4), a2 XOR w ! (16*r+8), a3 XOR w ! (16*r+12), a4 XOR w ! (16*r+1), a5 XOR w ! (16*r+5), a6 XOR w ! (16*r+9), a7 XOR w ! (16*r+13), a8 XOR w ! (16*r+2), a9 XOR w ! (16*r+6), a10 XOR w ! (16*r+10), a11 XOR w ! (16*r+14), a12 XOR w ! (16*r+3), a13 XOR w ! (16*r+7), a14 XOR w ! (16*r+11), a15 XOR w ! (16*r+15)]"
  by (simp add: add_round_key_def Nb_def upt_loops add.commute)

lemma mix_with_explicit:
  "mix_with m [a0, a1, a2, a3, a4, a5, a6, a7, a8, a9, a10, a11, a12, a13, a14, a15] =
   [coef_mult m [a0, a4, a8, a12] ! 0, coef_mult m [a1, a5, a9, a13] ! 0, coef_mult m [a2, a6, a10, a14] ! 0, coef_mult m [a3, a7, a11, a15] ! 0, coef_mult m [a0, a4, a8, a12] ! 1, coef_mult m [a1, a5, a9, a13] ! 1, coef_mult m [a2, a6, a10, a14] ! 1, coef_mult m [a3, a7, a11, a15] ! 1, coef_mult m [a0, a4, a8, a12] ! 2, coef_mult m [a1, a5, a9, a13] ! 2, coef_mult m [a2, a6, a10, a14] ! 2, coef_mult m [a3, a7, a11, a15] ! 2, coef_mult m [a0, a4, a8, a12] ! 3, coef_mult m [a1, a5, a9, a13] ! 3, coef_mult m [a2, a6, a10, a14] ! 3, coef_mult m [a3, a7, a11, a15] ! 3]"
  by (simp add: mix_with_def Nb_def upt_loops Let_def)

lemma sub_bytes_map: "length state = 16 \<Longrightarrow> sub_bytes state = map (nibble_lookup s_box) state"
  by (elim list16E) (simp add: sub_bytes_def Nb_def upt_loops)

lemma inv_sub_bytes_map:
  "length state = 16 \<Longrightarrow> inv_sub_bytes state = map (nibble_lookup inv_s_box) state"
  by (elim list16E) (simp add: inv_sub_bytes_def Nb_def upt_loops)

lemma load_state_explicit:
  "length st = 16 \<Longrightarrow> load_state [a0, a1, a2, a3, a4, a5, a6, a7, a8, a9, a10, a11, a12, a13, a14, a15] st =
   [a0, a4, a8, a12, a1, a5, a9, a13, a2, a6, a10, a14, a3, a7, a11, a15]"
  by (elim list16E) (simp add: load_state_def Nb_def upt_loops)

lemma store_state_explicit:
  "length out = 16 \<Longrightarrow> store_state [a0, a1, a2, a3, a4, a5, a6, a7, a8, a9, a10, a11, a12, a13, a14, a15] out =
   [a0, a4, a8, a12, a1, a5, a9, a13, a2, a6, a10, a14, a3, a7, a11, a15]"
  by (elim list16E) (simp add: store_state_def Nb_def upt_loops)

lemma aes_lengths:
  assumes "length st = 16"
  shows "length (shift_rows st) = 16" "length (inv_shift_rows st) = 16"
    "length (sub_bytes st) = 16" "length (inv_sub_bytes st) = 16"
    "length (add_round_key st w r) = 16" "length (mix_with m st) = 16"
    "length (mix_columns st) = 16" "length (cipher_round w r st) = 16"
  using assms
  by (auto elim!: list16E simp: shift_rows_explicit inv_shift_rows_explicit sub_bytes_map
      inv_sub_bytes_map add_round_key_explicit mix_with_explicit mix_columns_def cipher_round_def)

lemma fold_cipher_round_length:
  "length st = 16 \<Longrightarrow> length (fold (cipher_round w) rs st) = 16"
  by (induction rs arbitrary: st) (simp_all add: aes_lengths)

subsection \<open>The tables\<close>

lemma nibble_lookup_nth: "nibble_lookup box x = box ! unat x"
proof -
  have hi: "drop_bit 4 (x AND 0xf0) = drop_bit 4 x"
    by (rule bit_word_eqI) (auto simp: bit_simps less_Suc_eq numeral_eq_Suc dest: bit_imp_le_length)
  have lo: "x AND 0x0f = take_bit 4 x"
    by (rule bit_word_eqI) (auto simp: bit_simps less_Suc_eq numeral_eq_Suc)
  have "16 * unat (drop_bit 4 x) + unat (take_bit 4 x) = unat x"
    by (simp add: drop_bit_eq_div take_bit_eq_mod unat_div_distrib unat_mod_distrib)
  then show ?thesis by (simp only: nibble_lookup_def Let_def hi lo)
qed

lemma s_box_length: "length s_box = 256"
  by (simp add: s_box_def)

lemma inv_s_box_length: "length inv_s_box = 256"
  by (simp add: inv_s_box_def)

lemma inv_s_box_table: "list_all (\<lambda>(x, v). inv_s_box ! unat v = x) (zip all_bytes s_box)"
  by (simp add: all_bytes_def s_box_def inv_s_box_def)

lemma inv_s_box_s_box: "inv_s_box ! unat (s_box ! unat x) = x"
  using zip_all_bytes [OF inv_s_box_table s_box_length, of x] by simp

subsection \<open>Each transformation is undone by its inverse\<close>

lemma shift_rows_inverse: "length st = 16 \<Longrightarrow> inv_shift_rows (shift_rows st) = st"
  by (elim list16E) (simp add: shift_rows_explicit inv_shift_rows_explicit)

lemma sub_bytes_inverse: "length st = 16 \<Longrightarrow> inv_sub_bytes (sub_bytes st) = st"
  by (simp add: sub_bytes_map inv_sub_bytes_map aes_lengths nibble_lookup_nth inv_s_box_s_box
      comp_def)

lemma add_round_key_inverse: "length st = 16 \<Longrightarrow> add_round_key (add_round_key st w r) w r = st"
  by (elim list16E) (simp add: add_round_key_explicit xor.assoc)

text \<open>
  \<open>coef_mult\<close> is the product of four-term polynomials modulo $x^4+1$: it is associative, so
  the two MixColumns polynomials cancel because their product is one.
\<close>

lemma coef_mult_assoc: "coef_mult a (coef_mult b c) = coef_mult (coef_mult a b) c"
  by (simp add: coef_mult_def gmult_xor_left gmult_xor_right gmult_assoc ac_simps)

lemma coef_mult_one: "coef_mult [1, 0, 0, 0] [c0, c1, c2, c3] = [c0, c1, c2, c3]"
  by (simp add: coef_mult_def)

lemma mix_polynomials_inverse:
  "coef_mult [0x0e, 0x09, 0x0d, 0x0b] [0x02, 0x01, 0x01, 0x03] = [1, 0, 0, 0]"
  by (simp add: coef_mult_def gmult_eval)

lemma coef_mult_4: "[coef_mult a b ! 0, coef_mult a b ! Suc 0, coef_mult a b ! 2, coef_mult a b ! 3] =
    coef_mult a b"
  by (simp add: coef_mult_def)

lemma mix_columns_inverse: "length st = 16 \<Longrightarrow> inv_mix_columns (mix_columns st) = st"
  by (elim list16E) (simp add: mix_columns_def inv_mix_columns_def mix_with_explicit coef_mult_4
      coef_mult_assoc mix_polynomials_inverse coef_mult_one)

lemma inv_cipher_round_inverse:
  "length st = 16 \<Longrightarrow>
   inv_cipher_round w r (shift_rows (sub_bytes (cipher_round w r st))) = shift_rows (sub_bytes st)"
  by (simp add: inv_cipher_round_def cipher_round_def aes_lengths shift_rows_inverse
      sub_bytes_inverse add_round_key_inverse mix_columns_inverse)

lemma inv_rounds_inverse:
  "length st = 16 \<Longrightarrow>
   fold (inv_cipher_round w) (rev rs) (shift_rows (sub_bytes (fold (cipher_round w) rs st))) =
   shift_rows (sub_bytes st)"
proof (induction rs arbitrary: st)
  case (Cons r rs)
  then show ?case by (simp add: aes_lengths inv_cipher_round_inverse)
qed simp

lemma load_store_state:
  "length st = 16 \<Longrightarrow> length out = 16 \<Longrightarrow> length s0 = 16 \<Longrightarrow> load_state (store_state st out) s0 = st"
  by (elim list16E) (simp add: store_state_explicit load_state_explicit)

lemma store_load_state:
  "length inp = 16 \<Longrightarrow> length out = 16 \<Longrightarrow> length s0 = 16 \<Longrightarrow> store_state (load_state inp s0) out = inp"
  by (elim list16E) (simp add: store_state_explicit load_state_explicit)

lemma load_state_length: "length inp = 16 \<Longrightarrow> length s0 = 16 \<Longrightarrow> length (load_state inp s0) = 16"
  by (elim list16E) (simp add: load_state_explicit)

lemma inv_cipher_cipher_lists:
  assumes "length inp = 16" "length out = 16" "length out2 = 16"
  shows "inv_cipher Nr (cipher Nr inp out w) out2 w = inp"
proof -
  let ?s0 = "replicate (4 * Nb) (0 :: byte)"
  let ?st = "add_round_key (load_state inp ?s0) w 0"
  let ?mid = "fold (cipher_round w) [1..<Nr] ?st"
  have len: "length ?s0 = 16" by (simp add: Nb_def)
  note ls = load_state_length [OF assms(1) len]
  have mid: "length ?mid = 16" by (intro fold_cipher_round_length aes_lengths ls)
  have "load_state (cipher Nr inp out w) ?s0 = add_round_key (shift_rows (sub_bytes ?mid)) w Nr"
    unfolding cipher_def Let_def
    by (intro load_store_state aes_lengths mid assms len)
  then have "inv_cipher Nr (cipher Nr inp out w) out2 w = store_state (load_state inp ?s0) out2"
    using mid ls
    by (simp add: inv_cipher_def Let_def add_round_key_inverse aes_lengths inv_rounds_inverse
        shift_rows_inverse sub_bytes_inverse)
  then show ?thesis by (simp only: store_load_state [OF assms(1,3) len])
qed

subsection \<open>The S-box is inversion followed by the affine map\<close>

definition rotl8 :: "nat \<Rightarrow> byte \<Rightarrow> byte" where
  "rotl8 n y = push_bit n y XOR drop_bit (8 - n) y"

definition affine :: "byte \<Rightarrow> byte" where
  "affine y = (y XOR rotl8 1 y XOR rotl8 2 y XOR rotl8 3 y XOR rotl8 4 y) XOR 0x63"

definition g_inverse :: "byte list" where
  "g_inverse =
  [0x00, 0x01, 0x8d, 0xf6, 0xcb, 0x52, 0x7b, 0xd1, 0xe8, 0x4f, 0x29, 0xc0, 0xb0, 0xe1, 0xe5, 0xc7,
   0x74, 0xb4, 0xaa, 0x4b, 0x99, 0x2b, 0x60, 0x5f, 0x58, 0x3f, 0xfd, 0xcc, 0xff, 0x40, 0xee, 0xb2,
   0x3a, 0x6e, 0x5a, 0xf1, 0x55, 0x4d, 0xa8, 0xc9, 0xc1, 0x0a, 0x98, 0x15, 0x30, 0x44, 0xa2, 0xc2,
   0x2c, 0x45, 0x92, 0x6c, 0xf3, 0x39, 0x66, 0x42, 0xf2, 0x35, 0x20, 0x6f, 0x77, 0xbb, 0x59, 0x19,
   0x1d, 0xfe, 0x37, 0x67, 0x2d, 0x31, 0xf5, 0x69, 0xa7, 0x64, 0xab, 0x13, 0x54, 0x25, 0xe9, 0x09,
   0xed, 0x5c, 0x05, 0xca, 0x4c, 0x24, 0x87, 0xbf, 0x18, 0x3e, 0x22, 0xf0, 0x51, 0xec, 0x61, 0x17,
   0x16, 0x5e, 0xaf, 0xd3, 0x49, 0xa6, 0x36, 0x43, 0xf4, 0x47, 0x91, 0xdf, 0x33, 0x93, 0x21, 0x3b,
   0x79, 0xb7, 0x97, 0x85, 0x10, 0xb5, 0xba, 0x3c, 0xb6, 0x70, 0xd0, 0x06, 0xa1, 0xfa, 0x81, 0x82,
   0x83, 0x7e, 0x7f, 0x80, 0x96, 0x73, 0xbe, 0x56, 0x9b, 0x9e, 0x95, 0xd9, 0xf7, 0x02, 0xb9, 0xa4,
   0xde, 0x6a, 0x32, 0x6d, 0xd8, 0x8a, 0x84, 0x72, 0x2a, 0x14, 0x9f, 0x88, 0xf9, 0xdc, 0x89, 0x9a,
   0xfb, 0x7c, 0x2e, 0xc3, 0x8f, 0xb8, 0x65, 0x48, 0x26, 0xc8, 0x12, 0x4a, 0xce, 0xe7, 0xd2, 0x62,
   0x0c, 0xe0, 0x1f, 0xef, 0x11, 0x75, 0x78, 0x71, 0xa5, 0x8e, 0x76, 0x3d, 0xbd, 0xbc, 0x86, 0x57,
   0x0b, 0x28, 0x2f, 0xa3, 0xda, 0xd4, 0xe4, 0x0f, 0xa9, 0x27, 0x53, 0x04, 0x1b, 0xfc, 0xac, 0xe6,
   0x7a, 0x07, 0xae, 0x63, 0xc5, 0xdb, 0xe2, 0xea, 0x94, 0x8b, 0xc4, 0xd5, 0x9d, 0xf8, 0x90, 0x6b,
   0xb1, 0x0d, 0xd6, 0xeb, 0xc6, 0x0e, 0xcf, 0xad, 0x08, 0x4e, 0xd7, 0xe3, 0x5d, 0x50, 0x1e, 0xb3,
   0x5b, 0x23, 0x38, 0x34, 0x68, 0x46, 0x03, 0x8c, 0xdd, 0x9c, 0x7d, 0xa0, 0xcd, 0x1a, 0x41, 0x1c]"

lemma g_inverse_length: "length g_inverse = 256"
  by (simp add: g_inverse_def)

lemma g_inverse_table:
  "list_all (\<lambda>(x, y). x = 0 \<or> gmult x y = 1) (zip all_bytes g_inverse)"
  unfolding all_bytes_def g_inverse_def zip_Cons_Cons zip_Nil list.pred_inject prod.case
  by (intro conjI TrueI; simp add: gmult_eval)

lemma s_box_map: "map affine g_inverse = s_box"
  unfolding s_box_def g_inverse_def list.map
  by (intro arg_cong2 [where f = Cons] refl; simp add: affine_def rotl8_def)

lemma gmult_inverse: "x \<noteq> 0 \<Longrightarrow> gmult x (g_inverse ! unat x) = 1"
  using zip_all_bytes [OF g_inverse_table g_inverse_length, of x] by simp

lemma gmult_inverse_unique: "gmult x y = 1 \<Longrightarrow> gmult x z = 1 \<Longrightarrow> y = z"
  by (metis gmult_assoc gmult_commute gmult_one(1))

lemma s_box_nth_affine: "s_box ! unat (x :: byte) = affine (g_inverse ! unat x)"
  unfolding s_box_map [symmetric] using unat_byte_bound [of x] by (simp add: g_inverse_length)

lemma s_box_zero: "s_box ! 0 = 0x63"
  by (simp add: s_box_def)

lemma s_box_inverse_affine: "gmult x y = 1 \<Longrightarrow> s_box ! unat x = affine y"
  by (metis gmult_inverse gmult_inverse_unique gmult_left.zero s_box_nth_affine zero_neq_one)

subsection \<open>The key schedule\<close>

text \<open>
  FIPS-197, section 5.2, as a recursion on the word index: \<open>key_word Nk key i\<close> is the \<open>i\<close>-th
  four-byte word of the schedule.
\<close>

definition word_at :: "byte list \<Rightarrow> nat \<Rightarrow> byte list" where
  "word_at w i = [w ! (4*i), w ! (4*i+1), w ! (4*i+2), w ! (4*i+3)]"

definition S_word :: "byte list \<Rightarrow> byte list" where
  "S_word t = map (\<lambda>x. s_box ! unat x) t"

definition round_constant :: "nat \<Rightarrow> byte" where
  "round_constant n = (xtime ^^ (n - 1)) 1"

function key_word :: "nat \<Rightarrow> byte list \<Rightarrow> nat \<Rightarrow> byte list" where
  "key_word Nk key i =
     (if i < Nk \<or> Nk = 0 then word_at key i
      else
        (let t = key_word Nk key (i - 1);
             t = (if i mod Nk = 0 then coef_add (S_word (rotate1 t)) [round_constant (i div Nk), 0, 0, 0]
                  else if Nk > 6 \<and> i mod Nk = 4 then S_word t
                  else t)
         in coef_add (key_word Nk key (i - Nk)) t))"
  by pat_completeness auto
termination
  by (relation "measure (\<lambda>(Nk, key, i). i)") auto

declare key_word.simps [simp del]

lemma gmult_two: "gmult a 2 = xtime a"
proof -
  have "xtime 1 = 2" by (simp add: xtime_def)
  then show ?thesis using gmult_xtime_right [of a 1] by simp
qed

lemma Rcon_loop_eq: "1 \<le> i \<Longrightarrow> Rcon_loop i r = (xtime ^^ (i - 1)) r"
proof (induction i arbitrary: r)
  case (Suc i)
  show ?case
  proof (cases i)
    case 0
    then show ?thesis by (subst Rcon_loop.simps) simp
  next
    case (Suc k)
    then show ?thesis
      using Suc.IH [of "xtime r"] by (subst Rcon_loop.simps) (simp add: gmult_two funpow_swap1)
  qed
qed simp

lemma Rcon_eq: "1 \<le> n \<Longrightarrow> Rcon n [r, 0, 0, 0] = [round_constant n, 0, 0, 0]"
proof (cases "n = 1")
  case False
  assume "1 \<le> n"
  then obtain m where "n = Suc (Suc m)" using False by (metis One_nat_def Suc_le_D not0_implies_Suc)
  moreover have "xtime 1 = 2" by (simp add: xtime_def)
  ultimately show ?thesis
    by (simp add: Rcon_def Rcon_loop_eq round_constant_def funpow_swap1)
qed (simp add: Rcon_def round_constant_def)

lemma word_at_length [simp]: "length (word_at w i) = 4"
  by (simp add: word_at_def)

lemma coef_add_length [simp]: "length (coef_add a b) = 4"
  by (simp add: coef_add_def)

lemma key_word_length [simp]: "length (key_word Nk key i) = 4"
  by (subst key_word.simps) (simp add: Let_def)

lemma list4E:
  assumes "length (xs :: 'a list) = 4"
  obtains a b c d where "xs = [a, b, c, d]"
  using assms by (auto simp: numeral_eq_Suc length_Suc_conv)

lemma sub_word_eq: "length t = 4 \<Longrightarrow> sub_word t = S_word t"
  by (elim list4E) (simp add: sub_word_def S_word_def upt_loops nibble_lookup_nth)

lemma rot_word_eq: "length t = 4 \<Longrightarrow> rot_word t = rotate1 t"
  by (elim list4E) (simp add: rot_word_def upt_loops)

lemma copy_word_at:
  assumes "4 * i + 3 < length w"
  shows "word_at (copy_word key i w) j = (if j = i then word_at key i else word_at w j)"
    "length (copy_word key i w) = length w"
proof -
  show "length (copy_word key i w) = length w" by (simp add: copy_word_def)
  show "word_at (copy_word key i w) j = (if j = i then word_at key i else word_at w j)"
  proof (cases "j = i")
    case False
    then have "4*i + a \<noteq> 4*j + b" if "a < 4" "b < 4" for a b using that by presburger
    with False show ?thesis by (simp add: word_at_def copy_word_def nth_list_update) 
  qed (use assms in \<open>simp add: word_at_def copy_word_def nth_list_update\<close>)
qed

lemma expand_word_at:
  assumes "0 < Nk" "Nk \<le> i" "4 * i + 3 < length w"
    and words: "\<And>j. j < i \<Longrightarrow> word_at w j = key_word Nk key j"
  shows "\<exists>w' r'. expand_word Nk i (w, [r, 0, 0, 0]) = (w', [r', 0, 0, 0]) \<and> length w' = length w \<and>
     (\<forall>j < Suc i. word_at w' j = key_word Nk key j)"
proof -
  let ?t = "word_at w (i - 1)"
  define tR where "tR = (if i mod Nk = 0
       then (coef_add (sub_word (rot_word ?t)) (Rcon (i div Nk) [r, 0, 0, 0]), Rcon (i div Nk) [r, 0, 0, 0])
       else if Nk > 6 \<and> i mod Nk = 4 then (sub_word ?t, [r, 0, 0, 0]) else (?t, [r, 0, 0, 0]))"
  obtain t R where tR_eq: "tR = (t, R)" by (cases tR)
  let ?x = "word_at w (i - Nk)"
  let ?w = "w[4*i := ?x ! 0 XOR t ! 0, 4*i+1 := ?x ! 1 XOR t ! 1, 4*i+2 := ?x ! 2 XOR t ! 2,
     4*i+3 := ?x ! 3 XOR t ! 3]"
  have div: "1 \<le> i div Nk" using assms(1,2) by (simp add: Suc_le_eq div_greater_zero_iff)
  have R: "\<exists>r'. R = [r', 0, 0, 0]"
    using tR_eq Rcon_eq [OF div] by (auto simp: tR_def split: if_splits)
  obtain k where k: "i - Nk = k" "k < i" using assms(1,2) by auto
  have upd: "expand_word Nk i (w, [r, 0, 0, 0]) =
     (let w = w[4*i+0 := w ! (4*k+0) XOR t ! 0]; w = w[4*i+1 := w ! (4*k+1) XOR t ! 1];
          w = w[4*i+2 := w ! (4*k+2) XOR t ! 2]; w = w[4*i+3 := w ! (4*k+3) XOR t ! 3] in (w, R))"
    using tR_eq unfolding tR_def expand_word_def word_at_def k(1)
    by (auto simp: Let_def split: if_splits)
  have ew: "expand_word Nk i (w, [r, 0, 0, 0]) = (?w, R)"
    using k(2) unfolding upd k(1) word_at_def Let_def by simp
  have t: "coef_add (key_word Nk key (i - Nk)) t = key_word Nk key i"
  proof -
    have "?t = key_word Nk key (i - 1)" using assms(1,2) by (intro words) simp
    then show ?thesis
      using assms(1,2) tR_eq Rcon_eq [OF div]
      by (subst (2) key_word.simps)
        (auto simp: tR_def sub_word_eq rot_word_eq Let_def split: if_splits)
  qed
  have "word_at ?w j = key_word Nk key j" if "j < Suc i" for j
  proof (cases "j = i")
    case True
    have "word_at ?w i = coef_add ?x t"
      using assms(3) by (simp add: word_at_def coef_add_def nth_list_update)
    moreover have "?x = key_word Nk key (i - Nk)" using assms(1,2) by (intro words) simp
    ultimately show ?thesis using True t by metis
  next
    case False
    with that have "j < i" by simp
    then have "4*j + a \<noteq> 4*i + b" if "a < 4" "b < 4" for a b using that by presburger
    then have "word_at ?w j = word_at w j"
      using False by (simp add: word_at_def nth_list_update)
    with \<open>j < i\<close> words show ?thesis by simp
  qed
  with ew R show ?thesis by auto
qed

lemma copy_words_at:
  "4 * n \<le> length w \<Longrightarrow>
   length (fold (copy_word key) [0..<n] w) = length w \<and>
   (\<forall>j < n. word_at (fold (copy_word key) [0..<n] w) j = word_at key j)"
  by (induction n) (auto simp: copy_word_at less_Suc_eq)

lemma expand_words_at:
  assumes "0 < Nk" "Nk \<le> n" "4 * n \<le> length w" "\<And>j. j < Nk \<Longrightarrow> word_at w j = key_word Nk key j"
  shows "\<exists>w' r'. fold (expand_word Nk) [Nk..<n] (w, [r, 0, 0, 0]) = (w', [r', 0, 0, 0]) \<and>
     length w' = length w \<and> (\<forall>j < n. word_at w' j = key_word Nk key j)"
  using assms(2,3)
proof (induction n rule: dec_induct)
  case base
  then show ?case using assms(4) by auto
next
  case (step n)
  then obtain w1 r1 where w1: "fold (expand_word Nk) [Nk..<n] (w, [r, 0, 0, 0]) = (w1, [r1, 0, 0, 0])"
      "length w1 = length w" "\<forall>j < n. word_at w1 j = key_word Nk key j"
    by auto
  with step assms(1) obtain w2 r2 where
    "expand_word Nk n (w1, [r1, 0, 0, 0]) = (w2, [r2, 0, 0, 0])" "length w2 = length w1"
    "\<forall>j < Suc n. word_at w2 j = key_word Nk key j"
    using expand_word_at [of Nk n w1 key r1] by auto
  with w1 step show ?case by simp
qed

lemma key_expansion_words:
  assumes "0 < Nk" "Nk \<le> Nb * (Nr + 1)" "Nb * (Nr + 1) < 256" "length w = 4 * (Nb * (Nr + 1))"
  shows "\<exists>w' r'. key_expansion Nk Nr key w [r, 0, 0, 0] = (w', [r', 0, 0, 0]) \<and>
    length w' = length w \<and> (\<forall>j < Nb * (Nr + 1). word_at w' j = key_word Nk key j)"
proof -
  let ?w = "fold (copy_word key) [0..<Nk] w"
  have copied: "length ?w = length w" "\<forall>j < Nk. word_at ?w j = word_at key j"
    using copy_words_at [of Nk w key] assms(2,4) by auto
  moreover have "word_at ?w j = key_word Nk key j" if "j < Nk" for j
    using copied(2) that by (subst key_word.simps) simp
  ultimately show ?thesis
    using expand_words_at [of Nk "Nb * (Nr + 1)" ?w key r] assms
    by (simp add: key_expansion_def Let_def)
qed

lemma words_determine:
  assumes "length w = 4 * n" "length v = 4 * n" "\<forall>j < n. word_at w j = word_at v j"
  shows "w = v"
proof (rule nth_equalityI)
  fix k assume "k < length w"
  then have "k div 4 < n" "k mod 4 < 4" "k = 4 * (k div 4) + k mod 4" using assms(1) by auto
  moreover from this have "word_at w (k div 4) ! (k mod 4) = word_at v (k div 4) ! (k mod 4)" using assms(3) by simp
  moreover have "word_at u j ! m = u ! (4 * j + m)" if "m < 4" for u :: "byte list" and j m
    using that by (auto simp: word_at_def less_Suc_eq numeral_eq_Suc)
  ultimately show "w ! k = v ! k" by metis
qed (use assms in simp)

subsection \<open>Properties\<close>

text \<open>C24: The S-box table is the one FIPS-197 defines: zero maps to \<open>0x63\<close>, every other byte has
  a multiplicative inverse in the field and maps to the affine transformation of it, and the
  inverse S-box table undoes the S-box on every byte.\<close>

theorem s_box_is_affine_inverse:
  "s_box ! unat (0 :: byte) = 0x63 \<and> (x \<noteq> 0 \<longrightarrow> (\<exists>y. gmult x y = 1 \<and> s_box ! unat x = affine y)) \<and>
   inv_s_box ! unat (s_box ! unat x) = x"
  using gmult_inverse [of x] s_box_inverse_affine [of x] s_box_zero inv_s_box_s_box [of x] by auto

theorem s_box_is_affine_inverse_witness:
  "(\<exists>y. gmult 0x53 y = 1 \<and> s_box ! unat (0x53 :: byte) = affine y) \<and> s_box ! unat (0x53 :: byte) = 0xed"
  using s_box_is_affine_inverse [of "0x53"] by (simp add: s_box_def)



text \<open>C15: Key expansion computes the key schedule of FIPS-197. For every key length \<open>Nk\<close> and number
  of rounds whose schedule fits the 8-bit loop bound of the code, each word of the expanded key
  is the word the recurrence of the standard gives, independent of the previous content of the
  array; the round constant register keeps its shape.\<close>

theorem key_expansion_is_schedule:
  assumes "0 < Nk" "Nk \<le> Nb * (Nr + 1)" "Nb * (Nr + 1) < 256" "length w = 4 * (Nb * (Nr + 1))"
  shows "\<exists>w' r'. key_expansion Nk Nr key w [r, 0, 0, 0] = (w', [r', 0, 0, 0]) \<and>
    length w' = length w \<and> (\<forall>j. j < Nb * (Nr + 1) \<longrightarrow> word_at w' j = key_word Nk key j)"
  using key_expansion_words [OF assms] by blast

theorem key_expansion_is_schedule_witness:
  "\<exists>w' r'. key_expansion 4 10 (replicate 16 7) (replicate 176 0) [2, 0, 0, 0] = (w', [r', 0, 0, 0]) \<and>
    length w' = 176 \<and> (\<forall>j. j < 44 \<longrightarrow> word_at w' j = key_word 4 (replicate 16 7) j)"
  using key_expansion_is_schedule [of 4 10 "replicate 176 0" "replicate 16 7" 2] by (simp add: Nb_def)



end
