(* ===== verification/Toe.thy ===== *)
theory Toe
  imports Aes
begin

text \<open>
  The two Arduino programs that act as the target of the measurements:
  \<open>sketch_slowAes.ino\<close>, which uses the cipher of \<open>aes.c\<close>, and
  \<open>sketch_oct23a.ino\<close>, which uses the library AESLib. The serial port is the list of the
  bytes that will arrive and the list of the bytes sent. Reading blocks: without input the
  program never returns, which is \<open>None\<close>. The encryption routine of AESLib is a parameter.
\<close>

subsection \<open>State\<close>

record toe =
  rx :: "byte list"
  tx :: "byte list"
  toe_Nk :: nat
  toe_Nr :: nat
  toe_R :: "byte list"
  out :: "byte list"
  toe_data :: "byte list"

definition toe_key :: "byte list" where
  "toe_key = [0xB0, 0xB0, 0xCE, 0xE5, 0xCA, 0xFE, 0xBE, 0xEF,
              0x30, 0x31, 0x32, 0x33, 0x34, 0x35, 0x36, 0x37]"

definition text_bytes :: "string \<Rightarrow> byte list" where
  "text_bytes str = map of_char str"

definition toe_crlf :: "byte list" where
  "toe_crlf = [0x0D, 0x0A]"

definition Serial_write :: "byte list \<Rightarrow> toe \<Rightarrow> toe" where
  "Serial_write bs t = t\<lparr>tx := tx t @ bs\<rparr>"

fun blocking_read :: "toe \<Rightarrow> (byte \<times> toe) option" where
  "blocking_read t = (case rx t of [] \<Rightarrow> None | b # bs \<Rightarrow> Some (b, t\<lparr>rx := bs\<rparr>))"

text \<open>The loop that reads \<open>n\<close> bytes into \<open>data\<close> from index \<open>i\<close>.\<close>

primrec read_block :: "nat \<Rightarrow> nat \<Rightarrow> toe \<Rightarrow> toe option" where
  "read_block 0 i t = Some t"
| "read_block (Suc n) i t = do {
     (b, t) \<leftarrow> blocking_read t;
     read_block n (Suc i) (t\<lparr>toe_data := (toe_data t)[i := b]\<rparr>)
   }"

subsection \<open>The sketch with its own cipher\<close>

definition slow_setup :: "toe \<Rightarrow> toe" where
  "slow_setup t =
    (let t = (if length toe_key = 24 then t\<lparr>toe_Nk := 6, toe_Nr := 12\<rparr>
              else if length toe_key = 32 then t\<lparr>toe_Nk := 8, toe_Nr := 14\<rparr>
              else t\<lparr>toe_Nk := 4, toe_Nr := 10\<rparr>)
     in Serial_write (text_bytes ''this is the arduino TOE'') t)"

text \<open>
  \<open>w\<close> is the uninitialised local array for the expanded key.
\<close>

definition slow_loop :: "byte list \<Rightarrow> toe \<Rightarrow> toe option" where
  "slow_loop w t =
    (let (w, R) = key_expansion (toe_Nk t) (toe_Nr t) toe_key w (toe_R t);
         t = t\<lparr>toe_R := R\<rparr>
     in do {
       (command, t) \<leftarrow> blocking_read t;
       if command = of_char CHR ''a'' then do {
         t \<leftarrow> read_block 16 0 t;
         (_, t) \<leftarrow> blocking_read t;
         let cipherInput = take 16 (toe_data t);
         let t = t\<lparr>out := cipher (toe_Nr t) cipherInput (out t) w\<rparr>;
         Some (Serial_write (out t) t)
       }
       else if command = of_char CHR ''t'' then Some (Serial_write (text_bytes ''T'' @ toe_crlf) t)
       else Some (Serial_write (text_bytes ''Incorrect Command!'' @ toe_crlf) t)
     })"

subsection \<open>The sketch with the library\<close>

definition lib_setup :: "toe \<Rightarrow> toe" where
  "lib_setup t = Serial_write (text_bytes ''this is the arduino TOE'') t"

definition lib_loop :: "(byte list \<Rightarrow> byte list \<Rightarrow> byte list) \<Rightarrow> toe \<Rightarrow> toe option" where
  "lib_loop aes128_enc_single t = do {
     (command, t) \<leftarrow> blocking_read t;
     if command = of_char CHR ''a'' then do {
       t \<leftarrow> read_block 16 0 t;
       (_, t) \<leftarrow> blocking_read t;
       let t = t\<lparr>toe_data := aes128_enc_single toe_key (toe_data t)\<rparr>;
       Some (Serial_write (toe_data t) t)
     }
     else if command = of_char CHR ''t'' then Some (Serial_write (text_bytes ''T'' @ toe_crlf) t)
     else Some (Serial_write (text_bytes ''Incorrect Command!'' @ toe_crlf) t)
   }"

subsection \<open>Reading a block\<close>

lemma read_block_ok:
  "n \<le> length (rx t) \<Longrightarrow> i + n \<le> length (toe_data t) \<Longrightarrow>
   read_block n i t = Some (t\<lparr>rx := drop n (rx t),
     toe_data := take i (toe_data t) @ take n (rx t) @ drop (i + n) (toe_data t)\<rparr>)"
proof (induction n arbitrary: i t)
  case 0
  then show ?case by simp
next
  case (Suc n)
  then obtain b bs where rx: "rx t = b # bs" by (cases "rx t") auto
  have len: "i < length (toe_data t)" using Suc.prems by simp
  then show ?case
    using Suc.prems rx Suc.IH [of "t\<lparr>rx := bs, toe_data := (toe_data t)[i := b]\<rparr>" "Suc i"]
    by (simp add: take_Suc_conv_app_nth)
qed

lemma read_block_short: "length (rx t) < n \<Longrightarrow> read_block n i t = None"
proof (induction n arbitrary: i t)
  case (Suc n)
  then show ?case by (cases "rx t") auto
qed simp

subsection \<open>Serving requests\<close>

text \<open>The state of the first sketch after its set-up.\<close>

definition toe_ready :: "toe \<Rightarrow> bool" where
  "toe_ready t \<longleftrightarrow> toe_Nk t = 4 \<and> toe_Nr t = 10 \<and> (\<exists>r. toe_R t = [r, 0, 0, 0]) \<and>
     length (out t) = 16 \<and> length (toe_data t) = 16"

lemma slow_setup_ready:
  "toe_R t = [r, 0, 0, 0] \<Longrightarrow> length (out t) = 16 \<Longrightarrow> length (toe_data t) = 16 \<Longrightarrow>
   toe_ready (slow_setup t)"
  by (simp add: slow_setup_def toe_ready_def toe_key_def Serial_write_def)

lemma cipher_length: "length inp = 16 \<Longrightarrow> length o1 = 16 \<Longrightarrow> length (cipher Nr inp o1 w) = 16"
proof -
  assume len: "length inp = 16" "length o1 = 16"
  have "length (store_state st o1) = length o1" for st
    by (simp add: store_state_def Nb_def upt_loops)
  with len show ?thesis by (simp add: cipher_def Let_def)
qed

lemma toe_schedule:
  assumes "toe_ready t" "length w = 176"
  obtains w' r' where "key_expansion (toe_Nk t) (toe_Nr t) toe_key w (toe_R t) = (w', [r', 0, 0, 0])"
    "\<forall>j < 44. word_at w' j = key_word 4 toe_key j"
proof -
  from assms(1) obtain r where t: "toe_Nk t = 4" "toe_Nr t = 10" "toe_R t = [r, 0, 0, 0]"
    by (auto simp: toe_ready_def)
  have "\<exists>w' r'. key_expansion 4 10 toe_key w [r, 0, 0, 0] = (w', [r', 0, 0, 0]) \<and>
    length w' = length w \<and> (\<forall>j < Nb * (10 + 1). word_at w' j = key_word 4 toe_key j)"
    by (rule key_expansion_words) (simp_all add: Nb_def assms)
  with t that show thesis by (auto simp: Nb_def)
qed

lemma slow_loop_encrypt:
  assumes "toe_ready t" "length w = 176" "length pt = 16" "rx t = of_char CHR ''a'' # pt @ nl # rest"
  shows "\<exists>t' w'. slow_loop w t = Some t' \<and> toe_ready t' \<and> rx t' = rest \<and>
    tx t' = tx t @ cipher 10 pt (out t) w' \<and> (\<forall>j < 44. word_at w' j = key_word 4 toe_key j)"
proof -
  obtain w' r' where w': "key_expansion (toe_Nk t) (toe_Nr t) toe_key w (toe_R t) = (w', [r', 0, 0, 0])"
    "\<forall>j < 44. word_at w' j = key_word 4 toe_key j" by (rule toe_schedule [OF assms(1,2)])
  let ?t = "t\<lparr>toe_R := [r', 0, 0, 0], rx := pt @ nl # rest\<rparr>"
  have blk: "read_block 16 0 ?t = Some (?t\<lparr>rx := nl # rest, toe_data := pt\<rparr>)"
    using read_block_ok [of 16 ?t 0] assms(1,3) by (simp add: toe_ready_def)
  show ?thesis
    using assms w' blk
    by (auto simp: slow_loop_def toe_ready_def Serial_write_def cipher_length)
qed

subsection \<open>Properties\<close>

text \<open>C26: The target encrypts. When a ready target receives the encrypt command, sixteen bytes and
  a line end, it answers with exactly one block; the block is the AES-128 encryption of the
  sixteen bytes under the fixed key, in the sense that the inverse cipher with the schedule of
  that key gives them back. The target consumes exactly that input and is ready again.\<close>

theorem target_encrypts:
  assumes "toe_ready t" "length w = 176" "length pt = 16" "rx t = of_char CHR ''a'' # pt @ nl # rest"
  shows "\<exists>t' w' ct. slow_loop w t = Some t' \<and> toe_ready t' \<and> rx t' = rest \<and> tx t' = tx t @ ct \<and>
    length ct = 16 \<and> inv_cipher 10 ct (replicate 16 0) w' = pt \<and>
    (\<forall>j. j < 44 \<longrightarrow> word_at w' j = key_word 4 toe_key j)"
proof -
  have out: "length (out t) = 16" using assms(1) by (simp add: toe_ready_def)
  from slow_loop_encrypt [OF assms] obtain t' w' where
    "slow_loop w t = Some t'" "toe_ready t'" "rx t' = rest" "tx t' = tx t @ cipher 10 pt (out t) w'"
    "\<forall>j < 44. word_at w' j = key_word 4 toe_key j" by blast
  moreover have "inv_cipher 10 (cipher 10 pt (out t) w') (replicate 16 0) w' = pt"
    by (rule inv_cipher_cipher_lists) (simp_all add: assms(3) out)
  ultimately show ?thesis
    using cipher_length [OF assms(3) out, of 10 w'] by blast
qed

theorem target_encrypts_witness:
  "\<exists>t' w' ct. slow_loop (replicate 176 0) \<lparr>rx = of_char CHR ''a'' # replicate 16 5 @ 10 # [], tx = [],
      toe_Nk = 4, toe_Nr = 10, toe_R = [2, 0, 0, 0], out = replicate 16 0, toe_data = replicate 16 0\<rparr> =
      Some t' \<and> toe_ready t' \<and> rx t' = [] \<and> tx t' = [] @ ct \<and> length ct = 16 \<and>
    inv_cipher 10 ct (replicate 16 0) w' = replicate 16 5 \<and>
    (\<forall>j. j < 44 \<longrightarrow> word_at w' j = key_word 4 toe_key j)"
  using target_encrypts [of "\<lparr>rx = of_char CHR ''a'' # replicate 16 5 @ 10 # [], tx = [],
      toe_Nk = 4, toe_Nr = 10, toe_R = [2, 0, 0, 0], out = replicate 16 0, toe_data = replicate 16 0\<rparr>"
      "replicate 176 0" "replicate 16 5" 10 "[]"]
  by (simp add: toe_ready_def)

text \<open>The block encryption the two sketches share, with cleared work arrays.\<close>

definition aes128 :: "byte list \<Rightarrow> byte list \<Rightarrow> byte list" where
  "aes128 key block =
     cipher 10 block (replicate 16 0) (fst (key_expansion 4 10 key (replicate 176 0) [2, 0, 0, 0]))"

lemma store_state_fresh:
  assumes "length st = 16" "length o1 = 16" "length o2 = 16"
  shows "store_state st o1 = store_state st o2"
  using assms(1) by (rule list16E) (simp add: store_state_explicit assms(2,3))

lemma cipher_fresh:
  assumes "length inp = 16" "length o1 = 16" "length o2 = 16"
  shows "cipher Nr inp o1 w = cipher Nr inp o2 w"
  unfolding cipher_def Let_def
  by (rule store_state_fresh; (intro aes_lengths fold_cipher_round_length load_state_length)?)
    (simp_all add: assms Nb_def)

lemma key_expansion_fresh:
  assumes "length w = 176" "length v = 176"
  shows "fst (key_expansion 4 10 key w [r, 0, 0, 0]) = fst (key_expansion 4 10 key v [q, 0, 0, 0])"
proof -
  have *: "\<exists>u p. key_expansion 4 10 key x [y, 0, 0, 0] = (u, [p, 0, 0, 0]) \<and>
    length u = length x \<and> (\<forall>j < Nb * (10 + 1). word_at u j = key_word 4 key j)"
    if "length x = 176" for x y
    by (rule key_expansion_words) (simp_all add: Nb_def that)
  obtain w' p v' q' where
    "key_expansion 4 10 key w [r, 0, 0, 0] = (w', [p, 0, 0, 0])" "length w' = 176"
    "\<forall>j < 44. word_at w' j = key_word 4 key j"
    "key_expansion 4 10 key v [q, 0, 0, 0] = (v', [q', 0, 0, 0])" "length v' = 176"
    "\<forall>j < 44. word_at v' j = key_word 4 key j"
    using * [OF assms(1), of r] * [OF assms(2), of q] assms by (auto simp: Nb_def)
  then show ?thesis using words_determine [of w' 44 v'] by simp
qed

lemma aes128_length: "length block = 16 \<Longrightarrow> length (aes128 key block) = 16"
  by (simp add: aes128_def cipher_length)

lemma slow_loop_encrypt_eq:
  assumes "toe_ready t" "length w = 176" "length pt = 16" "rx t = of_char CHR ''a'' # pt @ nl # rest"
  shows "\<exists>t'. slow_loop w t = Some t' \<and> toe_ready t' \<and> rx t' = rest \<and> tx t' = tx t @ aes128 toe_key pt"
proof -
  from assms(1) obtain r where t: "toe_Nk t = 4" "toe_Nr t = 10" "toe_R t = [r, 0, 0, 0]" "length (out t) = 16"
    by (auto simp: toe_ready_def)
  obtain w' r' where w': "key_expansion 4 10 toe_key w [r, 0, 0, 0] = (w', [r', 0, 0, 0])"
    using toe_schedule [OF assms(1,2)] t by metis
  let ?t = "t\<lparr>toe_R := [r', 0, 0, 0], rx := pt @ nl # rest\<rparr>"
  have blk: "read_block 16 0 ?t = Some (?t\<lparr>rx := nl # rest, toe_data := pt\<rparr>)"
    using read_block_ok [of 16 ?t 0] assms(1,3) by (simp add: toe_ready_def)
  have "w' = fst (key_expansion 4 10 toe_key (replicate 176 0) [2, 0, 0, 0])"
    using key_expansion_fresh [of w "replicate 176 0" toe_key r 2] assms(2) w' by simp
  then have "cipher 10 pt (out t) w' = aes128 toe_key pt"
    unfolding aes128_def using cipher_fresh [OF assms(3) t(4)] by simp
  then show ?thesis
    using assms w' t blk
    by (auto simp: slow_loop_def toe_ready_def Serial_write_def cipher_length aes128_length)
qed

lemma short_block_waits:
  fixes f :: "toe \<Rightarrow> byte \<times> toe \<Rightarrow> toe option"
  assumes "length cs \<le> 16" "length (toe_data u) = 16"
  shows "Option.bind (read_block 16 0 (u\<lparr>rx := cs\<rparr>)) (\<lambda>t. Option.bind (blocking_read t) (f t)) = None"
  using assms read_block_ok [of 16 "u\<lparr>rx := cs\<rparr>" 0] read_block_short [of "u\<lparr>rx := cs\<rparr>" 16 0]
  by (cases "length cs = 16") auto



end
