(* ===== verification/Aes_Vectors.thy ===== *)
theory Aes_Vectors
  imports Aes
begin

text \<open>
  The AES-128 example of FIPS-197, appendix C.1, run through the model of \<open>aes.c\<close>: the
  expanded key is checked word by word against the recurrence of the key schedule, and the
  cipher round by round against the intermediate states.
\<close>

unbundle bit_operations_syntax

subsection \<open>The example\<close>

definition fips_key :: "byte list" where
  "fips_key = [0x00, 0x01, 0x02, 0x03, 0x04, 0x05, 0x06, 0x07, 0x08, 0x09, 0x0a, 0x0b, 0x0c, 0x0d, 0x0e, 0x0f]"

definition fips_plaintext :: "byte list" where
  "fips_plaintext = [0x00, 0x11, 0x22, 0x33, 0x44, 0x55, 0x66, 0x77, 0x88, 0x99, 0xaa, 0xbb, 0xcc, 0xdd, 0xee, 0xff]"

definition fips_ciphertext :: "byte list" where
  "fips_ciphertext = [0x69, 0xc4, 0xe0, 0xd8, 0x6a, 0x7b, 0x04, 0x30, 0xd8, 0xcd, 0xb7, 0x80, 0x70, 0xb4, 0xc5, 0x5a]"

definition fips_words :: "byte list list" where
  "fips_words =
  [[0x00, 0x01, 0x02, 0x03], [0x04, 0x05, 0x06, 0x07], [0x08, 0x09, 0x0a, 0x0b], [0x0c, 0x0d, 0x0e, 0x0f],
   [0xd6, 0xaa, 0x74, 0xfd], [0xd2, 0xaf, 0x72, 0xfa], [0xda, 0xa6, 0x78, 0xf1], [0xd6, 0xab, 0x76, 0xfe],
   [0xb6, 0x92, 0xcf, 0x0b], [0x64, 0x3d, 0xbd, 0xf1], [0xbe, 0x9b, 0xc5, 0x00], [0x68, 0x30, 0xb3, 0xfe],
   [0xb6, 0xff, 0x74, 0x4e], [0xd2, 0xc2, 0xc9, 0xbf], [0x6c, 0x59, 0x0c, 0xbf], [0x04, 0x69, 0xbf, 0x41],
   [0x47, 0xf7, 0xf7, 0xbc], [0x95, 0x35, 0x3e, 0x03], [0xf9, 0x6c, 0x32, 0xbc], [0xfd, 0x05, 0x8d, 0xfd],
   [0x3c, 0xaa, 0xa3, 0xe8], [0xa9, 0x9f, 0x9d, 0xeb], [0x50, 0xf3, 0xaf, 0x57], [0xad, 0xf6, 0x22, 0xaa],
   [0x5e, 0x39, 0x0f, 0x7d], [0xf7, 0xa6, 0x92, 0x96], [0xa7, 0x55, 0x3d, 0xc1], [0x0a, 0xa3, 0x1f, 0x6b],
   [0x14, 0xf9, 0x70, 0x1a], [0xe3, 0x5f, 0xe2, 0x8c], [0x44, 0x0a, 0xdf, 0x4d], [0x4e, 0xa9, 0xc0, 0x26],
   [0x47, 0x43, 0x87, 0x35], [0xa4, 0x1c, 0x65, 0xb9], [0xe0, 0x16, 0xba, 0xf4], [0xae, 0xbf, 0x7a, 0xd2],
   [0x54, 0x99, 0x32, 0xd1], [0xf0, 0x85, 0x57, 0x68], [0x10, 0x93, 0xed, 0x9c], [0xbe, 0x2c, 0x97, 0x4e],
   [0x13, 0x11, 0x1d, 0x7f], [0xe3, 0x94, 0x4a, 0x17], [0xf3, 0x07, 0xa7, 0x8b], [0x4d, 0x2b, 0x30, 0xc5]]"

definition fips_states :: "byte list list" where
  "fips_states =
  [[0x00, 0x40, 0x80, 0xc0, 0x10, 0x50, 0x90, 0xd0, 0x20, 0x60, 0xa0, 0xe0, 0x30, 0x70, 0xb0, 0xf0],
   [0x89, 0x85, 0x2d, 0xcb, 0xd8, 0x5a, 0x18, 0x12, 0x10, 0xce, 0x43, 0x8f, 0xe8, 0x68, 0xd8, 0xe4],
   [0x49, 0x55, 0xda, 0x1f, 0x15, 0xe5, 0xca, 0x0a, 0x59, 0xd7, 0x94, 0x63, 0x8f, 0xa0, 0xfa, 0xf7],
   [0xfa, 0x25, 0x40, 0x57, 0x63, 0xb3, 0x66, 0x24, 0x6a, 0x39, 0x8a, 0x4d, 0x28, 0xc9, 0x31, 0x17],
   [0x24, 0x69, 0x6e, 0x88, 0x72, 0x66, 0xd2, 0x42, 0x40, 0xb3, 0x75, 0x5b, 0x23, 0xfa, 0x32, 0x6c],
   [0xc8, 0x9b, 0x25, 0xb0, 0x16, 0x7a, 0x02, 0x26, 0x77, 0xc9, 0x79, 0x19, 0xbc, 0x3b, 0x92, 0x96],
   [0xc6, 0xf7, 0xcc, 0x84, 0x2f, 0x5e, 0x79, 0xf9, 0xe1, 0xed, 0x39, 0xcf, 0x09, 0xc3, 0x5d, 0x5d],
   [0xd1, 0x79, 0xb4, 0xd6, 0x87, 0xc4, 0x55, 0x6f, 0x6c, 0x30, 0x94, 0xf4, 0x0f, 0x0a, 0xad, 0x1f],
   [0xfd, 0x05, 0x35, 0xf1, 0xe3, 0xe5, 0x47, 0xfe, 0xba, 0xd0, 0x96, 0x37, 0xd2, 0xd7, 0x4e, 0xf1],
   [0xbd, 0xf2, 0x0b, 0x8b, 0x6e, 0xb5, 0x61, 0x10, 0x7c, 0x77, 0x21, 0xb6, 0x3d, 0x9e, 0x6e, 0x89]]"

subsection \<open>Key expansion\<close>

lemma upt4_44: "[4..<44] = [4, 5, 6, 7, 8, 9, 10, 11, 12, 13, 14, 15, 16, 17, 18, 19, 20, 21, 22, 23, 24, 25, 26,
  27, 28, 29, 30, 31, 32, 33, 34, 35, 36, 37, 38, 39, 40, 41, 42, 43]"
  by (simp add: upt_rec)

definition next_word :: "nat \<Rightarrow> byte list \<Rightarrow> byte list \<Rightarrow> byte list" where
  "next_word i a t = coef_add a
     (if i mod 4 = 0 then coef_add (S_word (rotate1 t)) [round_constant (i div 4), 0, 0, 0] else t)"

lemma funpow_numeral: "(f ^^ numeral k) x = f ((f ^^ pred_numeral k) x)"
  by (simp add: numeral_eq_Suc)

lemma round_constants:
  "map round_constant [1, 2, 3, 4, 5, 6, 7, 8, 9, 10] = [1, 2, 4, 8, 16, 32, 64, 128, 27, 54]"
  by (simp add: round_constant_def funpow_numeral xtime_def)

lemma fips_words_chain:
  "list_all (\<lambda>i. fips_words ! i = next_word i (fips_words ! (i - 4)) (fips_words ! (i - 1))) [4..<44]"
  using round_constants
  unfolding upt4_44 list.pred_inject 
  by (intro conjI TrueI; simp add: next_word_def fips_words_def S_word_def s_box_def coef_add_def)

lemma key_word_chain:
  assumes "\<forall>i < 4. ws ! i = word_at key i"
    "list_all (\<lambda>i. ws ! i = next_word i (ws ! (i - 4)) (ws ! (i - 1))) [4..<n]" "i < n"
  shows "key_word 4 key i = ws ! i"
  using assms(3)
proof (induction i rule: less_induct)
  case (less i)
  show ?case
  proof (cases "i < 4")
    case True
    then show ?thesis using assms(1) by (subst key_word.simps) simp
  next
    case False
    then have "ws ! i = next_word i (ws ! (i - 4)) (ws ! (i - 1))"
      using assms(2) less.prems by (simp add: list_all_iff)
    moreover have "key_word 4 key (i - 1) = ws ! (i - 1)" "key_word 4 key (i - 4) = ws ! (i - 4)"
      using less.IH less.prems False by auto
    ultimately show ?thesis
      using False by (subst key_word.simps) (simp add: next_word_def Let_def)
  qed
qed

lemma concat_words_nth:
  "\<forall>ws' \<in> set ws. length ws' = 4 \<Longrightarrow> i < length ws \<Longrightarrow> word_at (concat ws) i = ws ! i"
proof (induction ws arbitrary: i)
  case (Cons a ws)
  then obtain a0 a1 a2 a3 where a: "a = [a0, a1, a2, a3]" by (auto simp: numeral_eq_Suc length_Suc_conv)
  show ?case
  proof (cases i)
    case 0
    then show ?thesis by (simp add: a word_at_def)
  next
    case (Suc j)
    then show ?thesis
      using Cons.IH [of j] Cons.prems by (simp add: a word_at_def add.commute [of _ "3 :: nat"])
  qed
qed simp

lemma fips_expanded:
  assumes "length w = 176"
  shows "\<exists>R. key_expansion 4 10 fips_key w [r, 0, 0, 0] = (concat fips_words, R)"
proof -
  have "\<exists>w' r'. key_expansion 4 10 fips_key w [r, 0, 0, 0] = (w', [r', 0, 0, 0]) \<and>
    length w' = length w \<and> (\<forall>j < Nb * (10 + 1). word_at w' j = key_word 4 fips_key j)"
    by (rule key_expansion_words) (simp_all add: Nb_def assms)
  then obtain w' r' where w': "key_expansion 4 10 fips_key w [r, 0, 0, 0] = (w', [r', 0, 0, 0])"
    "length w' = 176" "\<forall>j < 44. word_at w' j = key_word 4 fips_key j" by (auto simp: Nb_def assms)
  have "\<forall>i < 4. fips_words ! i = word_at fips_key i"
    by (auto simp: less_Suc_eq numeral_eq_Suc fips_words_def fips_key_def word_at_def)
  note kw = key_word_chain [OF this fips_words_chain]
  have "\<forall>x \<in> set fips_words. length x = 4" "length fips_words = 44" by (simp_all add: fips_words_def)
  note cw = concat_words_nth [OF this(1)] this(2)
  have "w' = concat fips_words"
  proof (rule words_determine [where n = 44])
    show "length (concat fips_words) = 4 * 44" by (simp add: fips_words_def)
  qed (use w' kw cw in auto)
  then show ?thesis using w' by simp
qed

subsection \<open>Encryption\<close>

lemma fips_states_chain:
  "list_all (\<lambda>r. cipher_round (concat fips_words) r (fips_states ! (r - 1)) = fips_states ! r) [1, 2, 3, 4, 5, 6, 7, 8, 9]"
  unfolding list.pred_inject
  by (intro conjI TrueI; simp add: fips_states_def cipher_round_def sub_bytes_map nibble_lookup_nth s_box_def
   shift_rows_explicit mix_columns_def mix_with_explicit coef_mult_def add_round_key_explicit fips_words_def gmult_eval)

lemma fold_states:
  "list_all (\<lambda>r. f r (S ! (r - 1)) = S ! r) [1..<n] \<Longrightarrow> 0 < n \<Longrightarrow> fold f [1..<n] (S ! 0) = S ! (n - 1)"
proof (induction n)
  case (Suc n)
  then show ?case by (cases n) auto
qed simp

lemma fips_encrypt:
  assumes "length out = 16"
  shows "cipher 10 fips_plaintext out (concat fips_words) = fips_ciphertext"
proof -
  have upt: "[1..<10] = [1, 2, 3, 4, 5, 6, 7, 8, 9 :: nat]" by (simp add: upt_rec)
  have start: "add_round_key (load_state fips_plaintext (replicate (4 * Nb) 0)) (concat fips_words) 0 = fips_states ! 0"
    by (simp add: fips_plaintext_def load_state_explicit Nb_def add_round_key_explicit fips_words_def fips_states_def)
  have "fold (cipher_round (concat fips_words)) [1..<10] (fips_states ! 0) = fips_states ! 9"
    using fold_states [of "cipher_round (concat fips_words)" fips_states 10] fips_states_chain unfolding upt by simp
  then show ?thesis
    using assms unfolding cipher_def Let_def start
    by (simp add: fips_states_def sub_bytes_map nibble_lookup_nth s_box_def shift_rows_explicit
      add_round_key_explicit fips_words_def store_state_explicit fips_ciphertext_def)
qed

subsection \<open>Properties\<close>

text \<open>C14: Known answer. With the AES-128 key of FIPS-197, appendix C.1, the key expansion of
  \<open>aes.c\<close> followed by its cipher maps the plaintext of the appendix to the ciphertext of
  the appendix, whatever the uninitialised buffers contain.\<close>

theorem cipher_known_answer:
  assumes "length w = 176" "length out = 16"
  shows "cipher 10 fips_plaintext out (fst (key_expansion 4 10 fips_key w [r, 0, 0, 0])) = fips_ciphertext"
  using fips_expanded [OF assms(1), of r] fips_encrypt [OF assms(2)] by auto

theorem cipher_known_answer_witness:
  "cipher 10 fips_plaintext (replicate 16 0)
     (fst (key_expansion 4 10 fips_key (replicate 176 0) [2, 0, 0, 0])) = fips_ciphertext"
  by (rule cipher_known_answer) simp_all

end
