(* ===== verification/TraceFile.thy ===== *)
theory TraceFile
  imports Prelude
begin

text \<open>
  The trace set files of the acquisition script (\<open>Trace.py\<close>): a header of tagged fields, then
  the traces in a flat block. A binary file is its contents and the position of the handle.
  NumPy's conversion of the samples is a parameter. Progress messages are not modelled.
\<close>

unbundle bit_operations_syntax

subsection \<open>Files\<close>

record binfile =
  content :: "byte list"
  fpos :: nat

definition f_read :: "nat \<Rightarrow> binfile \<Rightarrow> byte list \<times> binfile" where
  "f_read n f = (let bs = take n (drop (fpos f) (content f)) in (bs, f\<lparr>fpos := fpos f + length bs\<rparr>))"

text \<open>Writing overwrites from the position on; a gap after the end is filled with zeros.\<close>

definition f_write :: "byte list \<Rightarrow> binfile \<Rightarrow> binfile" where
  "f_write bs f =
    (let c = content f @ replicate (fpos f - length (content f)) 0
     in \<lparr>content = take (fpos f) c @ bs @ drop (fpos f + length bs) c, fpos = fpos f + length bs\<rparr>)"

definition f_seek :: "nat \<Rightarrow> binfile \<Rightarrow> binfile" where
  "f_seek n f = f\<lparr>fpos := n\<rparr>"

definition f_seek_end :: "binfile \<Rightarrow> binfile" where
  "f_seek_end f = f\<lparr>fpos := length (content f)\<rparr>"

subsection \<open>Trace sets\<close>

datatype trace_error = TypeError | StructError | IncorrectCoding

record 's trace =
  title :: "byte list"
  data :: "nat list"
  samples :: 's

record traceset =
  handle :: "binfile option"
  traceBlockOffset :: "nat option"
  numberOfTraces :: "nat option"
  numberOfSamplesPerTrace :: "nat option"
  sampleCoding :: "nat option"
  sampleCodingByteSize :: "nat option"
  titleSpace :: nat
  dataSpace :: nat
  fileName :: "string option"
  xlabel :: nat
  ylabel :: nat
  sampleSpace :: "nat option"
  traceSpace :: "nat option"
  traceBlockSpace :: nat

definition NumberOfTraces :: nat where "NumberOfTraces = 0x41"
definition NumerOfSamplesPerTrace :: nat where "NumerOfSamplesPerTrace = 0x42"
definition SampleCoding :: nat where "SampleCoding = 0x43"
definition DataSpace :: nat where "DataSpace = 0x44"
definition TitleSpace :: nat where "TitleSpace = 0x45"
definition Xlabel :: nat where "Xlabel = 0x49"
definition Ylabel :: nat where "Ylabel = 0x4A"
definition Xscale :: nat where "Xscale = 0x4B"
definition Yscale :: nat where "Yscale = 0x4C"
definition TraceBlock :: nat where "TraceBlock = 0x5F"

definition CodingByte :: nat where "CodingByte = 0x01"
definition CodingShort :: nat where "CodingShort = 0x02"
definition CodingInt :: nat where "CodingInt = 0x04"
definition CodingFloat :: nat where "CodingFloat = 0x14"

lemmas tag_defs = NumberOfTraces_def NumerOfSamplesPerTrace_def SampleCoding_def DataSpace_def TitleSpace_def
  Xlabel_def Ylabel_def Xscale_def Yscale_def TraceBlock_def

lemmas coding_defs = CodingByte_def CodingShort_def CodingInt_def CodingFloat_def

definition TraceSet_init :: traceset where
  "TraceSet_init = \<lparr>handle = None, traceBlockOffset = None, numberOfTraces = None,
     numberOfSamplesPerTrace = None, sampleCoding = None, sampleCodingByteSize = None, titleSpace = 0,
     dataSpace = 0, fileName = None, xlabel = 115, ylabel = 86, sampleSpace = None, traceSpace = None,
     traceBlockSpace = 0\<rparr>"

subsection \<open>Fields of the header\<close>

text \<open>Little endian, as \<open>struct\<close> packs on the hosts the script runs on.\<close>

primrec le_bytes :: "nat \<Rightarrow> nat \<Rightarrow> byte list" where
  "le_bytes 0 v = []"
| "le_bytes (Suc n) v = of_nat (v mod 256) # le_bytes n (v div 256)"

primrec le_value :: "byte list \<Rightarrow> nat" where
  "le_value [] = 0"
| "le_value (b # bs) = unat b + 256 * le_value bs"

definition f_ord :: "binfile \<Rightarrow> trace_error + nat \<times> binfile" where
  "f_ord f = (case f_read 1 f of ([b], f) \<Rightarrow> Inr (unat b, f) | _ \<Rightarrow> Inl TypeError)"

definition unpack :: "nat \<Rightarrow> binfile \<Rightarrow> trace_error + nat \<times> binfile" where
  "unpack n f = (case f_read n f of (bs, f) \<Rightarrow> if length bs = n then Inr (le_value bs, f) else Inl StructError)"

definition readUINT8 :: "binfile \<Rightarrow> trace_error + nat \<times> binfile" where "readUINT8 = unpack 1"
definition readUINT16 :: "binfile \<Rightarrow> trace_error + nat \<times> binfile" where "readUINT16 = unpack 2"
definition readUINT32 :: "binfile \<Rightarrow> trace_error + nat \<times> binfile" where "readUINT32 = unpack 4"

definition writeUINT8 :: "nat \<Rightarrow> binfile \<Rightarrow> binfile" where
  "writeUINT8 val = f_write (le_bytes 1 (val mod 2 ^ 8))"

definition writeUINT16 :: "nat \<Rightarrow> binfile \<Rightarrow> binfile" where
  "writeUINT16 val = f_write (le_bytes 2 (val mod 2 ^ 16))"

definition writeUINT32 :: "nat \<Rightarrow> binfile \<Rightarrow> binfile" where
  "writeUINT32 val = f_write (le_bytes 4 (val mod 2 ^ 32))"

text \<open>A float is its IEEE single precision bit pattern.\<close>

definition writeFLOAT :: "u32 \<Rightarrow> binfile \<Rightarrow> binfile" where
  "writeFLOAT val = f_write (le_bytes 4 (unat val))"

definition on_file :: "(binfile \<Rightarrow> binfile) \<Rightarrow> traceset \<Rightarrow> traceset" where
  "on_file g t = t\<lparr>handle := map_option g (handle t)\<rparr>"

definition writeTitleSpace :: "nat \<Rightarrow> traceset \<Rightarrow> traceset" where
  "writeTitleSpace val t =
    (on_file (writeUINT8 val) (on_file (writeUINT8 1) (on_file (writeUINT8 TitleSpace) t)))\<lparr>titleSpace := val\<rparr>"

definition writeNumberOfTraces :: "nat \<Rightarrow> traceset \<Rightarrow> traceset" where
  "writeNumberOfTraces val t =
    (on_file (writeUINT32 val) (on_file (writeUINT8 4) (on_file (writeUINT8 NumberOfTraces) t)))\<lparr>numberOfTraces := Some val\<rparr>"

definition writeDataSpace :: "nat \<Rightarrow> traceset \<Rightarrow> traceset" where
  "writeDataSpace val t =
    (on_file (writeUINT16 val) (on_file (writeUINT8 2) (on_file (writeUINT8 DataSpace) t)))\<lparr>dataSpace := val\<rparr>"

definition writeNumerOfSamplesPerTrace :: "nat \<Rightarrow> traceset \<Rightarrow> traceset" where
  "writeNumerOfSamplesPerTrace val t =
    (on_file (writeUINT32 val) (on_file (writeUINT8 4) (on_file (writeUINT8 NumerOfSamplesPerTrace) t)))
      \<lparr>numberOfSamplesPerTrace := Some val\<rparr>"

definition writeSampleCoding :: "nat \<Rightarrow> traceset \<Rightarrow> traceset" where
  "writeSampleCoding val t =
    (on_file (writeUINT8 val) (on_file (writeUINT8 1) (on_file (writeUINT8 SampleCoding) t)))\<lparr>sampleCoding := Some val\<rparr>"

definition writeLabelsXY :: "traceset \<Rightarrow> traceset" where
  "writeLabelsXY t =
    (let t = on_file (writeUINT8 Xlabel) t; t = on_file (writeUINT8 1) t; t = on_file (writeUINT8 (xlabel t)) t;
         t = on_file (writeUINT8 Ylabel) t; t = on_file (writeUINT8 1) t
     in on_file (writeUINT8 (ylabel t)) t)"

definition writeScalesXY :: "u32 \<Rightarrow> u32 \<Rightarrow> traceset \<Rightarrow> traceset" where
  "writeScalesXY x y t =
    (let t = on_file (writeUINT8 Xscale) t; t = on_file (writeUINT8 4) t; t = on_file (writeFLOAT x) t;
         t = on_file (writeUINT8 Yscale) t; t = on_file (writeUINT8 4) t
     in on_file (writeFLOAT y) t)"

definition writeTraceBlock :: "traceset \<Rightarrow> traceset" where
  "writeTraceBlock t = on_file (writeUINT8 0) (on_file (writeUINT8 TraceBlock) t)"

definition codingByteSize :: "nat \<Rightarrow> nat" where
  "codingByteSize c = (if c = CodingFloat then 4 else c)"

subsection \<open>Reading a trace set\<close>

text \<open>The length field: one byte, or the number of bytes that hold it.\<close>

primrec read_length :: "nat \<Rightarrow> nat \<Rightarrow> nat \<Rightarrow> binfile \<Rightarrow> trace_error + nat \<times> binfile" where
  "read_length 0 i acc f = Inr (acc, f)"
| "read_length (Suc n) i acc f = (case f_ord f of Inl e \<Rightarrow> Inl e
     | Inr (b, f) \<Rightarrow> read_length n (Suc i) (acc + push_bit (i * 8) b) f)"

definition read_header :: "binfile \<Rightarrow> trace_error + (nat \<times> nat \<times> nat) \<times> binfile" where
  "read_header f = (case f_ord f of Inl e \<Rightarrow> Inl e | Inr (tag, f) \<Rightarrow>
     (case f_ord f of Inl e \<Rightarrow> Inl e | Inr (len, f) \<Rightarrow>
        if len AND 0x80 \<noteq> 0
        then (case read_length (len AND 0x7F) 0 0 f of Inl e \<Rightarrow> Inl e
              | Inr (l, f) \<Rightarrow> Inr ((tag, l, len AND 0x7F), f))
        else Inr ((tag, len, 0), f)))"

datatype 'a next_tag = Go 'a | Stop 'a

definition open_tag :: "nat \<Rightarrow> nat \<Rightarrow> binfile \<Rightarrow> traceset \<Rightarrow> trace_error + (traceset \<times> binfile) next_tag" where
  "open_tag tag len f t =
    (if tag = TraceBlock
     then (case (numberOfSamplesPerTrace t, sampleCodingByteSize t, numberOfTraces t) of
       (Some ns, Some bs, Some nt) \<Rightarrow>
         (let ss = ns * bs; sp = ss + dataSpace t + titleSpace t; tb = nt * sp
          in Inr (Go (t\<lparr>sampleSpace := Some ss, traceSpace := Some sp, traceBlockSpace := tb,
                        traceBlockOffset := Some (fpos f)\<rparr>, f_seek (fpos f + tb) f)))
     | _ \<Rightarrow> Inl TypeError)
     else if tag = TitleSpace
     then (case readUINT8 f of Inl e \<Rightarrow> Inl e | Inr (v, f) \<Rightarrow> Inr (Go (t\<lparr>titleSpace := v\<rparr>, f)))
     else if tag = NumberOfTraces
     then (case readUINT32 f of Inl e \<Rightarrow> Inl e | Inr (v, f) \<Rightarrow> Inr (Go (t\<lparr>numberOfTraces := Some v\<rparr>, f)))
     else if tag = DataSpace
     then (case readUINT16 f of Inl e \<Rightarrow> Inl e | Inr (v, f) \<Rightarrow> Inr (Go (t\<lparr>dataSpace := v\<rparr>, f)))
     else if tag = NumerOfSamplesPerTrace
     then (case readUINT32 f of Inl e \<Rightarrow> Inl e | Inr (v, f) \<Rightarrow> Inr (Go (t\<lparr>numberOfSamplesPerTrace := Some v\<rparr>, f)))
     else if tag = SampleCoding
     then (case readUINT8 f of Inl e \<Rightarrow> Inl e | Inr (v, f) \<Rightarrow>
             Inr (Go (t\<lparr>sampleCoding := Some v, sampleCodingByteSize := Some (codingByteSize v)\<rparr>, f)))
     else if tag = 0 \<or> len = 0 then Inr (Stop (t, f))
     else Inr (Go (t, snd (f_read len f))))"

text \<open>Every turn of the loop moves the offset on; it stays below the size of the file.\<close>

function open_loop :: "nat \<Rightarrow> nat \<Rightarrow> binfile \<Rightarrow> traceset \<Rightarrow> trace_error + traceset \<times> binfile" where
  "open_loop fileSize offset f t =
    (if offset + traceBlockSpace t < fileSize
     then (case read_header f of Inl e \<Rightarrow> Inl e | Inr ((tag, len, addLen), f) \<Rightarrow>
       (case open_tag tag len f t of Inl e \<Rightarrow> Inl e
        | Inr (Stop r) \<Rightarrow> Inr r
        | Inr (Go (t, f)) \<Rightarrow> open_loop fileSize (offset + 2 + addLen + len) f t))
     else Inr (t, f))"
  by auto
termination by (relation "measure (\<lambda>(fileSize, offset, _). fileSize - offset)") auto

declare open_loop.simps [simp del]

definition TraceSet_open :: "byte list \<Rightarrow> traceset \<Rightarrow> trace_error + traceset" where
  "TraceSet_open bytes t = (case open_loop (length bytes) 0 \<lparr>content = bytes, fpos = 0\<rparr> t of
     Inl e \<Rightarrow> Inl e | Inr (t, f) \<Rightarrow> Inr (t\<lparr>handle := Some f\<rparr>))"

function findtag_loop :: "nat \<Rightarrow> nat \<Rightarrow> nat \<Rightarrow> nat \<Rightarrow> binfile \<Rightarrow> trace_error + bool \<times> binfile" where
  "findtag_loop searchTag blockSpace fileSize offset f =
    (if offset + blockSpace < fileSize
     then (case read_header f of Inl e \<Rightarrow> Inl e | Inr ((tag, len, addLen), f) \<Rightarrow>
       if tag = searchTag then Inr (True, f_seek offset f)
       else findtag_loop searchTag blockSpace fileSize (offset + 2 + addLen + len) (snd (f_read len f)))
     else Inr (False, f))"
  by auto
termination by (relation "measure (\<lambda>(_, _, fileSize, offset, _). fileSize - offset)") auto

declare findtag_loop.simps [simp del]

definition findtag :: "nat \<Rightarrow> traceset \<Rightarrow> trace_error + bool \<times> traceset" where
  "findtag searchTag t = (case handle t of None \<Rightarrow> Inr (False, t)
     | Some f \<Rightarrow> (case findtag_loop searchTag (traceBlockSpace t) (length (content f)) 0 (f_seek 0 (f_seek_end f)) of
         Inl e \<Rightarrow> Inl e | Inr (r, f) \<Rightarrow> Inr (r, t\<lparr>handle := Some f\<rparr>)))"

definition updateNumberOfTraces :: "nat \<Rightarrow> traceset \<Rightarrow> trace_error + traceset" where
  "updateNumberOfTraces val t = (case findtag NumberOfTraces t of Inl e \<Rightarrow> Inl e
     | Inr (_, t) \<Rightarrow> Inr (writeNumberOfTraces val t))"

text \<open>NumPy: the element types, and how an array is written to and read from a file.\<close>

datatype dtype = Int8 | Int16 | Int32 | Float32

record 's numpy =
  tofile :: "dtype \<Rightarrow> 's \<Rightarrow> byte list"
  fromfile :: "dtype \<Rightarrow> nat \<Rightarrow> byte list \<Rightarrow> 's \<times> nat"

definition dtype_of :: "nat \<Rightarrow> dtype option" where
  "dtype_of c = (if c = CodingByte then Some Int8 else if c = CodingShort then Some Int16
     else if c = CodingInt then Some Int32 else if c = CodingFloat then Some Float32 else None)"

definition getTrace :: "'s numpy \<Rightarrow> nat \<Rightarrow> traceset \<Rightarrow> trace_error + ('s trace option \<times> traceset)" where
  "getTrace np traceIndex t = (case handle t of None \<Rightarrow> Inr (None, t) | Some f \<Rightarrow>
     (case (traceBlockOffset t, traceSpace t, sampleCoding t, numberOfSamplesPerTrace t) of
       (Some off, Some sp, Some sc, Some ns) \<Rightarrow>
         (let f = f_seek (off + traceIndex * sp) f;
              (ttl, f) = f_read (titleSpace t) f;
              (d, f) = f_read (dataSpace t) f
          in case dtype_of sc of None \<Rightarrow> Inl IncorrectCoding
             | Some fmt \<Rightarrow> (case fromfile np fmt ns (drop (fpos f) (content f)) of (smp, n) \<Rightarrow>
                 Inr (Some \<lparr>title = ttl, data = map unat d, samples = smp\<rparr>,
                      t\<lparr>handle := Some (f_seek (fpos f + n) f)\<rparr>)))
     | _ \<Rightarrow> Inl TypeError))"

primrec iter_from :: "'s numpy \<Rightarrow> nat \<Rightarrow> nat \<Rightarrow> traceset \<Rightarrow> trace_error + 's trace option list" where
  "iter_from np 0 i t = Inr []"
| "iter_from np (Suc n) i t = (case getTrace np i t of Inl e \<Rightarrow> Inl e
     | Inr (tr, t) \<Rightarrow> (case iter_from np n (Suc i) t of Inl e \<Rightarrow> Inl e | Inr trs \<Rightarrow> Inr (tr # trs)))"

definition TraceSet_iter :: "'s numpy \<Rightarrow> traceset \<Rightarrow> trace_error + 's trace option list" where
  "TraceSet_iter np t = (case numberOfTraces t of None \<Rightarrow> Inl TypeError | Some n \<Rightarrow> iter_from np n 0 t)"

subsection \<open>Writing a trace set\<close>

definition digit :: "nat \<Rightarrow> char" where
  "digit d = char_of (48 + d)"

fun decimal :: "nat \<Rightarrow> string" where
  "decimal n = (if n < 10 then [digit n] else decimal (n div 10) @ [digit (n mod 10)])"

declare decimal.simps [simp del]

definition numbered_name :: "string \<Rightarrow> nat \<Rightarrow> string" where
  "numbered_name name n =
    take (length name - 4) name @ ''('' @ decimal n @ '')'' @ drop (length name - 4) name"

text \<open>The loop looks for a name no file has.\<close>

partial_function (option) fresh_name :: "(string \<Rightarrow> bool) \<Rightarrow> string \<Rightarrow> nat \<Rightarrow> string \<Rightarrow> string option" where
  "fresh_name isfile name counter temp =
     (if isfile temp then fresh_name isfile name (Suc counter) (numbered_name name counter) else Some temp)"

definition TraceSet_new ::
  "(string \<Rightarrow> bool) \<Rightarrow> string \<Rightarrow> nat \<Rightarrow> nat \<Rightarrow> nat \<Rightarrow> nat \<Rightarrow> u32 \<times> u32 \<Rightarrow> traceset \<Rightarrow> traceset option" where
  "TraceSet_new isfile name ttlSpace coding datSpace numberOfSamples XYscales t = do {
     temp \<leftarrow> fresh_name isfile name 1 name;
     let t = t\<lparr>fileName := Some temp, handle := Some \<lparr>content = [], fpos = 0\<rparr>\<rparr>;
     let t = writeTitleSpace ttlSpace t;
     let t = writeSampleCoding coding t;
     let t = t\<lparr>sampleCodingByteSize := Some (codingByteSize coding)\<rparr>;
     let t = writeDataSpace datSpace t;
     let t = writeNumerOfSamplesPerTrace numberOfSamples t;
     let t = writeNumberOfTraces 0 t;
     let ss = numberOfSamples * codingByteSize coding;
     let sp = ss + datSpace + ttlSpace;
     let t = t\<lparr>sampleSpace := Some ss, traceSpace := Some sp, traceBlockSpace := 0 * sp\<rparr>;
     let t = writeLabelsXY t;
     let t = writeScalesXY (fst XYscales) (snd XYscales) t;
     let t = writeTraceBlock t;
     Some (t\<lparr>traceBlockOffset := map_option fpos (handle t)\<rparr>)
   }"

definition write_samples :: "'s numpy \<Rightarrow> 's \<Rightarrow> traceset \<Rightarrow> traceset" where
  "write_samples np smp t = (case Option.bind (sampleCoding t) dtype_of of None \<Rightarrow> t
     | Some fmt \<Rightarrow> on_file (f_write (tofile np fmt smp)) t)"

definition addTrace :: "'s numpy \<Rightarrow> 's trace \<Rightarrow> traceset \<Rightarrow> trace_error + traceset" where
  "addTrace np tr t = (case handle t of None \<Rightarrow> Inr t | Some _ \<Rightarrow>
     (let t = on_file f_seek_end t
      in if length (title tr) \<noteq> titleSpace t then Inr t
      else let t = on_file (f_write (title tr)) t
      in if length (data tr) \<noteq> dataSpace t then Inr t
      else let t = fold (\<lambda>i. on_file (writeUINT8 i)) (data tr) t;
               t = write_samples np (samples tr) t
      in case numberOfTraces t of None \<Rightarrow> Inl TypeError
         | Some n \<Rightarrow> (case updateNumberOfTraces (n + 1) (t\<lparr>numberOfTraces := Some (n + 1)\<rparr>) of
             Inl e \<Rightarrow> Inl e | Inr t \<Rightarrow> Inr (on_file f_seek_end t))))"

subsection \<open>Names\<close>

definition undigit :: "char \<Rightarrow> nat" where
  "undigit c = of_char c - 48"

lemma undigit_digit: "d < 10 \<Longrightarrow> undigit (digit d) = d"
  by (simp add: undigit_def digit_def)

definition undecimal :: "string \<Rightarrow> nat" where
  "undecimal cs = foldl (\<lambda>n c. 10 * n + undigit c) 0 cs"

lemma undecimal_decimal: "undecimal (decimal n) = n"
  by (induction n rule: decimal.induct) (subst decimal.simps, simp add: undecimal_def undigit_digit)

lemma numbered_name_inj: "inj (numbered_name name)"
proof (rule injI)
  fix m n assume "numbered_name name m = numbered_name name n"
  then have "decimal m = decimal n" by (simp add: numbered_name_def)
  then show "m = n" using undecimal_decimal by metis
qed

text \<open>Among the names with a number one is free, so the search ends.\<close>

lemma fresh_name_numbered:
  assumes "\<not> isfile (numbered_name name k)" "c \<le> k"
  shows "\<exists>n. fresh_name isfile name (Suc c) (numbered_name name c) = Some n \<and> \<not> isfile n"
  using assms(2)
proof (induction "k - c" arbitrary: c)
  case 0
  then have "c = k" by simp
  then show ?case using assms(1) by (subst fresh_name.simps) simp
next
  case (Suc m)
  then have IH: "\<exists>n. fresh_name isfile name (Suc (Suc c)) (numbered_name name (Suc c)) = Some n \<and> \<not> isfile n"
    by (intro Suc.hyps(1)) simp_all
  show ?case by (subst fresh_name.simps) (use IH in auto)
qed

lemma fresh_name_ok:
  assumes "finite {n. isfile n}"
  shows "\<exists>n. fresh_name isfile name 1 name = Some n \<and> \<not> isfile n"
proof -
  have "infinite (numbered_name name ` {1..})"
    using finite_imageD [of "numbered_name name" "{1..}"] inj_on_subset [OF numbered_name_inj] infinite_Ici by blast
  then have "\<not> numbered_name name ` {1..} \<subseteq> {n. isfile n}" using assms finite_subset by blast
  then obtain k where "k \<ge> 1" "\<not> isfile (numbered_name name k)" by auto
  then have "\<exists>n. fresh_name isfile name (Suc 1) (numbered_name name 1) = Some n \<and> \<not> isfile n"
    by (intro fresh_name_numbered) simp_all
  then show ?thesis by (subst fresh_name.simps) (auto simp: numeral_2_eq_2)
qed

subsection \<open>Reading and writing\<close>

lemma le_bytes_length [simp]: "length (le_bytes n v) = n"
  by (induction n arbitrary: v) simp_all

lemma le_value_bytes: "v < 256 ^ n \<Longrightarrow> le_value (le_bytes n v) = v"
proof (induction n arbitrary: v)
  case 0
  then show ?case by simp
next
  case (Suc n)
  then have "v div 256 < 256 ^ n" by (simp add: div_less_iff_less_mult mult.commute)
  then have "le_value (le_bytes n (v div 256)) = v div 256" by (rule Suc.IH)
  moreover have "unat (of_nat (v mod 256) :: byte) = v mod 256"
    by (simp add: unat_of_nat)
  ultimately show ?case by simp
qed

definition tail_of :: "byte list \<Rightarrow> binfile" where
  "tail_of bs = \<lparr>content = bs, fpos = length bs\<rparr>"

lemma tail_of_simps [simp]:
  "content (tail_of bs) = bs" "fpos (tail_of bs) = length bs" "\<lparr>content = [], fpos = 0\<rparr> = tail_of []"
  "f_seek_end \<lparr>content = bs, fpos = n\<rparr> = tail_of bs" "f_seek_end (tail_of bs) = tail_of bs"
  by (simp_all add: tail_of_def f_seek_end_def)

lemma f_write_tail [simp]: "f_write xs (tail_of bs) = tail_of (bs @ xs)"
  by (simp add: f_write_def tail_of_def)

lemma f_write_inside:
  "length xs = length b \<Longrightarrow> n = length a \<Longrightarrow>
   f_write xs \<lparr>content = a @ b @ c, fpos = n\<rparr> = \<lparr>content = a @ xs @ c, fpos = n + length xs\<rparr>"
  by (simp add: f_write_def)

lemma write_tail [simp]:
  "writeUINT8 v (tail_of bs) = tail_of (bs @ [of_nat v])"
  "v < 2 ^ 16 \<Longrightarrow> writeUINT16 v (tail_of bs) = tail_of (bs @ le_bytes 2 v)"
  "v < 2 ^ 32 \<Longrightarrow> writeUINT32 v (tail_of bs) = tail_of (bs @ le_bytes 4 v)"
  "writeFLOAT x (tail_of bs) = tail_of (bs @ le_bytes 4 (unat x))"
proof -
  have "(of_nat (v mod 256) :: byte) = of_nat v"
    by (rule word_unat_eqI) (simp add: unat_of_nat)
  then show "writeUINT8 v (tail_of bs) = tail_of (bs @ [of_nat v])"
    by (simp add: writeUINT8_def f_write_def)
qed (simp_all only: writeUINT16_def writeUINT32_def writeFLOAT_def f_write_tail mod_less)

definition ahead :: "binfile \<Rightarrow> byte list" where
  "ahead f = drop (fpos f) (content f)"

definition adv :: "nat \<Rightarrow> binfile \<Rightarrow> binfile" where
  "adv n f = f\<lparr>fpos := fpos f + n\<rparr>"

lemma adv_simps [simp]: "content (adv n f) = content f" "fpos (adv n f) = fpos f + n" "adv m (adv n f) = adv (n + m) f"
  by (simp_all add: adv_def)

lemma f_read_ahead: "ahead f = xs @ ys \<Longrightarrow> length xs = n \<Longrightarrow> f_read n f = (xs, adv n f)"
  by (simp add: f_read_def ahead_def adv_def)

lemma ahead_adv: "ahead f = xs @ ys \<Longrightarrow> length xs = n \<Longrightarrow> ahead (adv n f) = ys"
proof -
  assume "ahead f = xs @ ys" "length xs = n"
  then have "drop n (ahead f) = ys" by simp
  then show ?thesis by (simp add: ahead_def add.commute)
qed

lemma f_ord_ahead: "ahead f = b # ys \<Longrightarrow> f_ord f = Inr (unat b, adv 1 f)"
  by (simp add: f_ord_def f_read_ahead [of f "[b]"])

lemma unpack_ahead: "ahead f = le_bytes n v @ ys \<Longrightarrow> v < 256 ^ n \<Longrightarrow> unpack n f = Inr (v, adv n f)"
  by (simp add: unpack_def f_read_ahead [of f "le_bytes n v"] le_value_bytes)

lemma read_header_ahead:
  assumes "ahead f = tag # len # ys" "unat len AND 0x80 = 0"
  shows "read_header f = Inr ((unat tag, unat len, 0), adv 2 f)"
proof -
  have "ahead (adv 1 f) = len # ys" using ahead_adv [of f "[tag]" "len # ys" 1] assms(1) by simp
  from f_ord_ahead [OF this] f_ord_ahead [OF assms(1)] assms(2) show ?thesis
    by (simp add: read_header_def numeral_2_eq_2)
qed

lemma open_step:
  assumes "ahead f = tag # len # bs @ ys" "length bs = unat len" "unat len AND 0x80 = 0"
    "off + traceBlockSpace t < sz"
    "open_tag (unat tag) (unat len) (adv 2 f) t = Inr (Go (t', adv (2 + unat len) f))"
  shows "open_loop sz off f t = open_loop sz (off + 2 + unat len) (adv (2 + unat len) f) t'"
    "ahead (adv (2 + unat len) f) = ys"
  using assms ahead_adv [of f "tag # len # bs" ys "2 + unat len"]
  by (simp_all add: open_loop.simps [of sz off f t] read_header_ahead [OF assms(1,3)])

lemma ahead_two: "ahead f = tag # len # ys \<Longrightarrow> ahead (adv 2 f) = ys"
  using ahead_adv [of f "[tag, len]" ys 2] by simp

subsection \<open>The header\<close>

definition header_end :: "u32 \<Rightarrow> u32 \<Rightarrow> byte list" where
  "header_end x y = [0x49, 1, 115, 0x4A, 1, 86] @ [0x4B, 4] @ le_bytes 4 (unat x) @ [0x4C, 4] @ le_bytes 4 (unat y) @ [0x5F, 0]"

definition header_start :: "nat \<Rightarrow> nat \<Rightarrow> nat \<Rightarrow> nat \<Rightarrow> byte list" where
  "header_start ts sc ds ns =
     [0x45, 1] @ [of_nat ts] @ [0x43, 1] @ [of_nat sc] @ [0x44, 2] @ le_bytes 2 ds @ [0x42, 4] @ le_bytes 4 ns"

definition trs_header :: "nat \<Rightarrow> nat \<Rightarrow> nat \<Rightarrow> nat \<Rightarrow> nat \<Rightarrow> u32 \<Rightarrow> u32 \<Rightarrow> byte list" where
  "trs_header ts sc ds ns n x y = header_start ts sc ds ns @ ([0x41, 4] @ le_bytes 4 n) @ header_end x y"

lemma header_lengths [simp]:
  "length (header_start ts sc ds ns) = 16" "length (header_end x y) = 20" "length (trs_header ts sc ds ns n x y) = 42"
  by (simp_all add: header_start_def header_end_def trs_header_def)

definition header_ok :: "nat \<Rightarrow> nat \<Rightarrow> nat \<Rightarrow> nat \<Rightarrow> bool" where
  "header_ok ts sc ds ns \<longleftrightarrow> ts < 2 ^ 8 \<and> ds < 2 ^ 16 \<and> ns < 2 ^ 32 \<and> dtype_of sc \<noteq> None"

lemma coding_small: "dtype_of sc \<noteq> None \<Longrightarrow> sc < 256"
  by (auto simp: dtype_of_def coding_defs split: if_splits)

lemma reads_ahead:
  "ahead f = of_nat v # ys \<Longrightarrow> v < 256 \<Longrightarrow> readUINT8 f = Inr (v, adv 1 f)"
  "ahead f = le_bytes 2 v @ ys \<Longrightarrow> v < 2 ^ 16 \<Longrightarrow> readUINT16 f = Inr (v, adv 2 f)"
  "ahead f = le_bytes 4 v @ ys \<Longrightarrow> v < 2 ^ 32 \<Longrightarrow> readUINT32 f = Inr (v, adv 4 f)"
  using f_read_ahead [of f "[of_nat v]" ys 1] unpack_ahead [of f 2 v ys] unpack_ahead [of f 4 v ys]
  by (simp_all add: readUINT8_def readUINT16_def readUINT32_def unpack_def unat_of_nat)

lemma open_sizes:
  assumes "header_ok ts sc ds ns" "16 \<le> sz" "ahead f = header_start ts sc ds ns @ rest" "traceBlockSpace t = 0"
  shows "open_loop sz 0 f t = open_loop sz 16 (adv 16 f) (t\<lparr>titleSpace := ts, sampleCoding := Some sc,
      sampleCodingByteSize := Some (codingByteSize sc), dataSpace := ds, numberOfSamplesPerTrace := Some ns\<rparr>)"
    "ahead (adv 16 f) = rest"
proof -
  have d: "ts < 256" "ds < 2 ^ 16" "ns < 2 ^ 32" "sc < 256"
    using assms(1) coding_small [of sc] by (simp_all add: header_ok_def)
  let ?r3 = "0x42 # 4 # le_bytes 4 ns @ rest" and ?t1 = "t\<lparr>titleSpace := ts\<rparr>"
  let ?r2 = "0x44 # 2 # le_bytes 2 ds @ ?r3"
    and ?t2 = "?t1\<lparr>sampleCoding := Some sc, sampleCodingByteSize := Some (codingByteSize sc)\<rparr>"
  let ?r1 = "0x43 # 1 # of_nat sc # ?r2" and ?t3 = "?t2\<lparr>dataSpace := ds\<rparr>"
  note simps = open_tag_def tag_defs
  have a0: "ahead f = 0x45 # 1 # of_nat ts # ?r1" using assms(3) by (simp add: header_start_def)
  have s1: "open_loop sz 0 f t = open_loop sz 3 (adv 3 f) ?t1" and a1: "ahead (adv 3 f) = ?r1"
    using open_step [of f "0x45" 1 "[of_nat ts]" ?r1 0 t sz ?t1] a0 reads_ahead(1) [OF ahead_two [OF a0] d(1)] assms(2,4)
    by (simp_all add: simps numeral_3_eq_3)
  have s2: "open_loop sz 3 (adv 3 f) ?t1 = open_loop sz 6 (adv 6 f) ?t2" and a2: "ahead (adv 6 f) = ?r2"
    using open_step [of "adv 3 f" "0x43" 1 "[of_nat sc]" ?r2 3 ?t1 sz ?t2] a1 reads_ahead(1) [OF ahead_two [OF a1] d(4)] assms(2,4)
    by (simp_all add: simps)
  have s3: "open_loop sz 6 (adv 6 f) ?t2 = open_loop sz 10 (adv 10 f) ?t3" and a3: "ahead (adv 10 f) = ?r3"
    using open_step [of "adv 6 f" "0x44" 2 "le_bytes 2 ds" ?r3 6 ?t2 sz ?t3] a2 reads_ahead(2) [OF ahead_two [OF a2] d(2)] assms(2,4)
    by (simp_all add: simps)
  show "open_loop sz 0 f t = open_loop sz 16 (adv 16 f) (t\<lparr>titleSpace := ts, sampleCoding := Some sc,
      sampleCodingByteSize := Some (codingByteSize sc), dataSpace := ds, numberOfSamplesPerTrace := Some ns\<rparr>)"
    "ahead (adv 16 f) = rest"
    using open_step [of "adv 10 f" "0x42" 4 "le_bytes 4 ns" rest 10 ?t3 sz "?t3\<lparr>numberOfSamplesPerTrace := Some ns\<rparr>"]
      s1 s2 s3 a3 reads_ahead(3) [OF ahead_two [OF a3] d(3)] assms(2,4)
    by (simp_all add: simps)
qed

lemma open_labels:
  assumes "n < 2 ^ 32" "42 \<le> sz" "ahead f = [0x41, 4] @ le_bytes 4 n @ header_end x y @ rest" "traceBlockSpace t = 0"
  shows "open_loop sz 16 f t = open_loop sz 40 (adv 24 f) (t\<lparr>numberOfTraces := Some n\<rparr>)"
    "ahead (adv 24 f) = 0x5F # 0 # rest"
proof -
  let ?t = "t\<lparr>numberOfTraces := Some n\<rparr>"
  let ?r4 = "0x5F # 0 # rest"
  let ?r3 = "0x4C # 4 # le_bytes 4 (unat y) @ ?r4"
  let ?r2 = "0x4B # 4 # le_bytes 4 (unat x) @ ?r3"
  let ?r1 = "0x4A # 1 # 86 # ?r2"
  let ?r0 = "0x49 # 1 # 115 # ?r1"
  note simps = open_tag_def tag_defs
  have a: "ahead f = 0x41 # 4 # le_bytes 4 n @ ?r0" using assms(3) by (simp add: header_end_def)
  have s0: "open_loop sz 16 f t = open_loop sz 22 (adv 6 f) ?t" and a0: "ahead (adv 6 f) = ?r0"
    using open_step [of f "0x41" 4 "le_bytes 4 n" ?r0 16 t sz ?t] a reads_ahead(3) [OF ahead_two [OF a] assms(1)] assms(2,4)
    by (simp_all add: simps)
  have s1: "open_loop sz 22 (adv 6 f) ?t = open_loop sz 25 (adv 9 f) ?t" and a1: "ahead (adv 9 f) = ?r1"
    using open_step [of "adv 6 f" "0x49" 1 "[115]" ?r1 22 ?t sz ?t] a0 f_read_ahead [OF ahead_two [OF a0, THEN trans [where t = "[115] @ ?r1"]], of 1] assms(2,4)
    by (simp_all add: simps)
  have s2: "open_loop sz 25 (adv 9 f) ?t = open_loop sz 28 (adv 12 f) ?t" and a2: "ahead (adv 12 f) = ?r2"
    using open_step [of "adv 9 f" "0x4A" 1 "[86]" ?r2 25 ?t sz ?t] a1 f_read_ahead [OF ahead_two [OF a1, THEN trans [where t = "[86] @ ?r2"]], of 1] assms(2,4)
    by (simp_all add: simps)
  have s3: "open_loop sz 28 (adv 12 f) ?t = open_loop sz 34 (adv 18 f) ?t" and a3: "ahead (adv 18 f) = ?r3"
    using open_step [of "adv 12 f" "0x4B" 4 "le_bytes 4 (unat x)" ?r3 28 ?t sz ?t] a2 f_read_ahead [OF ahead_two [OF a2], of 4] assms(2,4)
    by (simp_all add: simps)
  show "open_loop sz 16 f t = open_loop sz 40 (adv 24 f) ?t" "ahead (adv 24 f) = 0x5F # 0 # rest"
    using open_step [of "adv 18 f" "0x4C" 4 "le_bytes 4 (unat y)" ?r4 34 ?t sz ?t] a3 f_read_ahead [OF ahead_two [OF a3], of 4] s0 s1 s2 s3 assms(2,4)
    by (simp_all add: simps)
qed

lemma open_block:
  assumes "ahead f = 0x5F # 0 # block" "length block = nt * (ns * bs + dataSpace t + titleSpace t)"
    "numberOfTraces t = Some nt" "numberOfSamplesPerTrace t = Some ns" "sampleCodingByteSize t = Some bs"
    "traceBlockSpace t = 0" "fpos f = 40"
  shows "open_loop (42 + length block) 40 f t = Inr (t\<lparr>sampleSpace := Some (ns * bs),
     traceSpace := Some (ns * bs + dataSpace t + titleSpace t), traceBlockSpace := length block,
     traceBlockOffset := Some 42\<rparr>, f_seek (42 + length block) f)"
  using assms
  by (subst open_loop.simps)
     (simp add: read_header_ahead [OF assms(1)] open_tag_def tag_defs open_loop.simps [of _ 42] f_seek_def adv_def Let_def)

lemma open_file:
  assumes "header_ok ts sc ds ns" "n < 2 ^ 32" "length block = n * (ns * codingByteSize sc + ds + ts)"
  shows "TraceSet_open (trs_header ts sc ds ns n x y @ block) TraceSet_init =
    Inr (TraceSet_init\<lparr>titleSpace := ts, sampleCoding := Some sc,
      sampleCodingByteSize := Some (codingByteSize sc), dataSpace := ds, numberOfSamplesPerTrace := Some ns,
      numberOfTraces := Some n, sampleSpace := Some (ns * codingByteSize sc),
      traceSpace := Some (ns * codingByteSize sc + ds + ts), traceBlockSpace := length block,
      traceBlockOffset := Some 42,
      handle := Some \<lparr>content = trs_header ts sc ds ns n x y @ block, fpos = 42 + length block\<rparr>\<rparr>)"
proof -
  let ?f = "\<lparr>content = trs_header ts sc ds ns n x y @ block, fpos = 0\<rparr>" and ?sz = "42 + length block"
  let ?t1 = "TraceSet_init\<lparr>titleSpace := ts, sampleCoding := Some sc,
      sampleCodingByteSize := Some (codingByteSize sc), dataSpace := ds, numberOfSamplesPerTrace := Some ns\<rparr>"
  have "ahead ?f = header_start ts sc ds ns @ ([0x41, 4] @ le_bytes 4 n @ header_end x y @ block)"
    by (simp add: ahead_def trs_header_def)
  note 1 = open_sizes [OF assms(1) _ this, of ?sz TraceSet_init]
  note 2 = open_labels [OF assms(2) _ 1(2), of ?sz ?t1]
  note 3 = open_block [of "adv 24 (adv 16 ?f)" block n ns "codingByteSize sc" "?t1\<lparr>numberOfTraces := Some n\<rparr>"]
  have "open_loop ?sz 0 ?f TraceSet_init = open_loop ?sz 40 (adv 24 (adv 16 ?f)) (?t1\<lparr>numberOfTraces := Some n\<rparr>)"
    using 1(1) 2(1) by (simp add: TraceSet_init_def)
  also have "\<dots> = Inr (?t1\<lparr>numberOfTraces := Some n, sampleSpace := Some (ns * codingByteSize sc),
     traceSpace := Some (ns * codingByteSize sc + ds + ts), traceBlockSpace := length block,
     traceBlockOffset := Some 42\<rparr>, f_seek ?sz (adv 24 (adv 16 ?f)))"
    using 3 2(2) assms(3) by (simp add: TraceSet_init_def)
  finally show ?thesis by (simp add: TraceSet_open_def f_seek_def adv_def)
qed

subsection \<open>Creating a file and adding traces\<close>

lemma on_file_simps [simp]:
  "handle (on_file g t) = map_option g (handle t)" "titleSpace (on_file g t) = titleSpace t"
  "dataSpace (on_file g t) = dataSpace t" "numberOfTraces (on_file g t) = numberOfTraces t"
  "sampleCoding (on_file g t) = sampleCoding t" "traceBlockSpace (on_file g t) = traceBlockSpace t"
  "xlabel (on_file g t) = xlabel t" "ylabel (on_file g t) = ylabel t"
  by (simp_all add: on_file_def)

text \<open>What stays of a trace set while traces are added.\<close>

definition writing :: "nat \<Rightarrow> nat \<Rightarrow> nat \<Rightarrow> nat \<Rightarrow> nat \<Rightarrow> byte list \<Rightarrow> u32 \<Rightarrow> u32 \<Rightarrow> traceset \<Rightarrow> bool" where
  "writing ts sc ds ns n block x y t \<longleftrightarrow> handle t = Some (tail_of (trs_header ts sc ds ns n x y @ block)) \<and>
     titleSpace t = ts \<and> dataSpace t = ds \<and> sampleCoding t = Some sc \<and> numberOfTraces t = Some n \<and>
     traceBlockSpace t = 0"

lemma new_writing:
  assumes "header_ok ts sc ds ns" "fresh_name isfile name 1 name = Some nm"
  shows "\<exists>t. TraceSet_new isfile name ts sc ds ns (x, y) TraceSet_init = Some t \<and> fileName t = Some nm \<and>
    writing ts sc ds ns 0 [] x y t"
proof -
  have d: "ds < 2 ^ 16" "ns < 2 ^ 32" using assms(1) by (simp_all add: header_ok_def)
  show ?thesis
    using assms(2) d
    by (simp add: TraceSet_new_def writing_def writeTitleSpace_def writeSampleCoding_def writeDataSpace_def
        writeNumerOfSamplesPerTrace_def writeNumberOfTraces_def writeLabelsXY_def writeScalesXY_def writeTraceBlock_def
        on_file_def TraceSet_init_def tag_defs trs_header_def header_start_def header_end_def Let_def)
qed

lemma findtag_skip:
  assumes "ahead f = tag # len # bs @ ys" "length bs = unat len" "unat len AND 0x80 = 0" "off < sz" "unat tag \<noteq> st"
  shows "findtag_loop st 0 sz off f = findtag_loop st 0 sz (off + 2 + unat len) (adv (2 + unat len) f)"
    "ahead (adv (2 + unat len) f) = ys"
  using assms ahead_adv [of f "tag # len # bs" ys "2 + unat len"] f_read_ahead [OF ahead_two [OF assms(1)], of "unat len"]
  by (simp_all add: findtag_loop.simps [of st 0 sz off f] read_header_ahead [OF assms(1,3)])

lemma findtag_count:
  assumes "ahead f = header_start ts sc ds ns @ 0x41 # 4 # rest" "16 < sz"
  shows "findtag_loop NumberOfTraces 0 sz 0 f = Inr (True, f_seek 16 (adv 18 f))"
proof -
  let ?r4 = "0x41 # 4 # rest"
  let ?r3 = "0x42 # 4 # le_bytes 4 ns @ ?r4"
  let ?r2 = "0x44 # 2 # le_bytes 2 ds @ ?r3"
  let ?r1 = "0x43 # 1 # of_nat sc # ?r2"
  have a0: "ahead f = 0x45 # 1 # of_nat ts # ?r1" using assms(1) by (simp add: header_start_def)
  note simps = tag_defs numeral_3_eq_3
  have s1: "findtag_loop 0x41 0 sz 0 f = findtag_loop 0x41 0 sz 3 (adv 3 f)" and a1: "ahead (adv 3 f) = ?r1"
    using findtag_skip [of f "0x45" 1 "[of_nat ts]" ?r1 0 sz "0x41"] a0 assms(2) by (simp_all add: simps)
  have s2: "findtag_loop 0x41 0 sz 3 (adv 3 f) = findtag_loop 0x41 0 sz 6 (adv 6 f)" and a2: "ahead (adv 6 f) = ?r2"
    using findtag_skip [of "adv 3 f" "0x43" 1 "[of_nat sc]" ?r2 3 sz "0x41"] a1 assms(2) by (simp_all add: tag_defs)
  have s3: "findtag_loop 0x41 0 sz 6 (adv 6 f) = findtag_loop 0x41 0 sz 10 (adv 10 f)" and a3: "ahead (adv 10 f) = ?r3"
    using findtag_skip [of "adv 6 f" "0x44" 2 "le_bytes 2 ds" ?r3 6 sz "0x41"] a2 assms(2) by (simp_all add: tag_defs)
  have s4: "findtag_loop 0x41 0 sz 10 (adv 10 f) = findtag_loop 0x41 0 sz 16 (adv 16 f)" and a4: "ahead (adv 16 f) = ?r4"
    using findtag_skip [of "adv 10 f" "0x42" 4 "le_bytes 4 ns" ?r4 10 sz "0x41"] a3 assms(2) by (simp_all add: tag_defs)
  show ?thesis
    using s1 s2 s3 s4 assms(2) read_header_ahead [OF a4] by (simp add: NumberOfTraces_def findtag_loop.simps [of 65 0 sz 16])
qed

lemma update_count:
  assumes "writing ts sc ds ns n block x y t" "Suc n < 2 ^ 32"
    "handle u = Some (tail_of (trs_header ts sc ds ns n x y @ block'))" "traceBlockSpace u = 0"
  shows "updateNumberOfTraces (Suc n) u = Inr (u\<lparr>numberOfTraces := Some (Suc n),
    handle := Some \<lparr>content = trs_header ts sc ds ns (Suc n) x y @ block', fpos = 22\<rparr>\<rparr>)"
proof -
  let ?c = "trs_header ts sc ds ns n x y @ block'"
  have c: "?c = (header_start ts sc ds ns @ [0x41, 4]) @ le_bytes 4 n @ (header_end x y @ block')"
    by (simp add: trs_header_def)
  have c0: "?c = header_start ts sc ds ns @ [0x41] @ (4 # le_bytes 4 n @ header_end x y @ block')"
    and c1: "?c = (header_start ts sc ds ns @ [0x41]) @ [4] @ (le_bytes 4 n @ header_end x y @ block')"
    by (simp_all add: trs_header_def)
  have "findtag NumberOfTraces u = Inr (True, u\<lparr>handle := Some \<lparr>content = ?c, fpos = 16\<rparr>\<rparr>)"
    using findtag_count [of "\<lparr>content = ?c, fpos = 0\<rparr>" ts sc ds ns "le_bytes 4 n @ header_end x y @ block'" "length ?c"] assms(3,4)
    by (simp add: findtag_def f_seek_def tail_of_def f_seek_end_def ahead_def adv_def trs_header_def)
  moreover have "writeUINT8 65 \<lparr>content = ?c, fpos = 16\<rparr> = \<lparr>content = ?c, fpos = 17\<rparr>"
    using f_write_inside [of "[0x41]" "[0x41]" 16 "header_start ts sc ds ns"] by (subst (1 2) c0) (simp add: writeUINT8_def)
  moreover have "writeUINT8 4 \<lparr>content = ?c, fpos = 17\<rparr> = \<lparr>content = ?c, fpos = 18\<rparr>"
    using f_write_inside [of "[4]" "[4]" 17 "header_start ts sc ds ns @ [0x41]"] by (subst (1 2) c1) (simp add: writeUINT8_def)
  moreover have "writeUINT32 (Suc n) \<lparr>content = ?c, fpos = 18\<rparr> =
    \<lparr>content = trs_header ts sc ds ns (Suc n) x y @ block', fpos = 22\<rparr>"
    using f_write_inside [of "le_bytes 4 (Suc n)" "le_bytes 4 n" 18 "header_start ts sc ds ns @ [0x41, 4]"] assms(2)
    by (subst c) (simp add: writeUINT32_def trs_header_def)
  ultimately show ?thesis
    by (simp add: updateNumberOfTraces_def writeNumberOfTraces_def on_file_def NumberOfTraces_def)
qed

text \<open>The bytes of a trace in the file.\<close>

definition trace_bytes :: "'s numpy \<Rightarrow> dtype \<Rightarrow> 's trace \<Rightarrow> byte list" where
  "trace_bytes np d tr = title tr @ map of_nat (data tr) @ tofile np d (samples tr)"

lemma write_data:
  "handle t = Some (tail_of bs) \<Longrightarrow> fold (\<lambda>i. on_file (writeUINT8 i)) xs t = t\<lparr>handle := Some (tail_of (bs @ map of_nat xs))\<rparr>"
  by (induction xs arbitrary: t bs) (simp_all add: on_file_def)

lemma add_writing:
  assumes "writing ts sc ds ns n block x y t" "dtype_of sc = Some d" "length (title tr) = ts" "length (data tr) = ds" "Suc n < 2 ^ 32"
  shows "\<exists>t'. addTrace np tr t = Inr t' \<and> writing ts sc ds ns (Suc n) (block @ trace_bytes np d tr) x y t'"
proof -
  note w = assms(1) [unfolded writing_def]
  let ?c = "trs_header ts sc ds ns n x y @ block"
  let ?u = "t\<lparr>handle := Some (tail_of (?c @ trace_bytes np d tr)), numberOfTraces := Some (Suc n)\<rparr>"
  have "addTrace np tr t = (case updateNumberOfTraces (Suc n) ?u of Inl e \<Rightarrow> Inl e | Inr t \<Rightarrow> Inr (on_file f_seek_end t))"
    using w assms(2-4)
    by (simp add: addTrace_def on_file_def write_data write_samples_def trace_bytes_def Let_def)
  moreover have "updateNumberOfTraces (Suc n) ?u = Inr (?u\<lparr>numberOfTraces := Some (Suc n),
     handle := Some \<lparr>content = trs_header ts sc ds ns (Suc n) x y @ (block @ trace_bytes np d tr), fpos = 22\<rparr>\<rparr>)"
    by (rule update_count [OF assms(1,5)]) (use w in simp_all)
  ultimately show ?thesis using w by (simp add: writing_def on_file_def)
qed

primrec addTraces :: "'s numpy \<Rightarrow> 's trace list \<Rightarrow> traceset \<Rightarrow> trace_error + traceset" where
  "addTraces np [] t = Inr t"
| "addTraces np (tr # trs) t = (case addTrace np tr t of Inl e \<Rightarrow> Inl e | Inr t \<Rightarrow> addTraces np trs t)"

text \<open>A trace of the declared size whose samples NumPy writes and reads back.\<close>

definition trace_ok :: "'s numpy \<Rightarrow> dtype \<Rightarrow> nat \<Rightarrow> nat \<Rightarrow> nat \<Rightarrow> nat \<Rightarrow> 's trace \<Rightarrow> bool" where
  "trace_ok np d sz ts ds ns tr \<longleftrightarrow> length (title tr) = ts \<and> length (data tr) = ds \<and> (\<forall>v\<in>set (data tr). v < 256) \<and>
     length (tofile np d (samples tr)) = ns * sz \<and>
     (\<forall>rest. fst (fromfile np d ns (tofile np d (samples tr) @ rest)) = samples tr)"

lemma adds_writing:
  assumes "writing ts sc ds ns n block x y t" "dtype_of sc = Some d" "n + length trs < 2 ^ 32"
    "\<forall>tr\<in>set trs. length (title tr) = ts \<and> length (data tr) = ds"
  shows "\<exists>t'. addTraces np trs t = Inr t' \<and>
    writing ts sc ds ns (n + length trs) (block @ concat (map (trace_bytes np d) trs)) x y t'"
  using assms(1,3,4)
proof (induction trs arbitrary: n block t)
  case Nil
  then show ?case by simp
next
  case (Cons tr trs)
  obtain u where u: "addTrace np tr t = Inr u" "writing ts sc ds ns (Suc n) (block @ trace_bytes np d tr) x y u"
    using add_writing [OF Cons.prems(1) assms(2), of tr np] Cons.prems(2,3) by auto
  from Cons.IH [OF u(2)] Cons.prems(2,3) u(1) show ?case by simp
qed

lemma drop_concat: "\<forall>xs\<in>set xss. length xs = k \<Longrightarrow> drop (i * k) (concat xss) = concat (drop i xss)"
proof (induction xss arbitrary: i)
  case Nil
  then show ?case by simp
next
  case (Cons xs xss)
  show ?case
  proof (cases i)
    case 0
    then show ?thesis by simp
  next
    case (Suc j)
    then show ?thesis using Cons.IH [of j] Cons.prems by (simp add: add.commute)
  qed
qed

lemma length_concat_const: "\<forall>xs\<in>set xss. length xs = k \<Longrightarrow> length (concat xss) = length xss * k"
  by (induction xss) simp_all

lemma getTrace_block:
  assumes "handle t = Some f" "content f = h @ trace_bytes np d tr @ rest" "length h = off + i * sp"
    "traceBlockOffset t = Some off" "traceSpace t = Some sp" "sampleCoding t = Some sc" "dtype_of sc = Some d"
    "numberOfSamplesPerTrace t = Some ns" "trace_ok np d sz (titleSpace t) (dataSpace t) ns tr"
  shows "\<exists>g. content g = content f \<and> getTrace np i t = Inr (Some tr, t\<lparr>handle := Some g\<rparr>)"
proof -
  note ok = assms(9) [unfolded trace_ok_def]
  have m: "map unat (map of_nat (data tr) :: byte list) = data tr"
    using ok by (simp add: map_idI unat_of_nat)
  obtain smp k where s: "fromfile np d ns (tofile np d (samples tr) @ rest) = (smp, k)" by fastforce
  then have "smp = samples tr" using ok by (metis fst_conv)
  let ?f = "f_seek (off + i * sp) f"
  have a: "ahead ?f = title tr @ (map of_nat (data tr) @ tofile np d (samples tr) @ rest)"
    using assms(2,3) by (simp add: ahead_def f_seek_def trace_bytes_def)
  have r1: "f_read (titleSpace t) ?f = (title tr, adv (titleSpace t) ?f)"
    by (rule f_read_ahead [OF a]) (use ok in simp)
  have b: "ahead (adv (titleSpace t) ?f) = map of_nat (data tr) @ (tofile np d (samples tr) @ rest)"
    by (rule ahead_adv [OF a]) (use ok in simp)
  have r2: "f_read (dataSpace t) (adv (titleSpace t) ?f) = (map of_nat (data tr), adv (dataSpace t) (adv (titleSpace t) ?f))"
    by (rule f_read_ahead [OF b]) (use ok in simp)
  have c: "ahead (adv (dataSpace t) (adv (titleSpace t) ?f)) = tofile np d (samples tr) @ rest"
    by (rule ahead_adv [OF b]) (use ok in simp)
  let ?g = "adv (dataSpace t) (adv (titleSpace t) ?f)"
  have "getTrace np i t = Inr (Some \<lparr>title = title tr, data = data tr, samples = smp\<rparr>, t\<lparr>handle := Some (f_seek (fpos ?g + k) ?g)\<rparr>)"
    using assms(1,4-8) s c m
    by (simp add: getTrace_def r1 r2 ahead_def [symmetric] del: map_map adv_simps(3))
  with \<open>smp = samples tr\<close> show ?thesis by (intro exI [of _ "f_seek (fpos ?g + k) ?g"]) (simp add: f_seek_def)
qed

lemma iter_block:
  assumes "traceBlockOffset t = Some (length h)" "traceSpace t = Some sp" "sampleCoding t = Some sc" "dtype_of sc = Some d"
    "numberOfSamplesPerTrace t = Some ns" "sp = ns * sz + dataSpace t + titleSpace t"
    "\<forall>tr\<in>set trs. trace_ok np d sz (titleSpace t) (dataSpace t) ns tr"
    "content f = h @ concat (map (trace_bytes np d) trs)" "i + n = length trs"
  shows "iter_from np n i (t\<lparr>handle := Some f\<rparr>) = Inr (map Some (drop i trs))"
  using assms(8,9)
proof (induction n arbitrary: i f)
  case 0
  then show ?case by simp
next
  case (Suc n)
  let ?block = "concat (map (trace_bytes np d) trs)"
  have len: "\<forall>bs\<in>set (map (trace_bytes np d) trs). length bs = sp"
    using assms(6,7) by (auto simp: trace_ok_def trace_bytes_def)
  have d: "drop i trs = trs ! i # drop (Suc i) trs" using Suc.prems(2) by (simp add: Cons_nth_drop_Suc)
  have "drop (i * sp) ?block = trace_bytes np d (trs ! i) @ concat (map (trace_bytes np d) (drop (Suc i) trs))"
    using drop_concat [OF len, of i] by (simp add: drop_map d)
  then have c: "content f = (h @ take (i * sp) ?block) @ trace_bytes np d (trs ! i) @
      concat (map (trace_bytes np d) (drop (Suc i) trs))"
    using Suc.prems(1) append_take_drop_id [of "i * sp" ?block] by simp
  have l: "length (h @ take (i * sp) ?block) = length h + i * sp"
    using length_concat_const [OF len] Suc.prems(2) by (simp add: min_def)
  have ok: "trace_ok np d sz (titleSpace t) (dataSpace t) ns (trs ! i)" using assms(7) Suc.prems(2) by simp
  obtain g where g: "content g = content f"
    "getTrace np i (t\<lparr>handle := Some f\<rparr>) = Inr (Some (trs ! i), t\<lparr>handle := Some g\<rparr>)"
    using getTrace_block [of "t\<lparr>handle := Some f\<rparr>" f _ np d "trs ! i" _ "length h" i sp sc ns sz, OF _ c l] assms(1-5) ok
    by auto
  then show ?case using Suc.IH [of g "Suc i"] Suc.prems d by simp
qed

lemma file_read_back:
  assumes "header_ok ts sc ds ns" "dtype_of sc = Some d" "length trs < 2 ^ 32"
    "\<forall>tr\<in>set trs. trace_ok np d (codingByteSize sc) ts ds ns tr"
  shows "\<exists>t. TraceSet_open (trs_header ts sc ds ns (length trs) x y @ concat (map (trace_bytes np d) trs)) TraceSet_init = Inr t \<and>
    TraceSet_iter np t = Inr (map Some trs)"
proof -
  let ?bytes = "concat (map (trace_bytes np d) trs)" and ?sp = "ns * codingByteSize sc + ds + ts"
  have "\<forall>bs\<in>set (map (trace_bytes np d) trs). length bs = ?sp" using assms(4) by (auto simp: trace_ok_def trace_bytes_def)
  then have "length ?bytes = length trs * ?sp" using length_concat_const by fastforce
  note o = open_file [OF assms(1,3) this, of x y]
  let ?f = "\<lparr>content = trs_header ts sc ds ns (length trs) x y @ ?bytes, fpos = 42 + length ?bytes\<rparr>"
  obtain t where t: "TraceSet_open (trs_header ts sc ds ns (length trs) x y @ ?bytes) TraceSet_init = Inr (t\<lparr>handle := Some ?f\<rparr>)"
    "traceBlockOffset t = Some 42" "traceSpace t = Some ?sp" "sampleCoding t = Some sc" "numberOfSamplesPerTrace t = Some ns"
    "dataSpace t = ds" "titleSpace t = ts" "numberOfTraces t = Some (length trs)"
    using o by force
  have "iter_from np (length trs) 0 (t\<lparr>handle := Some ?f\<rparr>) = Inr (map Some (drop 0 trs))"
    by (rule iter_block [of _ "trs_header ts sc ds ns (length trs) x y" ?sp sc d ns "codingByteSize sc"])
       (use t assms(2,4) in simp_all)
  then show ?thesis using t(1,8) by (auto simp: TraceSet_iter_def)
qed


text \<open>NumPy on arrays of bytes, and two traces with a title byte, two data bytes and three samples.\<close>

definition byte_numpy :: "byte list numpy" where
  "byte_numpy = \<lparr>tofile = (\<lambda>_ xs. xs), fromfile = (\<lambda>_ n bs. (take n bs, n))\<rparr>"

definition two_traces :: "byte list trace list" where
  "two_traces = [\<lparr>title = [0x41], data = [1, 2], samples = [10, 20, 30]\<rparr>,
     \<lparr>title = [0x42], data = [3, 255], samples = [40, 50, 60]\<rparr>]"


text \<open>C28. Creating a trace set never overwrites a file. Among finitely many existing files the search
  for a name ends, the chosen name is not the one of a file, and the new file holds the header
  for an empty set.
\<close>

theorem new_never_overwrites:
  assumes "finite {n. isfile n}" "ts < 2 ^ 8" "ds < 2 ^ 16" "ns < 2 ^ 32" "dtype_of sc \<noteq> None"
  shows "\<exists>t nm. TraceSet_new isfile name ts sc ds ns (x, y) TraceSet_init = Some t \<and> fileName t = Some nm \<and>
    \<not> isfile nm \<and> handle t = Some (tail_of (trs_header ts sc ds ns 0 x y))"
proof -
  have "header_ok ts sc ds ns" using assms(2-5) by (simp add: header_ok_def)
  moreover obtain nm where nm: "fresh_name isfile name 1 name = Some nm" "\<not> isfile nm"
    using fresh_name_ok [OF assms(1)] by blast
  ultimately show ?thesis using new_writing [of ts sc ds ns isfile name nm x y] nm by (auto simp: writing_def)
qed

theorem new_never_overwrites_witness:
  "\<exists>t nm. TraceSet_new (\<lambda>n. n = ''a.trs'') ''a.trs'' 0 CodingFloat 32 1250 (0, 0) TraceSet_init = Some t \<and>
    fileName t = Some nm \<and> \<not> nm = ''a.trs'' \<and>
    handle t = Some (tail_of (trs_header 0 CodingFloat 32 1250 0 0 0))"
  by (rule new_never_overwrites) (simp_all add: dtype_of_def coding_defs)

text \<open>C29. A trace with data of the wrong size is not rejected cleanly: the title has already been appended
  to the file, the number of traces is not changed, and every later trace is displaced by the title.
\<close>

theorem wrong_data_leaves_title:
  assumes "handle t = Some f" "length (title tr) = titleSpace t" "length (data tr) \<noteq> dataSpace t"
  shows "\<exists>g. addTrace np tr t = Inr (t\<lparr>handle := Some g\<rparr>) \<and> content g = content f @ title tr"
  using assms
  by (intro exI [of _ "f_write (title tr) (f_seek_end f)"])
     (simp add: addTrace_def on_file_def f_seek_end_def f_write_def Let_def)

theorem wrong_data_leaves_title_witness:
  "\<exists>g. addTrace byte_numpy \<lparr>title = [0x41], data = [], samples = []\<rparr>
      (TraceSet_init\<lparr>handle := Some \<lparr>content = [1], fpos = 0\<rparr>, titleSpace := 1, dataSpace := 2\<rparr>) =
    Inr (TraceSet_init\<lparr>titleSpace := 1, dataSpace := 2, handle := Some g\<rparr>) \<and> content g = [1, 0x41]"
  using wrong_data_leaves_title [of "TraceSet_init\<lparr>handle := Some \<lparr>content = [1], fpos = 0\<rparr>, titleSpace := 1, dataSpace := 2\<rparr>"
      "\<lparr>content = [1], fpos = 0\<rparr>" "\<lparr>title = [0x41], data = [], samples = []\<rparr>" byte_numpy]
  by simp

end
