(* ===== verification/ConfigDescriptors.thy ===== *)
theory ConfigDescriptors
  imports Descriptors
begin

text \<open>
  The walk over a configuration descriptor (\<open>ConfigDescriptors.c\<close>, \<open>ConfigDescriptors.h\<close>). The
  descriptor is a list of bytes, the current location an index into it. The routines look at the
  type of the descriptor they have moved to before they check that bytes remain; what the memory
  holds behind the descriptor is the parameter \<open>beyond\<close>.
\<close>

unbundle bit_operations_syntax

subsection \<open>Routines\<close>

type_synonym config_loc = "u16 \<times> nat"

definition config_byte :: "byte list \<Rightarrow> (nat \<Rightarrow> byte) \<Rightarrow> nat \<Rightarrow> byte" where
  "config_byte buf beyond i = (if i < length buf then buf ! i else beyond i)"

definition DESCRIPTOR_TYPE :: "byte list \<Rightarrow> (nat \<Rightarrow> byte) \<Rightarrow> nat \<Rightarrow> byte" where
  "DESCRIPTOR_TYPE buf beyond loc = config_byte buf beyond (loc + 1)"

definition DESCRIPTOR_SIZE :: "byte list \<Rightarrow> (nat \<Rightarrow> byte) \<Rightarrow> nat \<Rightarrow> byte" where
  "DESCRIPTOR_SIZE buf beyond loc = config_byte buf beyond loc"

definition USB_GetNextDescriptor :: "byte list \<Rightarrow> (nat \<Rightarrow> byte) \<Rightarrow> config_loc \<Rightarrow> config_loc" where
  "USB_GetNextDescriptor buf beyond c = (case c of (BytesRem, loc) \<Rightarrow>
     let CurrDescriptorSize = ucast (DESCRIPTOR_SIZE buf beyond loc) :: u16;
         CurrDescriptorSize = (if BytesRem < CurrDescriptorSize then BytesRem else CurrDescriptorSize)
     in (BytesRem - CurrDescriptorSize, loc + unat CurrDescriptorSize))"

partial_function (option) USB_GetNextDescriptorOfType ::
  "byte list \<Rightarrow> (nat \<Rightarrow> byte) \<Rightarrow> byte \<Rightarrow> config_loc \<Rightarrow> config_loc option" where
  "USB_GetNextDescriptorOfType buf beyond ty c =
     (if fst c = 0 then Some c
      else let c = USB_GetNextDescriptor buf beyond c in
           if DESCRIPTOR_TYPE buf beyond (snd c) = ty then Some c
           else USB_GetNextDescriptorOfType buf beyond ty c)"

partial_function (option) USB_GetNextDescriptorOfTypeBefore ::
  "byte list \<Rightarrow> (nat \<Rightarrow> byte) \<Rightarrow> byte \<Rightarrow> byte \<Rightarrow> config_loc \<Rightarrow> config_loc option" where
  "USB_GetNextDescriptorOfTypeBefore buf beyond ty BeforeType c =
     (if fst c = 0 then Some c
      else let c = USB_GetNextDescriptor buf beyond c in
           if DESCRIPTOR_TYPE buf beyond (snd c) = ty then Some c
           else if DESCRIPTOR_TYPE buf beyond (snd c) = BeforeType then Some (0, snd c)
           else USB_GetNextDescriptorOfTypeBefore buf beyond ty BeforeType c)"

definition USB_GetNextDescriptorOfTypeAfter ::
  "byte list \<Rightarrow> (nat \<Rightarrow> byte) \<Rightarrow> byte \<Rightarrow> byte \<Rightarrow> config_loc \<Rightarrow> config_loc option" where
  "USB_GetNextDescriptorOfTypeAfter buf beyond ty AfterType c = do {
     c \<leftarrow> USB_GetNextDescriptorOfType buf beyond AfterType c;
     if fst c \<noteq> 0 then USB_GetNextDescriptorOfType buf beyond ty c else Some c
   }"

definition DESCRIPTOR_SEARCH_Found :: byte where "DESCRIPTOR_SEARCH_Found = 0"
definition DESCRIPTOR_SEARCH_Fail :: byte where "DESCRIPTOR_SEARCH_Fail = 1"
definition DESCRIPTOR_SEARCH_NotFound :: byte where "DESCRIPTOR_SEARCH_NotFound = 2"
definition DESCRIPTOR_SEARCH_COMP_EndOfDescriptor :: byte where "DESCRIPTOR_SEARCH_COMP_EndOfDescriptor = 2"

text \<open>The comparator is a callback of the application, a parameter.\<close>

partial_function (option) USB_GetNextDescriptorComp ::
  "byte list \<Rightarrow> (nat \<Rightarrow> byte) \<Rightarrow> (nat \<Rightarrow> byte) \<Rightarrow> config_loc \<Rightarrow> (byte \<times> config_loc) option" where
  "USB_GetNextDescriptorComp buf beyond ComparatorRoutine c =
     (if fst c = 0 then Some (DESCRIPTOR_SEARCH_COMP_EndOfDescriptor, c)
      else let prev = c; c = USB_GetNextDescriptor buf beyond c;
               ErrorCode = ComparatorRoutine (snd c) in
           if ErrorCode \<noteq> DESCRIPTOR_SEARCH_NotFound
           then Some (ErrorCode, if ErrorCode = DESCRIPTOR_SEARCH_Fail then prev else c)
           else USB_GetNextDescriptorComp buf beyond ComparatorRoutine c)"

subsection \<open>Well formed descriptors\<close>

text \<open>
  A configuration descriptor is well formed when it is a sequence of descriptors whose first byte
  is their length, with room for the type. \<open>at_descriptor\<close> is the location of the first of the
  remaining descriptors \<open>ds\<close>.
\<close>

definition descriptor_ok :: "byte list \<Rightarrow> bool" where
  "descriptor_ok d \<longleftrightarrow> 2 \<le> length d \<and> unat (d ! 0) = length d"

definition at_descriptor :: "byte list \<Rightarrow> byte list list \<Rightarrow> config_loc" where
  "at_descriptor buf ds = (of_nat (length (concat ds)), length buf - length (concat ds))"

definition config_ok :: "byte list \<Rightarrow> byte list list \<Rightarrow> bool" where
  "config_ok buf ds \<longleftrightarrow> length buf < 2 ^ 16 \<and> list_all descriptor_ok ds \<and> (\<exists>pre. buf = pre @ concat ds)"

lemma config_tl: "config_ok buf (d # ds) \<Longrightarrow> config_ok buf ds"
  by (auto simp: config_ok_def)

lemma unat_short: "n < 2 ^ 16 \<Longrightarrow> unat (of_nat n :: u16) = n"
  by (simp add: unat_of_nat take_bit_eq_mod)

lemma next_descriptor:
  assumes "config_ok buf (d # ds)"
  shows "USB_GetNextDescriptor buf beyond (at_descriptor buf (d # ds)) = at_descriptor buf ds"
    "fst (at_descriptor buf (d # ds)) \<noteq> 0"
proof -
  obtain pre where buf: "buf = pre @ d @ concat ds" using assms by (auto simp: config_ok_def)
  have d: "2 \<le> length d" "unat (d ! 0) = length d" using assms by (simp_all add: config_ok_def descriptor_ok_def)
  have l: "length pre + length d + length (concat ds) < 2 ^ 16" using assms buf by (simp add: config_ok_def)
  have z: "DESCRIPTOR_SIZE buf beyond (length pre) = d ! 0"
    using d(1) by (cases d) (simp_all add: DESCRIPTOR_SIZE_def config_byte_def buf nth_append)
  have u: "unat (ucast (d ! 0) :: u16) = length d" using d(2) by simp
  have e: "(ucast (d ! 0) :: u16) = of_nat (length d)" unfolding u [symmetric] by simp
  have "\<not> (of_nat (length d + length (concat ds)) :: u16) < ucast (d ! 0)"
    using l u by (simp add: word_less_nat_alt unat_short del: of_nat_add)
  then show "USB_GetNextDescriptor buf beyond (at_descriptor buf (d # ds)) = at_descriptor buf ds"
    using z e u by (simp add: USB_GetNextDescriptor_def at_descriptor_def buf Let_def)
  have "unat (of_nat (length d + length (concat ds)) :: u16) \<noteq> 0"
    using l d(1) by (cases d) (simp_all add: unat_short del: of_nat_add of_nat_Suc)
  then show "fst (at_descriptor buf (d # ds)) \<noteq> 0" by (auto simp: at_descriptor_def)
qed

lemma at_type:
  assumes "config_ok buf (d # ds)"
  shows "DESCRIPTOR_TYPE buf beyond (snd (at_descriptor buf (d # ds))) = d ! 1"
proof -
  obtain pre where buf: "buf = pre @ d @ concat ds" using assms by (auto simp: config_ok_def)
  have "2 \<le> length d" using assms by (simp add: config_ok_def descriptor_ok_def)
  then show ?thesis by (simp add: DESCRIPTOR_TYPE_def at_descriptor_def config_byte_def buf nth_append)
qed

lemma at_end: "fst (at_descriptor buf []) = 0"
  by (simp add: at_descriptor_def)

text \<open>C18. The search for a descriptor of a type. On a well formed configuration descriptor the search
  ends. It ends at the first of the following descriptors that has the type, with the number of
  bytes from there to the end, and at the end with no bytes remaining when there is none,
  whatever the memory holds behind the descriptor.
\<close>

theorem next_of_type_finds_first:
  assumes "config_ok buf (d # ds)"
  shows "USB_GetNextDescriptorOfType buf beyond ty (at_descriptor buf (d # ds)) =
    Some (at_descriptor buf (dropWhile (\<lambda>e. e ! 1 \<noteq> ty) ds))"
  using assms
proof (induction ds arbitrary: d)
  case Nil
  then show ?case
    by (subst USB_GetNextDescriptorOfType.simps)
      (simp add: next_descriptor at_end Let_def USB_GetNextDescriptorOfType.simps [of _ _ _ "at_descriptor buf []"])
next
  case (Cons e ds)
  note t = at_type [OF config_tl [OF Cons.prems], of beyond]
  show ?case
    using Cons.IH [OF config_tl [OF Cons.prems]]
    by (subst USB_GetNextDescriptorOfType.simps) (simp add: next_descriptor [OF Cons.prems] t Let_def)
qed

theorem next_of_type_finds_first_witness:
  "USB_GetNextDescriptorOfType [2, 4, 3, 5, 9, 2, 4] (\<lambda>_. 0) 5 (7, 0) = Some (5, 2)"
proof -
  have "config_ok [2, 4, 3, 5, 9, 2, 4] [[2, 4], [3, 5, 9], [2, 4]]" by (simp add: config_ok_def descriptor_ok_def)
  from next_of_type_finds_first [OF this, of "\<lambda>_. 0" 5] show ?thesis by (simp add: at_descriptor_def)
qed

text \<open>The search that must not pass a descriptor of a second type stops at the first descriptor of
  either type: with the bytes from there when it has the wanted type, and with none remaining
  when the other type comes first or neither comes.
\<close>

lemma next_before_stops:
  assumes "config_ok buf (d # ds)"
  shows "USB_GetNextDescriptorOfTypeBefore buf beyond ty other (at_descriptor buf (d # ds)) = Some
    (let r = dropWhile (\<lambda>e. e ! 1 \<noteq> ty \<and> e ! 1 \<noteq> other) ds; c = at_descriptor buf r
     in if r \<noteq> [] \<and> hd r ! 1 = ty then c else (0, snd c))"
  using assms
proof (induction ds arbitrary: d)
  case Nil
  have z: "at_descriptor buf [] = (0, snd (at_descriptor buf []))" by (simp add: at_descriptor_def)
  show ?case
    using next_descriptor [OF Nil] z
    by (subst USB_GetNextDescriptorOfTypeBefore.simps)
      (simp add: at_end Let_def USB_GetNextDescriptorOfTypeBefore.simps [of _ _ _ _ "at_descriptor buf []"])
next
  case (Cons e ds)
  note t = at_type [OF config_tl [OF Cons.prems], of beyond]
  show ?case
    using Cons.IH [OF config_tl [OF Cons.prems]]
    by (subst USB_GetNextDescriptorOfTypeBefore.simps) (simp add: next_descriptor [OF Cons.prems] t Let_def)
qed

lemma next_before_stops_witness:
  "USB_GetNextDescriptorOfTypeBefore [2, 4, 3, 5, 9, 2, 4] (\<lambda>_. 0) 4 5 (7, 0) = Some (0, 2)"
proof -
  have "config_ok [2, 4, 3, 5, 9, 2, 4] [[2, 4], [3, 5, 9], [2, 4]]" by (simp add: config_ok_def descriptor_ok_def)
  from next_before_stops [OF this, of "\<lambda>_. 0" 4 5] show ?thesis by (simp add: at_descriptor_def Let_def)
qed

text \<open>C35. The comparator is called behind the end. When the current descriptor is the last one, the
  search with a comparator calls it at the first location after the configuration descriptor: a
  comparator that answers there ends the search, with its answer, although no descriptor is left.
\<close>

theorem comparator_called_behind_end:
  assumes "config_ok buf [d]"
  shows "USB_GetNextDescriptorComp buf beyond cmp (at_descriptor buf [d]) = Some
    (if cmp (length buf) = DESCRIPTOR_SEARCH_NotFound then (DESCRIPTOR_SEARCH_COMP_EndOfDescriptor, (0, length buf))
     else (cmp (length buf), if cmp (length buf) = DESCRIPTOR_SEARCH_Fail then at_descriptor buf [d] else (0, length buf)))"
proof -
  have z: "at_descriptor buf [] = (0, length buf)" by (simp add: at_descriptor_def)
  show ?thesis
    using next_descriptor [OF assms]
    by (subst USB_GetNextDescriptorComp.simps)
      (simp add: z Let_def USB_GetNextDescriptorComp.simps [of _ _ _ "(0, length buf)"])
qed

theorem comparator_called_behind_end_witness:
  "USB_GetNextDescriptorComp [2, 4] (\<lambda>_. 5) (\<lambda>loc. if DESCRIPTOR_TYPE [2, 4] (\<lambda>_. 5) loc = 5 then 0 else 2) (2, 0)
     = Some (DESCRIPTOR_SEARCH_Found, (0, 2))"
proof -
  have "config_ok [2, 4] [[2, 4]]" by (simp add: config_ok_def descriptor_ok_def)
  from comparator_called_behind_end [OF this, of "\<lambda>_. 5"] show ?thesis
    by (simp add: at_descriptor_def DESCRIPTOR_TYPE_def config_byte_def DESCRIPTOR_SEARCH_Found_def
      DESCRIPTOR_SEARCH_Fail_def DESCRIPTOR_SEARCH_NotFound_def)
qed

lemma zero_size_step:
  assumes "DESCRIPTOR_SIZE buf beyond loc = 0"
  shows "USB_GetNextDescriptor buf beyond (n, loc) = (n, loc)"
  using assms by (simp add: USB_GetNextDescriptor_def)

lemma zero_size_loop:
  "USB_GetNextDescriptorOfType buf beyond ty c = Some y \<Longrightarrow>
   \<not> (fst c \<noteq> 0 \<and> DESCRIPTOR_SIZE buf beyond (snd c) = 0 \<and> DESCRIPTOR_TYPE buf beyond (snd c) \<noteq> ty)"
proof (erule USB_GetNextDescriptorOfType.raw_induct [rotated])
  fix f :: "byte list \<Rightarrow> (nat \<Rightarrow> byte) \<Rightarrow> byte \<Rightarrow> config_loc \<Rightarrow> config_loc option" and buf beyond ty c y
  assume ih: "\<And>buf beyond ty c y. f buf beyond ty c = Some y \<Longrightarrow>
      \<not> (fst c \<noteq> 0 \<and> DESCRIPTOR_SIZE buf beyond (snd c) = 0 \<and> DESCRIPTOR_TYPE buf beyond (snd c) \<noteq> ty)"
    and r: "(if fst c = 0 then Some c else let c = USB_GetNextDescriptor buf beyond c in
        if DESCRIPTOR_TYPE buf beyond (snd c) = ty then Some c else f buf beyond ty c) = Some y"
  show "\<not> (fst c \<noteq> 0 \<and> DESCRIPTOR_SIZE buf beyond (snd c) = 0 \<and> DESCRIPTOR_TYPE buf beyond (snd c) \<noteq> ty)"
  proof
    assume a: "fst c \<noteq> 0 \<and> DESCRIPTOR_SIZE buf beyond (snd c) = 0 \<and> DESCRIPTOR_TYPE buf beyond (snd c) \<noteq> ty"
    then have "USB_GetNextDescriptor buf beyond c = c" using zero_size_step [of buf beyond "snd c" "fst c"] by simp
    then have "f buf beyond ty c = Some y" using r a by simp
    with ih a show False by blast
  qed
qed

text \<open>C36. A descriptor of length zero. When a descriptor with a length byte of zero is reached and does
  not have the wanted type, the search never returns.
\<close>

theorem zero_size_never_returns:
  assumes "n \<noteq> 0" "DESCRIPTOR_SIZE buf beyond loc = 0" "DESCRIPTOR_TYPE buf beyond loc \<noteq> ty"
  shows "USB_GetNextDescriptorOfType buf beyond ty (n, loc) = None"
  using zero_size_loop [of buf beyond ty "(n, loc)"] assms by (cases "USB_GetNextDescriptorOfType buf beyond ty (n, loc)") auto

theorem zero_size_never_returns_witness: "USB_GetNextDescriptorOfType [0, 4] (\<lambda>_. 0) 5 (2, 0) = None"
  by (rule zero_size_never_returns) (simp_all add: DESCRIPTOR_SIZE_def DESCRIPTOR_TYPE_def config_byte_def)

subsection \<open>The configuration descriptor of the firmware\<close>

definition firmware_descriptors :: "byte list list" where
  "firmware_descriptors = (let c = ConfigurationDescriptor in
     [cfg_header_bytes (Config c), interface_bytes (CDC_CCI_Interface c), fheader_bytes (CDC_Functional_Header c),
      acm_bytes (CDC_Functional_ACM c), union_bytes (CDC_Functional_Union c), endpoint_bytes (CDC_NotificationEndpoint c),
      interface_bytes (CDC_DCI_Interface c), endpoint_bytes (CDC_DataOutEndpoint c), endpoint_bytes (CDC_DataInEndpoint c)])"

lemma firmware_concat: "concat firmware_descriptors = configuration_bytes ConfigurationDescriptor"
  by (simp add: firmware_descriptors_def configuration_bytes_def Let_def)

lemmas descriptor_images =
  firmware_descriptors_def ConfigurationDescriptor_def cfg_header_bytes_def interface_bytes_def fheader_bytes_def acm_bytes_def
  union_bytes_def endpoint_bytes_def hdr_bytes_def header_def endpoint_descriptor_def sizeof_defs bytes16_def Let_def


end
