(* ===== verification/HidParser.thy ===== *)
theory HidParser
  imports Prelude
begin

text \<open>
  The HID report parser (\<open>HIDParser.c\<close>, \<open>HIDParser.h\<close>, \<open>HIDReportData.h\<close>). Pointers into the arrays
  of the parser are indices. A report table that ends inside of an item makes the parser read
  behind it; the model ends there with its own outcome. A write behind the state table is kept
  as a flag. The callback that filters report items is a parameter, and so is what the
  uninitialised local report item holds.
\<close>

unbundle bit_operations_syntax

subsection \<open>Constants\<close>

definition HID_STATETABLE_STACK_DEPTH :: nat where "HID_STATETABLE_STACK_DEPTH = 2"
definition HID_USAGE_STACK_DEPTH :: nat where "HID_USAGE_STACK_DEPTH = 8"
definition HID_MAX_COLLECTIONS :: nat where "HID_MAX_COLLECTIONS = 10"
definition HID_MAX_REPORTITEMS :: nat where "HID_MAX_REPORTITEMS = 20"
definition HID_MAX_REPORT_IDS :: nat where "HID_MAX_REPORT_IDS = 10"

definition HID_RI_DATA_SIZE_MASK :: byte where "HID_RI_DATA_SIZE_MASK = 0x03"
definition HID_RI_TYPE_MASK :: byte where "HID_RI_TYPE_MASK = 0x0C"
definition HID_RI_TAG_MASK :: byte where "HID_RI_TAG_MASK = 0xF0"
definition HID_RI_TYPE_MAIN :: byte where "HID_RI_TYPE_MAIN = 0x00"
definition HID_RI_TYPE_GLOBAL :: byte where "HID_RI_TYPE_GLOBAL = 0x04"
definition HID_RI_TYPE_LOCAL :: byte where "HID_RI_TYPE_LOCAL = 0x08"
definition HID_RI_DATA_BITS_8 :: byte where "HID_RI_DATA_BITS_8 = 0x01"
definition HID_RI_DATA_BITS_16 :: byte where "HID_RI_DATA_BITS_16 = 0x02"
definition HID_RI_DATA_BITS_32 :: byte where "HID_RI_DATA_BITS_32 = 0x03"
definition HID_IOF_CONSTANT :: u32 where "HID_IOF_CONSTANT = 1"

definition HID_RI_INPUT :: byte where "HID_RI_INPUT = HID_RI_TYPE_MAIN OR 0x80"
definition HID_RI_OUTPUT :: byte where "HID_RI_OUTPUT = HID_RI_TYPE_MAIN OR 0x90"
definition HID_RI_COLLECTION :: byte where "HID_RI_COLLECTION = HID_RI_TYPE_MAIN OR 0xA0"
definition HID_RI_FEATURE :: byte where "HID_RI_FEATURE = HID_RI_TYPE_MAIN OR 0xB0"
definition HID_RI_END_COLLECTION :: byte where "HID_RI_END_COLLECTION = HID_RI_TYPE_MAIN OR 0xC0"
definition HID_RI_USAGE_PAGE :: byte where "HID_RI_USAGE_PAGE = HID_RI_TYPE_GLOBAL OR 0x00"
definition HID_RI_LOGICAL_MINIMUM :: byte where "HID_RI_LOGICAL_MINIMUM = HID_RI_TYPE_GLOBAL OR 0x10"
definition HID_RI_LOGICAL_MAXIMUM :: byte where "HID_RI_LOGICAL_MAXIMUM = HID_RI_TYPE_GLOBAL OR 0x20"
definition HID_RI_PHYSICAL_MINIMUM :: byte where "HID_RI_PHYSICAL_MINIMUM = HID_RI_TYPE_GLOBAL OR 0x30"
definition HID_RI_PHYSICAL_MAXIMUM :: byte where "HID_RI_PHYSICAL_MAXIMUM = HID_RI_TYPE_GLOBAL OR 0x40"
definition HID_RI_UNIT_EXPONENT :: byte where "HID_RI_UNIT_EXPONENT = HID_RI_TYPE_GLOBAL OR 0x50"
definition HID_RI_UNIT :: byte where "HID_RI_UNIT = HID_RI_TYPE_GLOBAL OR 0x60"
definition HID_RI_REPORT_SIZE :: byte where "HID_RI_REPORT_SIZE = HID_RI_TYPE_GLOBAL OR 0x70"
definition HID_RI_REPORT_ID :: byte where "HID_RI_REPORT_ID = HID_RI_TYPE_GLOBAL OR 0x80"
definition HID_RI_REPORT_COUNT :: byte where "HID_RI_REPORT_COUNT = HID_RI_TYPE_GLOBAL OR 0x90"
definition HID_RI_PUSH :: byte where "HID_RI_PUSH = HID_RI_TYPE_GLOBAL OR 0xA0"
definition HID_RI_POP :: byte where "HID_RI_POP = HID_RI_TYPE_GLOBAL OR 0xB0"
definition HID_RI_USAGE :: byte where "HID_RI_USAGE = HID_RI_TYPE_LOCAL OR 0x00"
definition HID_RI_USAGE_MINIMUM :: byte where "HID_RI_USAGE_MINIMUM = HID_RI_TYPE_LOCAL OR 0x10"
definition HID_RI_USAGE_MAXIMUM :: byte where "HID_RI_USAGE_MAXIMUM = HID_RI_TYPE_LOCAL OR 0x20"

lemmas hid_sizes =
  HID_STATETABLE_STACK_DEPTH_def HID_USAGE_STACK_DEPTH_def HID_MAX_COLLECTIONS_def HID_MAX_REPORTITEMS_def
  HID_MAX_REPORT_IDS_def

lemmas hid_consts =
  HID_RI_DATA_SIZE_MASK_def HID_RI_TYPE_MASK_def HID_RI_TAG_MASK_def HID_RI_TYPE_MAIN_def HID_RI_TYPE_GLOBAL_def
  HID_RI_TYPE_LOCAL_def HID_RI_DATA_BITS_8_def HID_RI_DATA_BITS_16_def HID_RI_DATA_BITS_32_def HID_IOF_CONSTANT_def
  HID_RI_INPUT_def HID_RI_OUTPUT_def HID_RI_COLLECTION_def HID_RI_FEATURE_def HID_RI_END_COLLECTION_def
  HID_RI_USAGE_PAGE_def HID_RI_LOGICAL_MINIMUM_def HID_RI_LOGICAL_MAXIMUM_def HID_RI_PHYSICAL_MINIMUM_def
  HID_RI_PHYSICAL_MAXIMUM_def HID_RI_UNIT_EXPONENT_def HID_RI_UNIT_def HID_RI_REPORT_SIZE_def HID_RI_REPORT_ID_def
  HID_RI_REPORT_COUNT_def HID_RI_PUSH_def HID_RI_POP_def HID_RI_USAGE_def HID_RI_USAGE_MINIMUM_def
  HID_RI_USAGE_MAXIMUM_def

declare hid_consts [reg_consts]

datatype HID_Parse_ErrorCodes_t =
    HID_PARSE_Successful
  | HID_PARSE_HIDStackOverflow
  | HID_PARSE_HIDStackUnderflow
  | HID_PARSE_InsufficientReportItems
  | HID_PARSE_UnexpectedEndCollection
  | HID_PARSE_InsufficientCollectionPaths
  | HID_PARSE_UsageListOverflow
  | HID_PARSE_InsufficientReportIDItems
  | HID_PARSE_NoUnfilteredReportItems

datatype HID_ReportItemTypes_t =
    HID_REPORT_ITEM_In
  | HID_REPORT_ITEM_Out
  | HID_REPORT_ITEM_Feature

fun item_type_index :: "HID_ReportItemTypes_t \<Rightarrow> nat" where
  "item_type_index HID_REPORT_ITEM_In = 0"
| "item_type_index HID_REPORT_ITEM_Out = 1"
| "item_type_index HID_REPORT_ITEM_Feature = 2"

subsection \<open>Data\<close>

record HID_MinMax_t =
  mm_Minimum :: u32
  mm_Maximum :: u32

record HID_Unit_t =
  unit_Type :: u32
  unit_Exponent :: byte

record HID_Usage_t =
  us_Page :: u16
  us_Usage :: u16

record HID_CollectionPath_t =
  cp_Type :: byte
  cp_Usage :: HID_Usage_t
  cp_Parent :: "nat option"

record HID_ReportItem_Attributes_t =
  at_BitSize :: byte
  at_Usage :: HID_Usage_t
  at_Unit :: HID_Unit_t
  at_Logical :: HID_MinMax_t
  at_Physical :: HID_MinMax_t

record HID_ReportItem_t =
  ri_BitOffset :: u16
  ri_ItemType :: HID_ReportItemTypes_t
  ri_ItemFlags :: u16
  ri_ReportID :: byte
  ri_CollectionPath :: "nat option"
  ri_Attributes :: HID_ReportItem_Attributes_t
  ri_Value :: u32
  ri_PreviousValue :: u32

record HID_ReportSizeInfo_t =
  rs_ReportID :: byte
  rs_ReportSizeBits :: "u16 list"

record HID_ReportInfo_t =
  TotalReportItems :: byte
  ReportItems :: "HID_ReportItem_t list"
  CollectionPaths :: "HID_CollectionPath_t list"
  TotalDeviceReports :: byte
  ReportIDSizes :: "HID_ReportSizeInfo_t list"
  LargestReportSizeBits :: u16
  UsingReportIDs :: bool

record HID_StateTable_t =
  st_Attributes :: HID_ReportItem_Attributes_t
  st_ReportCount :: byte
  st_ReportID :: byte

text \<open>The sizes the compiler gives the two structures that the copy of a push confuses.\<close>

definition sizeof_HID_ReportItem_Attributes_t :: nat where
  "sizeof_HID_ReportItem_Attributes_t = 1 + (2 + 2) + (4 + 1) + (4 + 4) + (4 + 4)"

definition sizeof_HID_ReportItem_t :: nat where
  "sizeof_HID_ReportItem_t = 2 + 1 + 2 + 1 + 2 + sizeof_HID_ReportItem_Attributes_t + 4 + 4"

definition sizeof_HID_StateTable_t :: nat where
  "sizeof_HID_StateTable_t = sizeof_HID_ReportItem_Attributes_t + 1 + 1"

text \<open>Structures cleared by \<open>memset\<close>.\<close>

definition usage_zero :: HID_Usage_t where "usage_zero = \<lparr>us_Page = 0, us_Usage = 0\<rparr>"

definition minmax_zero :: HID_MinMax_t where "minmax_zero = \<lparr>mm_Minimum = 0, mm_Maximum = 0\<rparr>"

definition attributes_zero :: HID_ReportItem_Attributes_t where
  "attributes_zero = \<lparr>at_BitSize = 0, at_Usage = usage_zero, at_Unit = \<lparr>unit_Type = 0, unit_Exponent = 0\<rparr>,
     at_Logical = minmax_zero, at_Physical = minmax_zero\<rparr>"

definition item_zero :: HID_ReportItem_t where
  "item_zero = \<lparr>ri_BitOffset = 0, ri_ItemType = HID_REPORT_ITEM_In, ri_ItemFlags = 0, ri_ReportID = 0,
     ri_CollectionPath = None, ri_Attributes = attributes_zero, ri_Value = 0, ri_PreviousValue = 0\<rparr>"

definition path_zero :: HID_CollectionPath_t where
  "path_zero = \<lparr>cp_Type = 0, cp_Usage = usage_zero, cp_Parent = None\<rparr>"

definition size_zero :: HID_ReportSizeInfo_t where
  "size_zero = \<lparr>rs_ReportID = 0, rs_ReportSizeBits = [0, 0, 0]\<rparr>"

definition info_zero :: HID_ReportInfo_t where
  "info_zero = \<lparr>TotalReportItems = 0, ReportItems = replicate HID_MAX_REPORTITEMS item_zero,
     CollectionPaths = replicate HID_MAX_COLLECTIONS path_zero, TotalDeviceReports = 0,
     ReportIDSizes = replicate HID_MAX_REPORT_IDS size_zero, LargestReportSizeBits = 0, UsingReportIDs = False\<rparr>"

definition state_zero :: HID_StateTable_t where
  "state_zero = \<lparr>st_Attributes = attributes_zero, st_ReportCount = 0, st_ReportID = 0\<rparr>"

text \<open>The local variables of the parser with the structure it fills.\<close>

record hidp =
  StateTable :: "HID_StateTable_t list"
  CurrStateTable :: nat
  CurrCollectionPath :: "nat option"
  CurrReportIDInfo :: nat
  UsageList :: "u16 list"
  UsageListSize :: byte
  UsageMinMax :: HID_MinMax_t
  ParserData :: HID_ReportInfo_t
  overrun :: bool

definition curr_state :: "hidp \<Rightarrow> HID_StateTable_t" where
  "curr_state p = StateTable p ! CurrStateTable p"

definition upd_state :: "(HID_StateTable_t \<Rightarrow> HID_StateTable_t) \<Rightarrow> hidp \<Rightarrow> hidp" where
  "upd_state f p = p\<lparr>StateTable := (StateTable p)[CurrStateTable p := f (curr_state p)]\<rparr>"

definition upd_attributes :: "(HID_ReportItem_Attributes_t \<Rightarrow> HID_ReportItem_Attributes_t) \<Rightarrow> hidp \<Rightarrow> hidp" where
  "upd_attributes f = upd_state (st_Attributes_update f)"

definition upd_info :: "(HID_ReportInfo_t \<Rightarrow> HID_ReportInfo_t) \<Rightarrow> hidp \<Rightarrow> hidp" where
  "upd_info f p = p\<lparr>ParserData := f (ParserData p)\<rparr>"

definition hidp_init :: "HID_StateTable_t \<Rightarrow> u16 list \<Rightarrow> hidp" where
  "hidp_init junk_state junk_usages = \<lparr>StateTable = [state_zero, junk_state], CurrStateTable = 0,
     CurrCollectionPath = None, CurrReportIDInfo = 0, UsageList = junk_usages, UsageListSize = 0,
     UsageMinMax = minmax_zero, ParserData = info_zero\<lparr>TotalDeviceReports := 1\<rparr>, overrun = False\<rparr>"

subsection \<open>Items\<close>

text \<open>An error leaves the structure of the caller as far as it has been filled.\<close>

type_synonym hid_step = "(HID_Parse_ErrorCodes_t \<times> hidp) + hidp"

text \<open>Taking the next usage: from the list, which is moved down, or from the range.\<close>

definition shift_usages :: "nat \<Rightarrow> u16 list \<Rightarrow> u16 list" where
  "shift_usages n xs = fold (\<lambda>i xs. xs[i - 1 := xs ! i]) [1..<n] xs"

definition next_usage :: "hidp \<Rightarrow> u16 option \<times> hidp" where
  "next_usage p =
    (if UsageListSize p \<noteq> 0
     then (Some (UsageList p ! 0),
           p\<lparr>UsageList := shift_usages (unat (UsageListSize p)) (UsageList p), UsageListSize := UsageListSize p - 1\<rparr>)
     else if mm_Minimum (UsageMinMax p) \<le> mm_Maximum (UsageMinMax p)
     then (Some (ucast (mm_Minimum (UsageMinMax p))),
           p\<lparr>UsageMinMax := (UsageMinMax p)\<lparr>mm_Minimum := mm_Minimum (UsageMinMax p) + 1\<rparr>\<rparr>)
     else (None, p))"

definition hid_push :: "hidp \<Rightarrow> hid_step" where
  "hid_push p =
    (if CurrStateTable p = HID_STATETABLE_STACK_DEPTH - 1 then Inl (HID_PARSE_HIDStackOverflow, p)
     else let k = CurrStateTable p in
       Inr (p\<lparr>StateTable := (StateTable p)[k + 1 := curr_state p], CurrStateTable := k + 1,
         overrun := overrun p \<or>
           HID_STATETABLE_STACK_DEPTH * sizeof_HID_StateTable_t < (k + 1) * sizeof_HID_StateTable_t + sizeof_HID_ReportItem_t\<rparr>))"

definition hid_pop :: "hidp \<Rightarrow> hid_step" where
  "hid_pop p =
    (if CurrStateTable p = 0 then Inl (HID_PARSE_HIDStackUnderflow, p)
     else Inr (p\<lparr>CurrStateTable := CurrStateTable p - 1\<rparr>))"

definition hid_usage_page :: "byte \<Rightarrow> u32 \<Rightarrow> hidp \<Rightarrow> hidp" where
  "hid_usage_page item dat p =
    (let p = (if item AND HID_RI_DATA_SIZE_MASK = HID_RI_DATA_BITS_32
              then upd_attributes (at_Usage_update (us_Page_update (\<lambda>_. ucast (drop_bit 16 dat)))) p else p)
     in upd_attributes (at_Usage_update (us_Page_update (\<lambda>_. ucast dat))) p)"

text \<open>The loop that looks for the size entry of a report.\<close>

primrec find_report :: "HID_ReportSizeInfo_t list \<Rightarrow> byte \<Rightarrow> nat \<Rightarrow> nat \<Rightarrow> nat option" where
  "find_report sizes rid i 0 = None"
| "find_report sizes rid i (Suc n) =
    (if rs_ReportID (sizes ! i) = rid then Some i else find_report sizes rid (i + 1) n)"

definition set_report_id :: "hidp \<Rightarrow> hidp" where
  "set_report_id p =
    upd_info (\<lambda>d. d\<lparr>UsingReportIDs := True,
      ReportIDSizes := (ReportIDSizes d)[CurrReportIDInfo p :=
        (ReportIDSizes d ! CurrReportIDInfo p)\<lparr>rs_ReportID := st_ReportID (curr_state p)\<rparr>]\<rparr>) p"

definition hid_report_id :: "u32 \<Rightarrow> hidp \<Rightarrow> hid_step" where
  "hid_report_id dat p =
    (let p = upd_state (st_ReportID_update (\<lambda>_. ucast dat)) p; d = ParserData p in
     if UsingReportIDs d
     then case find_report (ReportIDSizes d) (st_ReportID (curr_state p)) 0 (unat (TotalDeviceReports d)) of
         Some i \<Rightarrow> Inr (set_report_id (p\<lparr>CurrReportIDInfo := i\<rparr>))
       | None \<Rightarrow>
         if unat (TotalDeviceReports d) = HID_MAX_REPORT_IDS then Inl (HID_PARSE_InsufficientReportIDItems, p)
         else let i = unat (TotalDeviceReports d);
                  p = upd_info (\<lambda>d. d\<lparr>TotalDeviceReports := TotalDeviceReports d + 1,
                        ReportIDSizes := (ReportIDSizes d)[i := size_zero]\<rparr>) p
              in Inr (set_report_id (p\<lparr>CurrReportIDInfo := i\<rparr>))
     else Inr (set_report_id p))"

definition hid_usage :: "u32 \<Rightarrow> hidp \<Rightarrow> hid_step" where
  "hid_usage dat p =
    (if unat (UsageListSize p) = HID_USAGE_STACK_DEPTH then Inl (HID_PARSE_UsageListOverflow, p)
     else Inr (p\<lparr>UsageList := (UsageList p)[unat (UsageListSize p) := ucast dat],
                 UsageListSize := UsageListSize p + 1\<rparr>))"

text \<open>The search for a free collection path, from index \<open>i\<close> on.\<close>

function find_path :: "HID_CollectionPath_t list \<Rightarrow> nat \<Rightarrow> nat option" where
  "find_path paths i =
    (if HID_MAX_COLLECTIONS \<le> i then None
     else if cp_Parent (paths ! i) \<noteq> None
     then if i = HID_MAX_COLLECTIONS - 1 then None else find_path paths (i + 1)
     else Some i)"
  by auto
termination
  by (relation "measure (\<lambda>(_, i). HID_MAX_COLLECTIONS - i)") auto

declare find_path.simps [simp del]

definition fill_path :: "u32 \<Rightarrow> nat \<Rightarrow> hidp \<Rightarrow> hidp" where
  "fill_path dat i p =
    (let (u, q) = next_usage (p\<lparr>CurrCollectionPath := Some i\<rparr>);
         page = us_Page (at_Usage (st_Attributes (curr_state p)))
     in upd_info (\<lambda>d. d\<lparr>CollectionPaths := (CollectionPaths d)[i := (CollectionPaths d ! i)\<lparr>
          cp_Type := ucast dat,
          cp_Usage := (let us = (cp_Usage (CollectionPaths d ! i))\<lparr>us_Page := page\<rparr> in
             case u of None \<Rightarrow> us | Some x \<Rightarrow> us\<lparr>us_Usage := x\<rparr>)\<rparr>]\<rparr>) q)"

definition hid_collection :: "u32 \<Rightarrow> hidp \<Rightarrow> hid_step" where
  "hid_collection dat p =
    (case CurrCollectionPath p of
       None \<Rightarrow> Inr (fill_path dat 0 p)
     | Some parent \<Rightarrow>
         (case find_path (CollectionPaths (ParserData p)) 1 of
            None \<Rightarrow> Inl (HID_PARSE_InsufficientCollectionPaths, p)
          | Some i \<Rightarrow> Inr (fill_path dat i (upd_info (\<lambda>d. d\<lparr>CollectionPaths :=
              (CollectionPaths d)[i := (CollectionPaths d ! i)\<lparr>cp_Parent := Some parent\<rparr>]\<rparr>) p))))"

definition hid_end_collection :: "hidp \<Rightarrow> hid_step" where
  "hid_end_collection p =
    (case CurrCollectionPath p of
       None \<Rightarrow> Inl (HID_PARSE_UnexpectedEndCollection, p)
     | Some i \<Rightarrow> Inr (p\<lparr>CurrCollectionPath := cp_Parent (CollectionPaths (ParserData p) ! i)\<rparr>))"

subsection \<open>Report items\<close>

definition item_type_of :: "byte \<Rightarrow> HID_ReportItemTypes_t" where
  "item_type_of tag = (if tag = HID_RI_INPUT then HID_REPORT_ITEM_In
     else if tag = HID_RI_OUTPUT then HID_REPORT_ITEM_Out else HID_REPORT_ITEM_Feature)"

definition report_bits :: "HID_ReportInfo_t \<Rightarrow> nat \<Rightarrow> HID_ReportItemTypes_t \<Rightarrow> u16" where
  "report_bits d i t = rs_ReportSizeBits (ReportIDSizes d ! i) ! item_type_index t"

text \<open>One pass of the loop over the report count.\<close>

definition hid_report_item ::
  "(HID_ReportItem_t \<Rightarrow> bool) \<Rightarrow> HID_ReportItem_t \<Rightarrow> byte \<Rightarrow> u32 \<Rightarrow> hidp \<Rightarrow> hid_step" where
  "hid_report_item keep junk tag dat p =
    (let st = curr_state p;
         (u, q) = next_usage p;
         attrs = (case u of None \<Rightarrow> st_Attributes st
                  | Some x \<Rightarrow> at_Usage_update (us_Usage_update (\<lambda>_. x)) (st_Attributes st));
         t = item_type_of tag;
         e = CurrReportIDInfo q;
         offset = report_bits (ParserData q) e t;
         bits = offset + ucast (at_BitSize (st_Attributes st));
         new = junk\<lparr>ri_Attributes := attrs, ri_ItemFlags := ucast dat, ri_CollectionPath := CurrCollectionPath q,
                     ri_ReportID := st_ReportID st, ri_ItemType := t, ri_BitOffset := offset\<rparr>;
         q = upd_info (\<lambda>d. d\<lparr>
               ReportIDSizes := (ReportIDSizes d)[e := (ReportIDSizes d ! e)\<lparr>
                 rs_ReportSizeBits := (rs_ReportSizeBits (ReportIDSizes d ! e))[item_type_index t := bits]\<rparr>],
               LargestReportSizeBits := max (LargestReportSizeBits d) bits\<rparr>) q;
         n = unat (TotalReportItems (ParserData q))
     in if n = HID_MAX_REPORTITEMS then Inl (HID_PARSE_InsufficientReportItems, q)
        else Inr (upd_info (\<lambda>d. d\<lparr>ReportItems := (ReportItems d)[n := new],
               TotalReportItems := TotalReportItems d +
                 (if dat AND HID_IOF_CONSTANT = 0 \<and> keep new then 1 else 0)\<rparr>) q))"

primrec hid_report_items ::
  "(HID_ReportItem_t \<Rightarrow> bool) \<Rightarrow> HID_ReportItem_t \<Rightarrow> byte \<Rightarrow> u32 \<Rightarrow> nat \<Rightarrow> hidp \<Rightarrow> hid_step" where
  "hid_report_items keep junk tag dat 0 p = Inr p"
| "hid_report_items keep junk tag dat (Suc n) p =
    (case hid_report_item keep junk tag dat p of
       Inl e \<Rightarrow> Inl e
     | Inr p \<Rightarrow> hid_report_items keep junk tag dat n p)"

subsection \<open>The parser\<close>

definition hid_item ::
  "(HID_ReportItem_t \<Rightarrow> bool) \<Rightarrow> HID_ReportItem_t \<Rightarrow> byte \<Rightarrow> u32 \<Rightarrow> hidp \<Rightarrow> hid_step" where
  "hid_item keep junk item dat p =
    (let tag = item AND (HID_RI_TYPE_MASK OR HID_RI_TAG_MASK) in
     if tag = HID_RI_PUSH then hid_push p
     else if tag = HID_RI_POP then hid_pop p
     else if tag = HID_RI_USAGE_PAGE then Inr (hid_usage_page item dat p)
     else if tag = HID_RI_LOGICAL_MINIMUM
     then Inr (upd_attributes (at_Logical_update (mm_Minimum_update (\<lambda>_. dat))) p)
     else if tag = HID_RI_LOGICAL_MAXIMUM
     then Inr (upd_attributes (at_Logical_update (mm_Maximum_update (\<lambda>_. dat))) p)
     else if tag = HID_RI_PHYSICAL_MINIMUM
     then Inr (upd_attributes (at_Physical_update (mm_Minimum_update (\<lambda>_. dat))) p)
     else if tag = HID_RI_PHYSICAL_MAXIMUM
     then Inr (upd_attributes (at_Physical_update (mm_Maximum_update (\<lambda>_. dat))) p)
     else if tag = HID_RI_UNIT_EXPONENT
     then Inr (upd_attributes (at_Unit_update (unit_Exponent_update (\<lambda>_. ucast dat))) p)
     else if tag = HID_RI_UNIT
     then Inr (upd_attributes (at_Unit_update (unit_Type_update (\<lambda>_. dat))) p)
     else if tag = HID_RI_REPORT_SIZE then Inr (upd_attributes (at_BitSize_update (\<lambda>_. ucast dat)) p)
     else if tag = HID_RI_REPORT_COUNT then Inr (upd_state (st_ReportCount_update (\<lambda>_. ucast dat)) p)
     else if tag = HID_RI_REPORT_ID then hid_report_id dat p
     else if tag = HID_RI_USAGE then hid_usage dat p
     else if tag = HID_RI_USAGE_MINIMUM then Inr (p\<lparr>UsageMinMax := (UsageMinMax p)\<lparr>mm_Minimum := dat\<rparr>\<rparr>)
     else if tag = HID_RI_USAGE_MAXIMUM then Inr (p\<lparr>UsageMinMax := (UsageMinMax p)\<lparr>mm_Maximum := dat\<rparr>\<rparr>)
     else if tag = HID_RI_COLLECTION then hid_collection dat p
     else if tag = HID_RI_END_COLLECTION then hid_end_collection p
     else if tag = HID_RI_INPUT \<or> tag = HID_RI_OUTPUT \<or> tag = HID_RI_FEATURE
     then hid_report_items keep junk tag dat (unat (st_ReportCount (curr_state p))) p
     else Inr p)"

text \<open>After a main item the usages are forgotten.\<close>

definition hid_main_reset :: "byte \<Rightarrow> hidp \<Rightarrow> hidp" where
  "hid_main_reset item p =
    (if item AND HID_RI_TYPE_MASK = HID_RI_TYPE_MAIN
     then p\<lparr>UsageMinMax := minmax_zero, UsageListSize := 0\<rparr> else p)"

definition item_size :: "byte \<Rightarrow> nat" where
  "item_size item = (if item AND HID_RI_DATA_SIZE_MASK = HID_RI_DATA_BITS_32 then 4
     else if item AND HID_RI_DATA_SIZE_MASK = HID_RI_DATA_BITS_16 then 2
     else if item AND HID_RI_DATA_SIZE_MASK = HID_RI_DATA_BITS_8 then 1 else 0)"

definition item_data :: "byte \<Rightarrow> byte list \<Rightarrow> u32" where
  "item_data item d =
    (if item AND HID_RI_DATA_SIZE_MASK = HID_RI_DATA_BITS_32
     then push_bit 24 (ucast (d ! 3)) OR push_bit 16 (ucast (d ! 2)) OR push_bit 8 (ucast (d ! 1)) OR ucast (d ! 0)
     else if item AND HID_RI_DATA_SIZE_MASK = HID_RI_DATA_BITS_16
     then push_bit 8 (ucast (d ! 1)) OR ucast (d ! 0)
     else if item AND HID_RI_DATA_SIZE_MASK = HID_RI_DATA_BITS_8 then ucast (d ! 0) else 0)"

text \<open>
  The bytes still to be read are a list, its length is the variable \<open>ReportSize\<close>. The outcome
  \<open>None\<close> is a read behind the table.
\<close>

function hid_loop ::
  "(HID_ReportItem_t \<Rightarrow> bool) \<Rightarrow> HID_ReportItem_t \<Rightarrow> byte list \<Rightarrow> hidp \<Rightarrow>
   (HID_Parse_ErrorCodes_t \<times> hidp) option" where
  "hid_loop keep junk [] p =
    Some (if TotalReportItems (ParserData p) = 0 then HID_PARSE_NoUnfilteredReportItems else HID_PARSE_Successful, p)"
| "hid_loop keep junk (item # rest) p =
    (if length rest < item_size item then None
     else case hid_item keep junk item (item_data item rest) p of
       Inl r \<Rightarrow> Some r
     | Inr p \<Rightarrow> hid_loop keep junk (drop (item_size item) rest) (hid_main_reset item p))"
  by pat_completeness auto
termination
  by (relation "measure (\<lambda>(_, _, bs, _). length bs)") auto

definition USB_ProcessHIDReport ::
  "(HID_ReportItem_t \<Rightarrow> bool) \<Rightarrow> HID_ReportItem_t \<Rightarrow> HID_StateTable_t \<Rightarrow> u16 list \<Rightarrow> byte list \<Rightarrow>
   (HID_Parse_ErrorCodes_t \<times> hidp) option" where
  "USB_ProcessHIDReport keep junk junk_state junk_usages ReportData =
     hid_loop keep junk ReportData (hidp_init junk_state junk_usages)"

subsection \<open>Report data\<close>

primrec get_bits :: "byte list \<Rightarrow> nat \<Rightarrow> u16 \<Rightarrow> u32 \<Rightarrow> u32 \<Rightarrow> u32 option" where
  "get_bits dat 0 CurrentBit BitMask v = Some v"
| "get_bits dat (Suc n) CurrentBit BitMask v =
    (case array_load dat (unat CurrentBit div 8) of
       None \<Rightarrow> None
     | Some b \<Rightarrow> get_bits dat n (CurrentBit + 1) (push_bit 1 BitMask)
         (if b AND push_bit (unat CurrentBit mod 8) 1 \<noteq> 0 then v OR BitMask else v))"

definition get_value :: "byte list \<Rightarrow> HID_ReportItem_t \<Rightarrow> (bool \<times> HID_ReportItem_t option) option" where
  "get_value dat item =
    (case get_bits dat (unat (at_BitSize (ri_Attributes item))) (ri_BitOffset item) 1 0 of
       None \<Rightarrow> None
     | Some v \<Rightarrow> Some (True, Some (item\<lparr>ri_PreviousValue := ri_Value item, ri_Value := v\<rparr>)))"

definition USB_GetHIDReportItemInfo ::
  "byte list \<Rightarrow> HID_ReportItem_t option \<Rightarrow> (bool \<times> HID_ReportItem_t option) option" where
  "USB_GetHIDReportItemInfo ReportData ReportItem =
    (case ReportItem of
       None \<Rightarrow> Some (False, None)
     | Some item \<Rightarrow>
         if ri_ReportID item \<noteq> 0
         then case ReportData of
             [] \<Rightarrow> None
           | b # rest \<Rightarrow> if ri_ReportID item \<noteq> b then Some (False, Some item) else get_value rest item
         else get_value ReportData item)"

primrec set_bits :: "nat \<Rightarrow> u16 \<Rightarrow> u32 \<Rightarrow> u32 \<Rightarrow> byte list \<Rightarrow> byte list option" where
  "set_bits 0 CurrentBit BitMask v dat = Some dat"
| "set_bits (Suc n) CurrentBit BitMask v dat =
    (if v AND BitMask \<noteq> 0
     then case array_load dat (unat CurrentBit div 8) of
         None \<Rightarrow> None
       | Some b \<Rightarrow> set_bits n (CurrentBit + 1) (push_bit 1 BitMask) v
           (dat[unat CurrentBit div 8 := b OR push_bit (unat CurrentBit mod 8) 1])
     else set_bits n (CurrentBit + 1) (push_bit 1 BitMask) v dat)"

definition set_value :: "byte list \<Rightarrow> HID_ReportItem_t \<Rightarrow> (byte list \<times> HID_ReportItem_t) option" where
  "set_value dat item =
    (case set_bits (unat (at_BitSize (ri_Attributes item))) (ri_BitOffset item) 1 (ri_Value item) dat of
       None \<Rightarrow> None
     | Some r \<Rightarrow> Some (r, item\<lparr>ri_PreviousValue := ri_Value item\<rparr>))"

definition USB_SetHIDReportItemInfo ::
  "byte list \<Rightarrow> HID_ReportItem_t option \<Rightarrow> (byte list \<times> HID_ReportItem_t option) option" where
  "USB_SetHIDReportItemInfo ReportData ReportItem =
    (case ReportItem of
       None \<Rightarrow> Some (ReportData, None)
     | Some item \<Rightarrow>
         if ri_ReportID item \<noteq> 0
         then case ReportData of
             [] \<Rightarrow> None
           | b # rest \<Rightarrow> (case set_value rest item of
               None \<Rightarrow> None | Some (r, item) \<Rightarrow> Some (ri_ReportID item # r, Some item))
         else case set_value ReportData item of
             None \<Rightarrow> None | Some (r, item) \<Rightarrow> Some (r, Some item))"

primrec report_size_from :: "HID_ReportSizeInfo_t list \<Rightarrow> byte \<Rightarrow> HID_ReportItemTypes_t \<Rightarrow> nat \<Rightarrow> nat \<Rightarrow> u16" where
  "report_size_from sizes rid t i 0 = 0"
| "report_size_from sizes rid t i (Suc n) =
    (let bits = rs_ReportSizeBits (sizes ! i) ! item_type_index t in
     if rs_ReportID (sizes ! i) = rid then bits div 8 + (if bits mod 8 \<noteq> 0 then 1 else 0)
     else report_size_from sizes rid t (i + 1) n)"

definition USB_GetHIDReportSize :: "HID_ReportInfo_t \<Rightarrow> byte \<Rightarrow> HID_ReportItemTypes_t \<Rightarrow> u16" where
  "USB_GetHIDReportSize d ReportID ReportType =
     report_size_from (ReportIDSizes d) ReportID ReportType 0 HID_MAX_REPORT_IDS"

end
