(* ===== verification/HidReport.thy ===== *)
theory HidReport
  imports HidParser
begin

text \<open>
  The routines that read and write the value of an item in a report: bit \<open>i\<close> of a report is bit
  \<open>i mod 8\<close> of its byte \<open>i div 8\<close>, and a value set in a report is read back.
\<close>

unbundle bit_operations_syntax

definition report_bit :: "byte list \<Rightarrow> nat \<Rightarrow> bool" where
  "report_bit dat i \<longleftrightarrow> bit (dat ! (i div 8)) (i mod 8)"

lemma and_bit: "(b :: 'a :: len word) AND push_bit k 1 \<noteq> 0 \<longleftrightarrow> k < LENGTH('a) \<and> bit b k"
proof -
  have "b AND push_bit k 1 \<noteq> 0 \<longleftrightarrow> (\<exists>i. bit (b AND push_bit k 1) i)" by (metis bit_0_eq bot_apply bot_bool_def bit_eqI)
  also have "\<dots> \<longleftrightarrow> k < LENGTH('a) \<and> bit b k" by (auto simp: bit_simps bit_imp_le_length)
  finally show ?thesis .
qed

lemma push_push: "push_bit 1 (push_bit k (1 :: u32)) = push_bit (Suc k) 1"
  by simp

lemma next_bit: "unat c + Suc n < 2 ^ 16 \<Longrightarrow> unat (c + 1 :: u16) = Suc (unat c)"
  by (simp add: unat_word_ariths)

lemma get_bits_spec:
  assumes "unat c + n < 2 ^ 16" "unat c + n \<le> 8 * length dat"
  shows "\<exists>r. get_bits dat n c (push_bit j 1) v = Some r \<and>
    (\<forall>i. bit r i \<longleftrightarrow> bit v i \<or> j \<le> i \<and> i < j + n \<and> i < 32 \<and> report_bit dat (unat c + (i - j)))"
  using assms
proof (induction n arbitrary: c j v)
  case 0
  then show ?case by auto
next
  case (Suc n)
  have c: "unat (c + 1) = Suc (unat c)" by (rule next_bit [OF Suc.prems(1)])
  have l: "unat c div 8 < length dat" using Suc.prems(2) by (simp add: div_less_iff_less_mult)
  let ?b = "dat ! (unat c div 8)"
  let ?v = "if ?b AND push_bit (unat c mod 8) 1 \<noteq> 0 then v OR push_bit j 1 else v"
  have m: "?b AND push_bit (unat c mod 8) 1 \<noteq> 0 \<longleftrightarrow> report_bit dat (unat c)"
    unfolding and_bit report_bit_def by simp
  have v: "bit ?v i \<longleftrightarrow> bit v i \<or> i = j \<and> i < 32 \<and> report_bit dat (unat c)" for i
    using m by (auto simp: bit_simps)
  obtain r where r: "get_bits dat n (c + 1) (push_bit (Suc j) 1) ?v = Some r"
    "\<forall>i. bit r i \<longleftrightarrow> bit ?v i \<or> Suc j \<le> i \<and> i < Suc j + n \<and> i < 32 \<and> report_bit dat (unat (c + 1) + (i - Suc j))"
    using Suc.IH [of "c + 1" "Suc j" ?v] Suc.prems c by auto
  have "bit r i \<longleftrightarrow> bit v i \<or> j \<le> i \<and> i < j + Suc n \<and> i < 32 \<and> report_bit dat (unat c + (i - j))" for i
  proof -
    have b: "bit r i \<longleftrightarrow> (bit v i \<or> i = j \<and> i < 32 \<and> report_bit dat (unat c)) \<or>
        Suc j \<le> i \<and> i < Suc j + n \<and> i < 32 \<and> report_bit dat (unat (c + 1) + (i - Suc j))"
      using r(2) [rule_format, of i] v [of i] by (simp only:)
    consider "i < j" | "i = j" | "Suc j \<le> i" by linarith
    then show ?thesis
    proof cases
      case 3
      then have "unat (c + 1) + (i - Suc j) = unat c + (i - j)" using c by simp
      with 3 b show ?thesis by simp
    qed (use b in simp_all)
  qed
  moreover have "get_bits dat (Suc n) c (push_bit j 1) v = Some r"
    unfolding get_bits.simps(2) array_load_in [OF l] option.case push_push by (rule r(1))
  ultimately show ?case by blast
qed

lemma report_bit_update:
  assumes "k div 8 < length dat" "i div 8 < length dat"
  shows "report_bit (dat[k div 8 := dat ! (k div 8) OR push_bit (k mod 8) 1]) i \<longleftrightarrow> report_bit dat i \<or> i = k"
proof (cases "i div 8 = k div 8")
  case True
  then have "i mod 8 = k mod 8 \<longleftrightarrow> i = k" by (metis mod_div_decomp)
  then show ?thesis using True assms by (auto simp: report_bit_def bit_simps)
next
  case False
  then show ?thesis using assms by (auto simp: report_bit_def)
qed

lemma set_bits_spec:
  assumes "unat c + n < 2 ^ 16" "unat c + n \<le> 8 * length dat"
  shows "\<exists>r. set_bits n c (push_bit j 1) v dat = Some r \<and> length r = length dat \<and>
    (\<forall>i < 8 * length dat. report_bit r i \<longleftrightarrow> report_bit dat i \<or>
       unat c \<le> i \<and> i < unat c + n \<and> i - unat c + j < 32 \<and> bit v (i - unat c + j))"
  using assms
proof (induction n arbitrary: c j dat)
  case 0
  then show ?case by auto
next
  case (Suc n)
  have c: "unat (c + 1) = Suc (unat c)" by (rule next_bit [OF Suc.prems(1)])
  have l: "unat c div 8 < length dat" using Suc.prems(2) by (simp add: div_less_iff_less_mult)
  let ?m = "j < 32 \<and> bit v j"
  let ?d = "if ?m then dat[unat c div 8 := dat ! (unat c div 8) OR push_bit (unat c mod 8) 1] else dat"
  have d: "length ?d = length dat" "report_bit ?d i \<longleftrightarrow> report_bit dat i \<or> i = unat c \<and> ?m" if "i < 8 * length dat" for i
    using report_bit_update [OF l, of i] that by (auto simp: div_less_iff_less_mult mult.commute)
  have step: "set_bits (Suc n) c (push_bit j 1) v dat = set_bits n (c + 1) (push_bit (Suc j) 1) v ?d"
    unfolding set_bits.simps(2) array_load_in [OF l] option.case push_push and_bit by (cases ?m) auto
  have "unat (c + 1) + n < 2 ^ 16" "unat (c + 1) + n \<le> 8 * length ?d" using Suc.prems c by simp_all
  from Suc.IH [OF this, of "Suc j"] obtain r where r: "set_bits n (c + 1) (push_bit (Suc j) 1) v ?d = Some r" "length r = length ?d"
    "\<forall>i < 8 * length ?d. report_bit r i \<longleftrightarrow> report_bit ?d i \<or>
       unat (c + 1) \<le> i \<and> i < unat (c + 1) + n \<and> i - unat (c + 1) + Suc j < 32 \<and> bit v (i - unat (c + 1) + Suc j)"
    by blast
  have "report_bit r i \<longleftrightarrow> report_bit dat i \<or>
      unat c \<le> i \<and> i < unat c + Suc n \<and> i - unat c + j < 32 \<and> bit v (i - unat c + j)" if "i < 8 * length dat" for i
  proof -
    have b: "report_bit r i \<longleftrightarrow> (report_bit dat i \<or> i = unat c \<and> ?m) \<or>
        unat (c + 1) \<le> i \<and> i < unat (c + 1) + n \<and> i - unat (c + 1) + Suc j < 32 \<and> bit v (i - unat (c + 1) + Suc j)"
      using r(3) [rule_format, of i] d [OF that] that by (simp only:)
    consider "i < unat c" | "i = unat c" | "Suc (unat c) \<le> i" by linarith
    then show ?thesis
    proof cases
      case 3
      then have e: "i - unat (c + 1) + Suc j = i - unat c + j" using c by simp
      from 3 b [unfolded e] c show ?thesis by simp
    qed (use b c in simp_all)
  qed
  then show ?case using r(1,2) step by auto
qed

text \<open>C17. A value set in a report is read back. When the bits of an item of at most 32 bits lie inside of
  the report and are clear, as the documentation of the routine demands, then setting the value of
  the item in the report and reading it back yields the value modulo the number of bits of the
  item, in the report with the identifier of the item.
\<close>

theorem report_value_roundtrip:
  assumes "unat (ri_BitOffset it) + unat (at_BitSize (ri_Attributes it)) \<le> 8 * length dat" "length dat < 2 ^ 12"
    "\<forall>i. unat (ri_BitOffset it) \<le> i \<and> i < unat (ri_BitOffset it) + unat (at_BitSize (ri_Attributes it)) \<longrightarrow> \<not> report_bit dat i"
    "report = (if ri_ReportID it = 0 then dat else b # dat)"
  shows "\<exists>r. USB_SetHIDReportItemInfo report (Some it) = Some (r, Some (it\<lparr>ri_PreviousValue := ri_Value it\<rparr>)) \<and>
    length r = length report \<and>
    USB_GetHIDReportItemInfo r (Some it) = Some (True, Some (it\<lparr>ri_PreviousValue := ri_Value it,
      ri_Value := take_bit (unat (at_BitSize (ri_Attributes it))) (ri_Value it)\<rparr>))"
proof -
  let ?o = "ri_BitOffset it" and ?n = "unat (at_BitSize (ri_Attributes it))"
  have w: "unat ?o + ?n < 2 ^ 16" using assms(1,2) by simp
  obtain r where r: "set_bits ?n ?o 1 (ri_Value it) dat = Some r" "length r = length dat"
    "\<forall>i < 8 * length dat. report_bit r i \<longleftrightarrow> report_bit dat i \<or>
       unat ?o \<le> i \<and> i < unat ?o + ?n \<and> i - unat ?o < 32 \<and> bit (ri_Value it) (i - unat ?o)"
    using set_bits_spec [OF w assms(1), of 0 "ri_Value it"] by auto
  have w': "unat ?o + ?n \<le> 8 * length r" using assms(1) r(2) by simp
  obtain v where v: "get_bits r ?n ?o 1 0 = Some v"
    "\<forall>i. bit v i \<longleftrightarrow> i < ?n \<and> i < 32 \<and> report_bit r (unat ?o + i)"
    using get_bits_spec [OF w w', of 0 0] by auto
  have "v = take_bit ?n (ri_Value it)"
  proof (rule bit_word_eqI)
    fix i assume "i < LENGTH(32)"
    moreover have "report_bit r (unat ?o + i) \<longleftrightarrow> bit (ri_Value it) i" if "i < ?n" "i < 32"
      using r(3) assms(1,3) that by auto
    ultimately show "bit v i = bit (take_bit ?n (ri_Value it)) i" using v(2) by (auto simp: bit_simps)
  qed
  then show ?thesis
    using r(1,2) v(1) assms(4)
    by (auto simp: USB_SetHIDReportItemInfo_def USB_GetHIDReportItemInfo_def set_value_def get_value_def)
qed

theorem report_value_roundtrip_witness:
  "\<exists>r. USB_SetHIDReportItemInfo [0, 0, 0, 0] (Some (item_zero\<lparr>ri_ReportID := 7, ri_BitOffset := 3, ri_Value := 0xFFFF,
       ri_Attributes := attributes_zero\<lparr>at_BitSize := 10\<rparr>\<rparr>)) = Some (r, Some (item_zero\<lparr>ri_ReportID := 7, ri_BitOffset := 3,
       ri_Value := 0xFFFF, ri_Attributes := attributes_zero\<lparr>at_BitSize := 10\<rparr>, ri_PreviousValue := 0xFFFF\<rparr>)) \<and>
     USB_GetHIDReportItemInfo r (Some (item_zero\<lparr>ri_ReportID := 7, ri_BitOffset := 3, ri_Value := 0xFFFF,
       ri_Attributes := attributes_zero\<lparr>at_BitSize := 10\<rparr>\<rparr>)) = Some (True, Some (item_zero\<lparr>ri_ReportID := 7, ri_BitOffset := 3,
       ri_Value := 0x3FF, ri_Attributes := attributes_zero\<lparr>at_BitSize := 10\<rparr>, ri_PreviousValue := 0xFFFF\<rparr>))"
proof -
  let ?it = "item_zero\<lparr>ri_ReportID := 7, ri_BitOffset := 3, ri_Value := 0xFFFF,
      ri_Attributes := attributes_zero\<lparr>at_BitSize := 10\<rparr>\<rparr>"
  have c: "\<not> report_bit [0, 0, 0] i" if "i < 13" for i
  proof -
    have "i div 8 = 0 \<or> i div 8 = 1" using that by auto
    then show ?thesis by (auto simp: report_bit_def)
  qed
  have h: "unat (ri_BitOffset ?it) = 3" "unat (at_BitSize (ri_Attributes ?it)) = 10" "ri_ReportID ?it = 7" by simp_all
  obtain r where "USB_SetHIDReportItemInfo [0, 0, 0, 0] (Some ?it) = Some (r, Some (?it\<lparr>ri_PreviousValue := ri_Value ?it\<rparr>))"
    "USB_GetHIDReportItemInfo r (Some ?it) = Some (True, Some (?it\<lparr>ri_PreviousValue := ri_Value ?it,
      ri_Value := take_bit (unat (at_BitSize (ri_Attributes ?it))) (ri_Value ?it)\<rparr>))"
    using report_value_roundtrip [of ?it "[0, 0, 0]" "[0, 0, 0, 0]" 0] c h by auto
  moreover have "take_bit 10 (0xFFFF :: u32) = 0x3FF" by (simp add: take_bit_eq_mask mask_eq_exp_minus_1)
  ultimately show ?thesis by (intro exI [of _ r]) simp
qed

end
