(* ===== verification/HidSafety.thy ===== *)
theory HidSafety
  imports HidReport
begin

text \<open>
  The parser keeps its arrays: every index it uses lies inside of the array, whatever the report
  table holds, as long as the table does not end inside of an item. The collections form trees,
  and the largest report is at least as large as every report.
\<close>

unbundle bit_operations_syntax

subsection \<open>The invariant of the parser\<close>

definition paths_ok :: "HID_CollectionPath_t list \<Rightarrow> nat \<Rightarrow> bool" where
  "paths_ok ps m \<longleftrightarrow> length ps = HID_MAX_COLLECTIONS \<and> 1 \<le> m \<and> m \<le> HID_MAX_COLLECTIONS \<and>
     (\<forall>i q. i < HID_MAX_COLLECTIONS \<longrightarrow> cp_Parent (ps ! i) = Some q \<longrightarrow> i < m \<and> q < i) \<and>
     (\<forall>i. 1 \<le> i \<longrightarrow> i < HID_MAX_COLLECTIONS \<longrightarrow> cp_Parent (ps ! i) = None \<longrightarrow> m \<le> i)"

definition size_ok :: "u16 \<Rightarrow> HID_ReportSizeInfo_t \<Rightarrow> bool" where
  "size_ok L s \<longleftrightarrow> length (rs_ReportSizeBits s) = 3 \<and> list_all (\<lambda>b. b \<le> L) (rs_ReportSizeBits s)"

definition sizes_ok :: "HID_ReportInfo_t \<Rightarrow> bool" where
  "sizes_ok d \<longleftrightarrow> length (ReportIDSizes d) = HID_MAX_REPORT_IDS \<and> list_all (size_ok (LargestReportSizeBits d)) (ReportIDSizes d)"

lemma paths_okD:
  assumes "paths_ok ps m"
  shows "length ps = HID_MAX_COLLECTIONS" "1 \<le> m" "m \<le> HID_MAX_COLLECTIONS"
    "i < HID_MAX_COLLECTIONS \<Longrightarrow> cp_Parent (ps ! i) = Some q \<Longrightarrow> i < m \<and> q < i"
    "1 \<le> i \<Longrightarrow> i < HID_MAX_COLLECTIONS \<Longrightarrow> cp_Parent (ps ! i) = None \<Longrightarrow> m \<le> i"
  using assms unfolding paths_ok_def by blast+

lemma list_all_update: "list_all P xs \<Longrightarrow> P y \<Longrightarrow> list_all P (xs[i := y])"
  by (auto simp: list_all_iff dest!: set_update_subset_insert [THEN subsetD])

lemma list_all_nth: "list_all P xs \<Longrightarrow> i < length xs \<Longrightarrow> P (xs ! i)"
  by (simp add: list_all_length)

definition hid_inv :: "hidp \<Rightarrow> bool" where
  "hid_inv p \<longleftrightarrow> (let d = ParserData p in
     length (StateTable p) = HID_STATETABLE_STACK_DEPTH \<and> CurrStateTable p < HID_STATETABLE_STACK_DEPTH \<and>
     length (UsageList p) = HID_USAGE_STACK_DEPTH \<and> unat (UsageListSize p) \<le> HID_USAGE_STACK_DEPTH \<and>
     length (ReportItems d) = HID_MAX_REPORTITEMS \<and> unat (TotalReportItems d) \<le> HID_MAX_REPORTITEMS \<and>
     CurrReportIDInfo p < unat (TotalDeviceReports d) \<and> unat (TotalDeviceReports d) \<le> HID_MAX_REPORT_IDS \<and>
     sizes_ok d \<and>
     (\<exists>m. paths_ok (CollectionPaths d) m \<and> (\<forall>i. CurrCollectionPath p = Some i \<longrightarrow> i < m)))"

definition step_ok :: "hid_step \<Rightarrow> bool" where
  "step_ok r \<longleftrightarrow> (case r of Inl (_, p) \<Rightarrow> hid_inv p | Inr p \<Rightarrow> hid_inv p)"

lemma step_ok_simps [simp]: "step_ok (Inl (e, p)) = hid_inv p" "step_ok (Inr p) = hid_inv p"
  by (simp_all add: step_ok_def)

lemma upd_state_inv [simp]: "hid_inv (upd_state f p) = hid_inv p" "hid_inv (upd_attributes g p) = hid_inv p"
  by (simp_all add: hid_inv_def upd_state_def upd_attributes_def Let_def)

lemma upd_state_fields [simp]:
  "ParserData (upd_state f p) = ParserData p" "CurrStateTable (upd_state f p) = CurrStateTable p"
  "CurrReportIDInfo (upd_state f p) = CurrReportIDInfo p" "length (StateTable (upd_state f p)) = length (StateTable p)"
  by (simp_all add: upd_state_def)

lemma shift_usages_length [simp]: "length (shift_usages n xs) = length xs"
proof -
  have "length (fold (\<lambda>i xs. xs[i - 1 := xs ! i]) is xs) = length xs" for "is" :: "nat list" and xs :: "u16 list"
    by (induction "is" arbitrary: xs) simp_all
  then show ?thesis by (simp add: shift_usages_def)
qed

lemma next_usage_inv:
  assumes "next_usage p = (u, q)" "hid_inv p"
  shows "hid_inv q" "ParserData q = ParserData p" "CurrCollectionPath q = CurrCollectionPath p"
    "CurrReportIDInfo q = CurrReportIDInfo p" "StateTable q = StateTable p" "CurrStateTable q = CurrStateTable p"
proof -
  have "unat (UsageListSize p - 1) \<le> HID_USAGE_STACK_DEPTH" if "UsageListSize p \<noteq> 0"
  proof -
    have "unat (UsageListSize p) \<le> HID_USAGE_STACK_DEPTH" using assms(2) by (simp add: hid_inv_def Let_def)
    then show ?thesis using unat_pred [of "UsageListSize p"] that by (simp add: unat_eq_0)
  qed
  then show "hid_inv q" using assms by (auto simp: next_usage_def hid_inv_def Let_def split: if_splits)
qed (use assms(1) in \<open>auto simp: next_usage_def split: if_splits\<close>)

lemma push_inv: "hid_inv p \<Longrightarrow> step_ok (hid_push p)"
  by (auto simp: hid_push_def hid_inv_def Let_def hid_sizes)

lemma pop_inv: "hid_inv p \<Longrightarrow> step_ok (hid_pop p)"
  by (auto simp: hid_pop_def hid_inv_def Let_def)

lemma usage_inv: "hid_inv p \<Longrightarrow> step_ok (hid_usage dat p)"
  using unat_Suc_below [of "UsageListSize p" 8] by (auto simp: hid_usage_def hid_inv_def Let_def hid_sizes)

lemma end_collection_inv:
  assumes "hid_inv p"
  shows "step_ok (hid_end_collection p)"
proof (cases "CurrCollectionPath p")
  case None
  then show ?thesis using assms by (simp add: hid_end_collection_def)
next
  case (Some i)
  obtain m where m: "paths_ok (CollectionPaths (ParserData p)) m" "i < m"
    using assms Some by (auto simp: hid_inv_def Let_def)
  have "q < m" if "cp_Parent (CollectionPaths (ParserData p) ! i) = Some q" for q
    using paths_okD(3,4) [OF m(1)] m(2) that by (meson less_le_trans less_trans)
  then show ?thesis
    using assms Some m by (auto simp: hid_end_collection_def hid_inv_def Let_def)
qed

lemma find_report_less: "find_report sizes rid i n = Some j \<Longrightarrow> j < i + n"
  by (induction n arbitrary: i) (fastforce split: if_splits)+

lemma sizes_id [simp]:
  "sizes_ok (d\<lparr>UsingReportIDs := b, ReportIDSizes := (ReportIDSizes d)[i := (ReportIDSizes d ! i)\<lparr>rs_ReportID := r\<rparr>]\<rparr>)"
  if "sizes_ok d" "i < HID_MAX_REPORT_IDS"
  using that list_all_nth [of "size_ok (LargestReportSizeBits d)" "ReportIDSizes d" i]
  by (auto simp: sizes_ok_def size_ok_def intro!: list_all_update)

lemma sizes_clear: "sizes_ok d \<Longrightarrow> sizes_ok (d\<lparr>TotalDeviceReports := n, ReportIDSizes := (ReportIDSizes d)[i := size_zero]\<rparr>)"
  by (auto simp: sizes_ok_def size_ok_def size_zero_def intro!: list_all_update)

lemma set_report_id_inv:
  assumes "hid_inv p"
  shows "hid_inv (set_report_id p)"
proof -
  have "CurrReportIDInfo p < HID_MAX_REPORT_IDS" "sizes_ok (ParserData p)" using assms by (simp_all add: hid_inv_def Let_def)
  then show ?thesis using assms sizes_id by (simp add: hid_inv_def set_report_id_def upd_info_def Let_def)
qed

lemma report_id_inv:
  assumes "hid_inv p"
  shows "step_ok (hid_report_id dat p)"
proof -
  define q where "q = upd_state (st_ReportID_update (\<lambda>_. ucast dat)) p"
  have q: "hid_inv q" using assms by (simp add: q_def)
  let ?d = "ParserData q"
  have t: "unat (TotalDeviceReports ?d) \<le> HID_MAX_REPORT_IDS" "sizes_ok ?d" using q by (simp_all add: hid_inv_def Let_def)
  have found: "hid_inv (q\<lparr>CurrReportIDInfo := i\<rparr>)" if "i < unat (TotalDeviceReports ?d)" for i
    using q that by (simp add: hid_inv_def Let_def)
  have new: "hid_inv ((upd_info (\<lambda>d. d\<lparr>TotalDeviceReports := TotalDeviceReports d + 1,
      ReportIDSizes := (ReportIDSizes d)[unat (TotalDeviceReports ?d) := size_zero]\<rparr>) q)\<lparr>CurrReportIDInfo := unat (TotalDeviceReports ?d)\<rparr>)"
    if "unat (TotalDeviceReports ?d) \<noteq> HID_MAX_REPORT_IDS"
  proof -
    have "unat (TotalDeviceReports ?d + 1) = Suc (unat (TotalDeviceReports ?d))"
      by (rule unat_Suc_below [of _ 10]) (use that t(1) in \<open>simp add: hid_sizes\<close>)
    then show ?thesis using q that t sizes_clear by (simp add: hid_inv_def upd_info_def Let_def)
  qed
  have "hid_report_id dat p = (if UsingReportIDs ?d
     then case find_report (ReportIDSizes ?d) (st_ReportID (curr_state q)) 0 (unat (TotalDeviceReports ?d)) of
         Some i \<Rightarrow> Inr (set_report_id (q\<lparr>CurrReportIDInfo := i\<rparr>))
       | None \<Rightarrow> if unat (TotalDeviceReports ?d) = HID_MAX_REPORT_IDS then Inl (HID_PARSE_InsufficientReportIDItems, q)
         else Inr (set_report_id ((upd_info (\<lambda>d. d\<lparr>TotalDeviceReports := TotalDeviceReports d + 1,
           ReportIDSizes := (ReportIDSizes d)[unat (TotalDeviceReports ?d) := size_zero]\<rparr>) q)\<lparr>CurrReportIDInfo := unat (TotalDeviceReports ?d)\<rparr>))
     else Inr (set_report_id q))"
    by (simp add: hid_report_id_def q_def Let_def split: option.splits)
  then show ?thesis
    using q set_report_id_inv found new find_report_less [of _ _ 0] by (auto split: option.splits)
qed

lemma find_path_spec:
  "find_path ps i = Some j \<Longrightarrow> i \<le> j \<and> j < HID_MAX_COLLECTIONS \<and> cp_Parent (ps ! j) = None \<and>
     (\<forall>k. i \<le> k \<and> k < j \<longrightarrow> cp_Parent (ps ! k) \<noteq> None)"
proof (induction ps i rule: find_path.induct)
  case (1 ps i)
  show ?case
  proof (cases "HID_MAX_COLLECTIONS \<le> i \<or> cp_Parent (ps ! i) = None \<or> i = HID_MAX_COLLECTIONS - 1")
    case True
    then show ?thesis using "1.prems" by (subst (asm) find_path.simps) (auto split: if_splits)
  next
    case False
    then have f: "find_path ps (i + 1) = Some j" using "1.prems" by (subst (asm) find_path.simps) auto
    note n = False
    have g: "i + 1 \<le> j \<and> j < HID_MAX_COLLECTIONS \<and> cp_Parent (ps ! j) = None \<and>
        (\<forall>k. i + 1 \<le> k \<and> k < j \<longrightarrow> cp_Parent (ps ! k) \<noteq> None)"
      using "1.IH" False f by simp
    have "cp_Parent (ps ! k) \<noteq> None" if "i \<le> k" "k < j" for k
    proof (cases "k = i")
      case False
      then have "i + 1 \<le> k" using that(1) by simp
      then show ?thesis using g that(2) by blast
    qed (use n in simp)
    then show ?thesis using g by simp
  qed
qed

lemma fill_path_inv:
  assumes "hid_inv p" "i < m" "paths_ok (CollectionPaths (ParserData p)) m"
  shows "hid_inv (fill_path dat i p)"
proof -
  let ?p = "p\<lparr>CurrCollectionPath := Some i\<rparr>"
  have "hid_inv ?p" using assms by (auto simp: hid_inv_def Let_def)
  obtain u q where q: "next_usage ?p = (u, q)" by fastforce
  note n = next_usage_inv [OF q \<open>hid_inv ?p\<close>]
  have "paths_ok ((CollectionPaths (ParserData p))[i := (CollectionPaths (ParserData p) ! i)\<lparr>cp_Type := a, cp_Usage := b\<rparr>]) m" for a b
    using assms(2,3) unfolding paths_ok_def by (simp add: nth_list_update)
  then show ?thesis
    using n q assms(2) by (auto simp: fill_path_def hid_inv_def upd_info_def Let_def sizes_ok_def)
qed

lemma collection_inv:
  assumes "hid_inv p"
  shows "step_ok (hid_collection dat p)"
proof -
  let ?ps = "CollectionPaths (ParserData p)"
  obtain m where m: "paths_ok ?ps m" "\<And>i. CurrCollectionPath p = Some i \<Longrightarrow> i < m" "1 \<le> m"
    using assms by (auto simp: hid_inv_def Let_def paths_ok_def)
  show ?thesis
  proof (cases "CurrCollectionPath p")
    case None
    then show ?thesis using fill_path_inv [OF assms _ m(1), of 0] m(3) by (simp add: hid_collection_def)
  next
    case (Some q)
    show ?thesis
    proof (cases "find_path ?ps 1")
      case None
      then show ?thesis using Some assms by (simp add: hid_collection_def)
    next
      case (Some i)
      note f = find_path_spec [OF Some]
      have "m \<le> i" using f paths_okD(5) [OF m(1)] by blast
      moreover have "\<not> m < i"
      proof
        assume "m < i"
        then obtain z where "cp_Parent (?ps ! m) = Some z" "m < HID_MAX_COLLECTIONS" using f m(3) by auto
        then show False using paths_okD(4) [OF m(1)] by blast
      qed
      ultimately have i: "i = m" by simp
      have q: "q < i" using m(2) \<open>CurrCollectionPath p = Some q\<close> i by simp
      let ?p = "upd_info (\<lambda>d. d\<lparr>CollectionPaths := (CollectionPaths d)[i := (CollectionPaths d ! i)\<lparr>cp_Parent := Some q\<rparr>]\<rparr>) p"
      have ok: "paths_ok (CollectionPaths (ParserData ?p)) (Suc m)"
        using m(1) f q i unfolding paths_ok_def upd_info_def
        by (auto simp: nth_list_update less_Suc_eq Suc_le_eq split: if_splits)
      have "hid_inv ?p"
        using assms ok m(2) by (auto simp: hid_inv_def upd_info_def Let_def sizes_ok_def intro!: exI [of _ "Suc m"] less_SucI)
      from fill_path_inv [OF this _ ok, of i] show ?thesis
        using Some \<open>CurrCollectionPath p = Some q\<close> i by (simp add: hid_collection_def)
    qed
  qed
qed

lemma sizes_bits:
  assumes "sizes_ok d" "e < HID_MAX_REPORT_IDS"
  shows "sizes_ok (d\<lparr>ReportIDSizes := (ReportIDSizes d)[e := (ReportIDSizes d ! e)\<lparr>
      rs_ReportSizeBits := (rs_ReportSizeBits (ReportIDSizes d ! e))[k := bits]\<rparr>],
    LargestReportSizeBits := max (LargestReportSizeBits d) bits\<rparr>)"
proof -
  let ?L = "max (LargestReportSizeBits d) bits"
  have mono: "size_ok ?L s" if "size_ok (LargestReportSizeBits d) s" for s
    using that by (auto simp: size_ok_def list_all_iff max_def intro: order_trans)
  have all: "list_all (size_ok ?L) (ReportIDSizes d)"
    using assms(1) mono by (auto simp: sizes_ok_def list_all_iff)
  have "size_ok ?L (ReportIDSizes d ! e)" using all assms by (simp add: sizes_ok_def list_all_nth)
  then have "size_ok ?L ((ReportIDSizes d ! e)\<lparr>rs_ReportSizeBits := (rs_ReportSizeBits (ReportIDSizes d ! e))[k := bits]\<rparr>)"
    by (auto simp: size_ok_def intro: list_all_update)
  then show ?thesis using assms(1) all by (auto simp: sizes_ok_def intro: list_all_update)
qed

lemma report_item_inv:
  assumes "hid_inv p"
  shows "step_ok (hid_report_item keep junk tag dat p)"
proof -
  obtain u q where q: "next_usage p = (u, q)" by fastforce
  note n = next_usage_inv [OF q assms]
  let ?e = "CurrReportIDInfo q" and ?t = "item_type_of tag"
  let ?bits = "report_bits (ParserData q) ?e ?t + ucast (at_BitSize (st_Attributes (curr_state p)))"
  define r where "r = upd_info (\<lambda>d. d\<lparr>
      ReportIDSizes := (ReportIDSizes d)[?e := (ReportIDSizes d ! ?e)\<lparr>
        rs_ReportSizeBits := (rs_ReportSizeBits (ReportIDSizes d ! ?e))[item_type_index ?t := ?bits]\<rparr>],
      LargestReportSizeBits := max (LargestReportSizeBits d) ?bits\<rparr>) q"
  have e: "sizes_ok (ParserData q)" "?e < HID_MAX_REPORT_IDS" using n(1) by (simp_all add: hid_inv_def Let_def)
  have r: "hid_inv r"
    using n(1) sizes_bits [OF e] by (simp add: r_def hid_inv_def upd_info_def Let_def)
  have add: "hid_inv (upd_info (\<lambda>d. d\<lparr>ReportItems := (ReportItems d)[unat (TotalReportItems (ParserData r)) := new],
      TotalReportItems := TotalReportItems d + (if b then 1 else 0)\<rparr>) r)"
    if "unat (TotalReportItems (ParserData r)) \<noteq> HID_MAX_REPORTITEMS" for new b
  proof -
    have l: "unat (TotalReportItems (ParserData r)) < 20" using r that by (simp add: hid_inv_def Let_def hid_sizes)
    then have "unat (TotalReportItems (ParserData r) + 1) = Suc (unat (TotalReportItems (ParserData r)))"
      using unat_Suc_below [of "TotalReportItems (ParserData r)" 20] by simp
    then show ?thesis using r l by (auto simp: hid_inv_def upd_info_def Let_def sizes_ok_def hid_sizes)
  qed
  show ?thesis
    unfolding hid_report_item_def q Let_def prod.case r_def [symmetric] using r add by simp
qed

lemma report_items_inv: "hid_inv p \<Longrightarrow> step_ok (hid_report_items keep junk tag dat n p)"
proof (induction n arbitrary: p)
  case (Suc n)
  have "step_ok (hid_report_item keep junk tag dat p)" by (rule report_item_inv [OF Suc.prems])
  then show ?case using Suc.IH by (auto split: sum.splits)
qed simp

lemma usage_page_inv [simp]: "hid_inv (hid_usage_page item dat p) = hid_inv p"
  by (simp add: hid_usage_page_def Let_def)

lemma minmax_inv [simp]: "hid_inv (p\<lparr>UsageMinMax := m\<rparr>) = hid_inv p"
  by (simp add: hid_inv_def)

lemma item_inv: "hid_inv p \<Longrightarrow> step_ok (hid_item keep junk item dat p)"
  by (simp add: hid_item_def Let_def push_inv pop_inv report_id_inv usage_inv collection_inv end_collection_inv
      report_items_inv)

lemma main_reset_inv: "hid_inv p \<Longrightarrow> hid_inv (hid_main_reset item p)"
  by (simp add: hid_main_reset_def hid_inv_def Let_def)

lemma loop_inv: "hid_inv p \<Longrightarrow> hid_loop keep junk bs p = Some (e, q) \<Longrightarrow> hid_inv q"
proof (induction keep junk bs p rule: hid_loop.induct)
  case (2 keep junk item rest p)
  have i: "step_ok (hid_item keep junk item (item_data item rest) p)" by (rule item_inv [OF "2.prems"(1)])
  have l: "\<not> length rest < item_size item" using "2.prems"(2) by (auto split: if_splits)
  show ?case
  proof (cases "hid_item keep junk item (item_data item rest) p")
    case (Inl r)
    then show ?thesis using "2.prems"(2) l i by simp
  next
    case (Inr r)
    then have "hid_inv (hid_main_reset item r)" using i main_reset_inv by simp
    from "2.IH" [OF l Inr this] show ?thesis using "2.prems"(2) l Inr by simp
  qed
qed simp

lemma init_inv: "length us = HID_USAGE_STACK_DEPTH \<Longrightarrow> hid_inv (hidp_init st us)"
  by (auto simp: hid_inv_def hidp_init_def Let_def info_zero_def sizes_ok_def size_ok_def size_zero_def paths_ok_def
      path_zero_def hid_sizes list_all_iff intro!: exI [of _ 1])

lemma process_inv:
  assumes "length us = HID_USAGE_STACK_DEPTH" "USB_ProcessHIDReport keep junk st us bs = Some (e, q)"
  shows "hid_inv q"
  using loop_inv [OF init_inv [OF assms(1)]] assms(2) by (simp add: USB_ProcessHIDReport_def)

subsection \<open>Properties\<close>

text \<open>A report table of a mouse with three buttons.\<close>

definition mouse_table :: "byte list" where
  "mouse_table = [0x05, 0x01, 0x09, 0x02, 0xA1, 0x01, 0x09, 0x01, 0xA1, 0x00, 0x05, 0x09, 0x19, 0x01, 0x29, 0x03, 0x15, 0x00,
     0x25, 0x01, 0x95, 0x03, 0x75, 0x01, 0x81, 0x02, 0x95, 0x01, 0x75, 0x05, 0x81, 0x01, 0x05, 0x01, 0x09, 0x30, 0x09, 0x31,
     0x15, 0x81, 0x25, 0x7F, 0x75, 0x08, 0x95, 0x02, 0x81, 0x06, 0xC0, 0xC0]"

lemma mouse_parsed: "\<exists>q. USB_ProcessHIDReport (\<lambda>_. True) item_zero state_zero (replicate 8 0) mouse_table = Some (HID_PARSE_Successful, q)"
proof -
  have "(case USB_ProcessHIDReport (\<lambda>_. True) item_zero state_zero (replicate 8 0) mouse_table of
      None \<Rightarrow> False | Some (e, q) \<Rightarrow> e = HID_PARSE_Successful)" by code_simp
  then show ?thesis by (auto split: option.splits)
qed



text \<open>C31. Collections form trees. In the structure the parser fills, the parent of a collection path is
  a path of a smaller index: following the parents always ends at a path without a parent.
\<close>

theorem hid_collections_are_trees:
  assumes "length us = 8" "USB_ProcessHIDReport keep junk st us bs = Some (e, q)" "i < 10"
    "cp_Parent (CollectionPaths (ParserData q) ! i) = Some j"
  shows "j < i"
proof -
  have "hid_inv q" by (rule process_inv [OF _ assms(2)]) (simp add: assms(1) hid_sizes)
  then obtain m where m: "paths_ok (CollectionPaths (ParserData q)) m" by (auto simp: hid_inv_def Let_def)
  show ?thesis using paths_okD(4) [OF m] assms(3,4) by (simp add: hid_sizes)
qed

theorem hid_collections_are_trees_witness:
  "\<exists>q. USB_ProcessHIDReport (\<lambda>_. True) item_zero state_zero (replicate 8 0) mouse_table = Some (HID_PARSE_Successful, q) \<and>
     cp_Parent (CollectionPaths (ParserData q) ! 1) = Some 0 \<and> (0 :: nat) < 1"
proof -
  have "(case USB_ProcessHIDReport (\<lambda>_. True) item_zero state_zero (replicate 8 0) mouse_table of
      None \<Rightarrow> False | Some (e, q) \<Rightarrow> e = HID_PARSE_Successful \<and> cp_Parent (CollectionPaths (ParserData q) ! 1) = Some 0)"
    by code_simp
  then obtain q where q: "USB_ProcessHIDReport (\<lambda>_. True) item_zero state_zero (replicate 8 0) mouse_table = Some (HID_PARSE_Successful, q)"
    "cp_Parent (CollectionPaths (ParserData q) ! 1) = Some 0" by (auto split: option.splits)
  have "(0 :: nat) < 1" by (rule hid_collections_are_trees [OF _ q(1) _ q(2)]) simp_all
  with q show ?thesis by blast
qed

text \<open>C32. The largest report. In the structure the parser fills, the size of the largest report is at
  least the size of every report of every kind, also when a size has wrapped around.
\<close>

theorem hid_largest_report:
  assumes "length us = 8" "USB_ProcessHIDReport keep junk st us bs = Some (e, q)" "i < 10"
  shows "report_bits (ParserData q) i t \<le> LargestReportSizeBits (ParserData q)"
proof -
  have "hid_inv q" by (rule process_inv [OF _ assms(2)]) (simp add: assms(1) hid_sizes)
  then have s: "sizes_ok (ParserData q)" by (simp add: hid_inv_def Let_def)
  then have "size_ok (LargestReportSizeBits (ParserData q)) (ReportIDSizes (ParserData q) ! i)"
    using assms(3) by (simp add: sizes_ok_def list_all_nth hid_sizes)
  moreover have "item_type_index t < 3" by (cases t) simp_all
  ultimately show ?thesis by (simp add: size_ok_def report_bits_def list_all_length)
qed

theorem hid_largest_report_witness:
  "\<exists>q. USB_ProcessHIDReport (\<lambda>_. True) item_zero state_zero (replicate 8 0) mouse_table = Some (HID_PARSE_Successful, q) \<and>
     report_bits (ParserData q) 0 HID_REPORT_ITEM_In \<le> LargestReportSizeBits (ParserData q)"
  using mouse_parsed hid_largest_report [of "replicate 8 0" _ _ _ _ _ _ 0] by (metis length_replicate zero_less_numeral)

text \<open>The table of a mouse. The parser finds three buttons of one bit and two axes of eight bits, at
  the bit offsets 0, 1, 2, 8 and 16, with their usages and the inner collection, skips the five
  padding bits, and computes a report of 24 bits or three bytes.
\<close>

lemma mouse_report_layout:
  "(case USB_ProcessHIDReport (\<lambda>_. True) item_zero state_zero (replicate 8 0) mouse_table of
      None \<Rightarrow> None
    | Some (e, q) \<Rightarrow> Some (e, TotalReportItems (ParserData q),
        map (\<lambda>it. (ri_BitOffset it, at_BitSize (ri_Attributes it), us_Usage (at_Usage (ri_Attributes it)), ri_CollectionPath it))
          (take 5 (ReportItems (ParserData q))),
        LargestReportSizeBits (ParserData q), USB_GetHIDReportSize (ParserData q) 0 HID_REPORT_ITEM_In)) =
   Some (HID_PARSE_Successful, 5, [(0, 1, 1, Some 1), (1, 1, 2, Some 1), (2, 1, 3, Some 1), (8, 8, 0x30, Some 1),
     (16, 8, 0x31, Some 1)], 24, 3)"
  by code_simp



end
