(* ===== verification/DeviceProperties.thy ===== *)
theory DeviceProperties
  imports ScopeProtocol
begin

section \<open>Properties of the device routines\<close>

text \<open>
  What the routines below the command loop do: the size code of an endpoint, the setup packet, the
  bus reset, the configuration request, and the converter, transfer and trigger routines the
  acquisition command calls. The lemmas on the interrupt say which parts of the state asynchronous
  activity cannot touch.
\<close>

unbundle bit_operations_syntax

subsection \<open>What the interrupt leaves alone\<close>

lemma periph_ops [simp]:
  "periph (hw (Endpoint_SelectEndpoint a s)) = periph (hw s)" "periph (hw (raise_fault s)) = periph (hw s)"
  "periph (hw (upd_FIFO g s)) = periph (hw s)" "periph (hw (upd_Handle f s)) = periph (hw s)"
  "periph (hw (upd_table e f s)) = periph (hw s)" "periph (hw (USB_INT_Clear i s)) = periph (hw s)"
  "periph (hw (USB_Device_EnableDeviceAddress b s)) = periph (hw s)" "periph (usb_update g' x) = periph x"
  by (simp_all add: Endpoint_SelectEndpoint_def upd_FIFO_def upd_Handle_def upd_table_def periph_def
      USB_Device_EnableDeviceAddress_def split: option.splits) (cases i; simp)+

lemma periph_clear: "periph (hw (Endpoint_ClearEndpoints s)) = periph (hw s)"
proof -
  have "periph (hw (fold (\<lambda>n s. upd_table (EpOUT n) (EP_CTRL_update (\<lambda>_. 0)) (upd_table (EpIN n) (EP_CTRL_update (\<lambda>_. 0)) s)) ns s))
      = periph (hw s)" for ns
    by (induction ns arbitrary: s) simp_all
  then show ?thesis by (simp add: Endpoint_ClearEndpoints_def)
qed

lemma periph_control: "periph (hw (configure_control_endpoint s)) = periph (hw s)"
  by (simp add: configure_control_endpoint_def Endpoint_ConfigureEndpoint_def Endpoint_ConfigureEndpoint_PRV_def
      ep_consts Let_def)

lemma periph_irq: "periph (hw (irq s)) = periph (hw s)"
proof -
  have u: "periph (hw (s\<lparr>DeviceState := d\<rparr>)) = periph (hw s)" "periph (hw (s\<lparr>DeviceState := d, ConfigurationNumber := n\<rparr>)) = periph (hw s)" for s d n
    by simp_all
  have "periph (hw (isr_SOFI s)) = periph (hw s)" "periph (hw (isr_Suspend s)) = periph (hw s)"
    "periph (hw (isr_Resume s)) = periph (hw s)" "periph (hw (isr_Reset s)) = periph (hw s)" for s
    by (simp_all add: isr_SOFI_def isr_Suspend_def isr_Resume_def isr_Reset_def Let_def USB_Event_Stub_def
      EVENT_USB_Device_Disconnect_def EVENT_USB_Device_Connect_def periph_control periph_clear)
  then show ?thesis by (simp add: irq_def ISR_USB_BUSEVENT_vect_def)
qed

lemma sched_ops [simp]:
  "sched (Endpoint_SelectEndpoint a s) = sched s" "sched (upd_FIFO g s) = sched s" "sched (upd_Handle f s) = sched s"
  "sched (upd_table e f s) = sched s" "sched (USB_Device_EnableDeviceAddress b s) = sched s"
  by (simp_all add: Endpoint_SelectEndpoint_def upd_FIFO_def upd_Handle_def upd_table_def USB_Device_EnableDeviceAddress_def
      split: option.splits)

lemma sched_irq: "sched (irq s) = sched s"
proof -
  have "sched (fold (\<lambda>n s. upd_table (EpOUT n) (EP_CTRL_update (\<lambda>_. 0)) (upd_table (EpIN n) (EP_CTRL_update (\<lambda>_. 0)) s)) ns s)
      = sched s" for ns s
    by (induction ns arbitrary: s) simp_all
  then have "sched (isr_Reset s) = sched s" for s
    by (simp add: isr_Reset_def Let_def USB_Event_Stub_def Endpoint_ClearEndpoints_def configure_control_endpoint_def
      Endpoint_ConfigureEndpoint_def Endpoint_ConfigureEndpoint_PRV_def ep_consts)
  moreover have "sched (isr_SOFI s) = sched s" "sched (isr_Suspend s) = sched s" "sched (isr_Resume s) = sched s" for s
    by (simp_all add: isr_SOFI_def isr_Suspend_def isr_Resume_def Let_def USB_Event_Stub_def
      EVENT_USB_Device_Disconnect_def EVENT_USB_Device_Connect_def)
  ultimately show ?thesis by (simp add: irq_def ISR_USB_BUSEVENT_vect_def)
qed

lemma sched_poll: "sched (poll s) = tl (sched s)"
  by (cases "sched s") (simp_all add: poll_def sched_irq)

lemma periph_poll:
  assumes "\<And>h. h \<in> set (sched s) \<Longrightarrow> f (periph (h (hw s))) = f (periph (hw s))"
  shows "f (periph (hw (poll s))) = f (periph (hw s))"
  using assms by (cases "sched s") (simp_all add: poll_def periph_irq)

subsection \<open>Endpoint sizes\<close>

text \<open>C39. The code of an endpoint size. For sizes of at most 32768 bytes the computation of the size code
  ends, and its code is the least one whose bank holds the endpoint; for larger sizes it never ends.
\<close>

theorem size_code_returns:
  "case Endpoint_BytesToEPSizeMask Bytes of
     None \<Rightarrow> 0x8000 < Bytes
   | Some m \<Rightarrow> Bytes \<le> 0x8000 \<and> unat Bytes \<le> 8 * 2 ^ unat m \<and> (m = 0 \<or> 8 * 2 ^ (unat m - 1) < unat Bytes)"
proof (cases "Bytes \<le> 0x8000")
  case True
  obtain k where k: "Endpoint_BytesToEPSizeMask Bytes = Some (of_nat k)" "k \<le> 12" "unat Bytes \<le> 8 * 2 ^ k"
    "k = 0 \<or> 8 * 2 ^ (k - 1) < unat Bytes" using BytesToEPSizeMask_small [OF True] by blast
  have "unat (of_nat k :: byte) = k" using k(2) by (simp add: unat_of_nat take_bit_eq_mod)
  then show ?thesis using k True by auto
next
  case False
  then show ?thesis by (simp add: BytesToEPSizeMask_large not_le)
qed

subsection \<open>Requests\<close>

text \<open>The setup packet. Reading the eight bytes of a request header as the device does gives back the
  header they were made from.
\<close>

lemma request_roundtrip: "request_of_bytes (header_bytes q) = q"
proof -
  have "le16 (ucast v) (ucast (drop_bit 8 v)) = v" for v :: u16
    by (rule bit_word_eqI) (auto simp: le16_def bit_simps)
  then show ?thesis
    by (intro USB_Request_Header_t.equality) (simp_all add: request_of_bytes_def header_bytes_def bytes16_def)
qed

subsection \<open>Bus reset\<close>

lemma reset_flag_kept:
  "USB_INTFLAGSA (usb (hw (isr_Resume (isr_Suspend (isr_SOFI s))))) AND USB_RSTIF_bm = USB_INTFLAGSA (usb (hw s)) AND USB_RSTIF_bm"
proof -
  have w: "write_flags m f AND USB_RSTIF_bm = f AND USB_RSTIF_bm" if "m AND USB_RSTIF_bm = 0" for m f
  proof (rule bit_word_eqI)
    fix i
    have "bit (m AND USB_RSTIF_bm) i = False" using that by simp
    then show "bit (write_flags m f AND USB_RSTIF_bm) i = bit (f AND USB_RSTIF_bm) i"
      by (auto simp: write_flags_def bit_simps dest: bit_imp_le_length)
  qed
  have "write_flags USB_SOFIF_bm f AND USB_RSTIF_bm = f AND USB_RSTIF_bm" "write_flags USB_SUSPENDIF_bm f AND USB_RSTIF_bm = f AND USB_RSTIF_bm"
    "write_flags USB_RESUMEIF_bm f AND USB_RSTIF_bm = f AND USB_RSTIF_bm" for f by (rule w, simp add: usb_masks)+
  then show ?thesis
    by (simp add: isr_SOFI_def isr_Suspend_def isr_Resume_def Let_def USB_Event_Stub_def
      EVENT_USB_Device_Disconnect_def EVENT_USB_Device_Connect_def)
qed



subsection \<open>Gain\<close>

text \<open>The gain is only ever raised bit by bit. Setting the gain of the converter channel twice has the
  effect of setting the union of the bits of both values, and setting it to zero has no effect:
  a gain that has been set is not taken back by a later setting.
\<close>

lemma gain_accumulates:
  "adc_ch_gain g2 (adc_ch_gain g1 c) = adc_ch_gain (g1 OR g2) c \<and> adc_ch_gain 0 c = c"
  by (intro conjI adc_ch_t.equality) (simp_all add: adc_ch_gain_def or.assoc)

subsection \<open>Acquisition\<close>

lemma dma_periph: "periph x = periph y \<Longrightarrow> dma x = dma y" "periph x = periph y \<Longrightarrow> porta x = porta y"
  "periph x = periph y \<Longrightarrow> tcd0 x = tcd0 y"
  by (simp_all add: periph_def)

text \<open>C37. The acquisition is not awaited. When the hardware has not finished the transfer by itself, the
  routine that reads samples returns after it has looked at the channel once, with the transfer
  set up for the given number of bytes at the given address and still enabled: the loop that
  should wait for the end of the transfer waits for its start.
\<close>

theorem acquisition_not_awaited:
  assumes "list_all (\<lambda>h. \<forall>x. dma (h x) = dma x) (sched s)"
  shows "\<exists>t. dmaadc_read_buf_ch0 buf len b s = Some t \<and> sched t = tl (sched s) \<and>
    DCH_CTRLA (DMA_CH0 (dma (hw t))) AND DMA_CH_ENABLE_bm \<noteq> 0 \<and> DCH_TRFCNT (DMA_CH0 (dma (hw t))) = len \<and>
    DCH_DESTADDR0 (DMA_CH0 (dma (hw t))) = ucast (buf AND 0xFF) \<and>
    DCH_DESTADDR1 (DMA_CH0 (dma (hw t))) = ucast (drop_bit 8 buf AND 0xFF)"
proof -
  define u where "u = GlobalInterruptDisable (upd_CH0 (adc_ch_intlvl ADC_CH_INTLVL_LO_gc)
      (upd_dma (DMA_CH0_update (DCH_CTRLA_update (\<lambda>x. x OR DMA_CH_ENABLE_bm)))
      (upd_dma (DMA_INTFLAGS_update (write_flags 0)) (upd_dma (DMA_CH0_update (set_dest buf))
      (upd_dma (DMA_CH0_update (DCH_CTRLA_update (\<lambda>x. x OR DMA_CH_REPEAT_bm)))
      (upd_dma (DMA_CH0_update (DCH_TRFCNT_update (\<lambda>_. len))) (upd_dma (DMA_CH0_update (DCH_REPCNT_update (\<lambda>_. 1))) s)))))))"
  let ?c = "DMA_CH0 (dma (hw u))"
  have u: "sched u = sched s" "\<not> sreg_I u" "DCH_CTRLA ?c AND DMA_CH_ENABLE_bm \<noteq> 0" "DCH_TRFCNT ?c = len"
    "DCH_DESTADDR0 ?c = ucast (buf AND 0xFF)" "DCH_DESTADDR1 ?c = ucast (drop_bit 8 buf AND 0xFF)"
    by (simp_all add: u_def GlobalInterruptDisable_def set_dest_def DMA_CH_ENABLE_bm_def)
  have p: "dma (hw (poll u)) = dma (hw u)" "sched (poll u) = tl (sched s)"
    using assms u(1,2) by (cases "sched s"; simp add: poll_def irq_def)+
  have w: "dma_start_wait u = Some (poll u)" using u(3) p(1) by (subst dma_start_wait.simps) simp
  let ?t = "upd_CH0 (adc_ch_intlvl ADC_CH_INTLVL_OFF_gc) (SetGlobalInterruptMask True (poll u))"
  have "dma (hw (SetGlobalInterruptMask True (poll u))) = dma (hw u)"
    using dma_periph(1) [OF periph_irq] p(1) by (simp add: SetGlobalInterruptMask_def)
  moreover have "sched (SetGlobalInterruptMask True (poll u)) = tl (sched s)"
    using p(2) sched_irq by (simp add: SetGlobalInterruptMask_def)
  moreover have "dmaadc_read_buf_ch0 buf len b s = Some ?t"
    unfolding dmaadc_read_buf_ch0_def Let_def u_def [symmetric] w by simp
  ultimately show ?thesis using u by simp
qed

theorem acquisition_not_awaited_witness:
  "\<exists>t. dmaadc_read_buf_ch0 0x2000 3584 True configured_fw = Some t \<and> DCH_CTRLA (DMA_CH0 (dma (hw t))) AND 0x80 \<noteq> 0"
  using acquisition_not_awaited [of configured_fw "0x2000" 3584 True] by (auto simp: configured_fw_def DMA_CH_ENABLE_bm_def)

lemma trigger_loop_quiet:
  assumes "list_all (\<lambda>h. \<forall>x. porta (h x) = porta x) (sched s)" "PORT_INTFLAGS (porta (hw s)) = 0"
  shows "fst (trigger_loop n s) = 0"
  using assms
proof (induction n s rule: trigger_loop.induct)
  case (1 n s)
  have p: "porta (hw (poll s)) = porta (hw s)"
    using "1.prems"(1) dma_periph(2) [OF periph_irq] by (cases "sched s") (simp_all add: poll_def)
  have q: "list_all (\<lambda>h. \<forall>x. porta (h x) = porta x) (sched (poll s))"
    using "1.prems"(1) by (cases "sched s") (simp_all add: sched_poll)
  show ?case
    using "1.IH" "1.prems"(2) p q by (subst trigger_loop.simps) (auto simp: word_gt_0)
qed

text \<open>C38. Without a trigger the wait for it ends. When the trigger pin stays quiet, the wait returns after
  its number of iterations, reports the timeout and leaves the timer stopped.
\<close>

theorem trigger_wait_times_out:
  assumes "list_all (\<lambda>h. \<forall>x. porta (h x) = porta x) (sched s)" "PORT_INTFLAGS (porta (hw s)) AND NOT 3 = 0"
  shows "\<exists>t. trigger_wait n d s = Some (1, t) \<and> TC_CTRLA (tcd0 (hw t)) = 0"
proof -
  have "fst (trigger_loop n u) = 0" if "sched u = sched s" "PORT_INTFLAGS (porta (hw u)) = write_flags 3 (PORT_INTFLAGS (porta (hw s)))" for u
    by (rule trigger_loop_quiet) (use that assms in \<open>simp_all add: write_flags_def\<close>)
  then show ?thesis
    unfolding trigger_wait_def Let_def by (simp add: case_prod_unfold)
qed

theorem trigger_wait_times_out_witness: "\<exists>t. trigger_wait 40000 0 configured_fw = Some (1, t)"
  using trigger_wait_times_out [of configured_fw 40000 0] by (auto simp: configured_fw_def reset_hw_def reset_port_def)

subsection \<open>Configuration\<close>

lemma state_ops [simp]:
  "DeviceState (Endpoint_SelectEndpoint a s) = DeviceState s" "DeviceState (upd_FIFO g s) = DeviceState s"
  "DeviceState (upd_Handle f s) = DeviceState s"
  by (simp_all add: Endpoint_SelectEndpoint_def upd_FIFO_def upd_Handle_def raise_fault_def split: option.splits)

lemma ConfigureEndpoint_state:
  "returns (Endpoint_ConfigureEndpoint a t n b s) (\<lambda>(ok, u). DeviceState u = DeviceState s)"
  by (cases "Endpoint_BytesToEPSizeMask n")
    (simp_all add: Endpoint_ConfigureEndpoint_def Endpoint_ConfigureEndpoint_PRV_def Let_def)

lemma ConfigureTable_state:
  "returns (Endpoint_ConfigureEndpointTable ts s) (\<lambda>(ok, u). DeviceState u = DeviceState s)"
proof (induction ts arbitrary: s)
  case (Cons t ts)
  show ?case
  proof (cases "Address t = 0")
    case False
    have "returns (Endpoint_ConfigureEndpoint (Address t) (Type t) (Size t) (Banks t) s)
        (\<lambda>(ok, u). returns (if ok then Endpoint_ConfigureEndpointTable ts u else Some (False, u)) (\<lambda>(ok, u). DeviceState u = DeviceState s))"
      by (rule returns_mono [OF ConfigureEndpoint_state]) (use Cons.IH in \<open>fastforce intro: returns_mono\<close>)
    then show ?thesis using False by (simp add: case_prod_unfold)
  qed (use Cons.IH in simp)
qed simp

lemma ConfigureTable_then:
  assumes "DeviceState u = d" and "\<And>v. DeviceState v = d \<Longrightarrow> returns (K v) (\<lambda>(ok, w). DeviceState w = d)"
  shows "returns (Endpoint_ConfigureEndpointTable ts u \<bind> (\<lambda>(ok, v). if \<not> ok then Some (False, v) else K v))
    (\<lambda>(ok, w). DeviceState w = d)"
  unfolding returns_simps by (rule returns_mono [OF ConfigureTable_state]) (use assms in \<open>auto split: prod.split\<close>)

lemma ConfigureEndpoints_state:
  "returns (CDC_Device_ConfigureEndpoints s) (\<lambda>(ok, u). DeviceState u = DeviceState s)"
  unfolding CDC_Device_ConfigureEndpoints_def Let_def
  by (intro ConfigureTable_then) simp_all

declare wait_INReady.simps [code] ep_size_loop.simps [code]

definition unconfigure_fw :: fw where
  "unconfigure_fw = (upd_usb (USB_ADDR_update (\<lambda>_. 5)) (hw_update (eptable_update (\<lambda>t. t(EpIN 0 := ep_zero\<lparr>EP_STATUS := USB_EP_BUSNACK0_bm\<rparr>))) configured_fw))\<lparr>
     ControlRequest := \<lparr>bmRequestType = 0, bRequest = 9, wValue = 0, wIndex = 0, wLength = 0\<rparr>, ConfigurationNumber := 1\<rparr>"

lemma sizes_known: "Endpoint_BytesToEPSizeMask 64 = Some 3" "Endpoint_BytesToEPSizeMask 8 = Some 0"
  by code_simp+

lemma CDC_ops [simp]: "CDC (Endpoint_SelectEndpoint a s) = CDC s" "CDC (upd_FIFO g s) = CDC s"
  "CDC (upd_Handle f s) = CDC s"
  by (simp_all add: Endpoint_SelectEndpoint_def upd_FIFO_def upd_Handle_def raise_fault_def split: option.splits)

lemma ConfigureEntry_yields:
  assumes "Size e = 64 \<or> Size e = 8"
  shows "yields (Endpoint_ConfigureEndpointTable [e] s) (\<lambda>(ok, u). CDC u = CDC s)"
  using assms sizes_known
  by (auto simp: yields_def Endpoint_ConfigureEndpoint_def Endpoint_ConfigureEndpoint_PRV_def Let_def)

lemma ConfigureEntry_then:
  assumes "Size e = 64 \<or> Size e = 8" and "\<And>v. CDC v = CDC s \<Longrightarrow> yields (K v) (\<lambda>_. True)"
  shows "yields (Endpoint_ConfigureEndpointTable [e] s \<bind> (\<lambda>(ok, v). if \<not> ok then Some (False, v) else K v)) (\<lambda>_. True)"
  unfolding yields_simps by (rule yields_mono [OF ConfigureEntry_yields]) (use assms in \<open>auto split: prod.split\<close>)

lemma ConfigureEndpoints_returns:
  assumes "\<forall>e \<in> {DataINEndpoint (CDC s), DataOUTEndpoint (CDC s), NotificationEndpoint (CDC s)}. Size e = 64 \<or> Size e = 8"
  shows "yields (CDC_Device_ConfigureEndpoints s) (\<lambda>_. True)"
  unfolding CDC_Device_ConfigureEndpoints_def Let_def
  by (intro ConfigureEntry_then) (use assms in \<open>simp_all add: clear_cdc_state_def\<close>)

lemma status_stage_runs:
  "case Endpoint_ClearStatusStage ((Endpoint_ClearSETUP unconfigure_fw)\<lparr>ConfigurationNumber := 0\<rparr>) of None \<Rightarrow> False
    | Some t \<Rightarrow> (\<forall>e \<in> {DataINEndpoint (CDC t), DataOUTEndpoint (CDC t), NotificationEndpoint (CDC t)}. Size e = 64 \<or> Size e = 8)"
  by code_simp

lemma unconfigure_returns: "\<exists>t. USB_Device_SetConfiguration unconfigure_fw = Some t"
proof -
  have r: "ucast (wValue (ControlRequest unconfigure_fw)) = (0 :: byte)"
    "ucast (wValue (ControlRequest (Endpoint_ClearSETUP unconfigure_fw))) = (0 :: byte)" by code_simp+
  obtain u where u: "Endpoint_ClearStatusStage ((Endpoint_ClearSETUP unconfigure_fw)\<lparr>ConfigurationNumber := 0\<rparr>) = Some u"
    "\<forall>e \<in> {DataINEndpoint (CDC u), DataOUTEndpoint (CDC u), NotificationEndpoint (CDC u)}. Size e = 64 \<or> Size e = 8"
    using status_stage_runs by (auto split: option.splits)
  have "yields (USB_Device_SetConfiguration unconfigure_fw) (\<lambda>_. True)"
    unfolding USB_Device_SetConfiguration_def Let_def r EVENT_USB_Device_ConfigurationChanged_def u(1) bind.bind_lunit yields_simps
    using ConfigureEndpoints_returns [of "if ConfigurationNumber u \<noteq> 0 then u\<lparr>DeviceState := DEVICE_STATE_Configured\<rparr>
      else u\<lparr>DeviceState := (if USB_Device_IsAddressSet u then DEVICE_STATE_Configured else DEVICE_STATE_Powered)\<rparr>"] u(2)
    by (simp add: FIXED_NUM_CONFIGURATIONS_def case_prod_unfold split: if_splits)
  then show ?thesis by (auto simp: yields_def)
qed

text \<open>C40. Unconfiguring the device. A request for configuration zero is meant to take a configured device
  back to the addressed state, which is what the resume interrupt computes from the same two
  registers; after every request that is served the device is in the configured
  or in the powered state, never in the addressed state.
\<close>

theorem set_configuration_never_addressed:
  assumes "ucast (wValue (ControlRequest s)) \<le> FIXED_NUM_CONFIGURATIONS" "USB_Device_SetConfiguration s = Some t"
  shows "DeviceState t = DEVICE_STATE_Configured \<or> DeviceState t = DEVICE_STATE_Powered"
proof -
  have C: "DeviceState v = DeviceState u" if "EVENT_USB_Device_ConfigurationChanged u = Some v" for u v
    using that returnsD [OF ConfigureEndpoints_state [of u]] by (auto simp: EVENT_USB_Device_ConfigurationChanged_def bind_eq_Some_conv)
  obtain u where "EVENT_USB_Device_ConfigurationChanged (if ConfigurationNumber u \<noteq> 0 then u\<lparr>DeviceState := DEVICE_STATE_Configured\<rparr>
      else u\<lparr>DeviceState := (if USB_Device_IsAddressSet u then DEVICE_STATE_Configured else DEVICE_STATE_Powered)\<rparr>) = Some t"
    using assms unfolding USB_Device_SetConfiguration_def Let_def not_less [symmetric]
    by (auto simp: bind_eq_Some_conv split del: if_split)
  from C [OF this] show ?thesis by (simp split: if_splits)
qed

theorem set_configuration_never_addressed_witness:
  "\<exists>t. USB_Device_SetConfiguration unconfigure_fw = Some t
    \<and> (DeviceState t = DEVICE_STATE_Configured \<or> DeviceState t = DEVICE_STATE_Powered)"
proof -
  obtain t where "USB_Device_SetConfiguration unconfigure_fw = Some t" using unconfigure_returns by auto
  moreover have "ucast (wValue (ControlRequest unconfigure_fw)) \<le> FIXED_NUM_CONFIGURATIONS"
    by (simp add: unconfigure_fw_def)
  ultimately show ?thesis using set_configuration_never_addressed [of unconfigure_fw t] by blast
qed

end
