(* ===== verification/TargetLink.thy ===== *)
theory TargetLink
  imports HostScope Toe
begin

text \<open>
  The target of a measurement as the host scripts see it. The scripts hold two serial ports, one to
  the oscilloscope board and one to the target; both belong to the same world, on which the
  operations of the two ports act. The interface of the target is a locale: what its port
  answers to the test command and to a block. Both Arduino sketches provide it.
\<close>

subsection \<open>The port of the target\<close>

text \<open>
  The port is open from the start of a script to its end, with the timeout \<open>tm\<close> of the script. The
  world is the device of the oscilloscope object.
\<close>

definition target_write :: "'w pyserial \<Rightarrow> byte list \<Rightarrow> ('w, unit) act" where
  "target_write tp bs h = (case ser_write tp bs (device h) of (ok, w) \<Rightarrow>
     (if ok then Inr () else Inl SerialException, h\<lparr>device := w\<rparr>))"

definition target_read :: "'w pyserial \<Rightarrow> rat \<Rightarrow> int \<Rightarrow> ('w, byte list) act" where
  "target_read tp tm n h = (case ser_read tp tm n (device h) of (r, w) \<Rightarrow>
     (case r of None \<Rightarrow> Inl SerialException | Some bs \<Rightarrow> Inr bs, h\<lparr>device := w\<rparr>))"

text \<open>The loop of \<open>testTarget\<close>: it asks until the target answers its test.\<close>

definition test_answer :: "byte list" where "test_answer = text_bytes ''T'' @ toe_crlf"

partial_function (option) testTarget_loop ::
  "'w pyserial \<Rightarrow> rat \<Rightarrow> 'w Scope_obj \<Rightarrow> ((host_error + unit) \<times> 'w Scope_obj) option" where
  "testTarget_loop tp tm h =
    (case py_then (target_write tp [ch CHR ''t'']) (target_read tp tm 100) h of
       (Inl e, h) \<Rightarrow> Some (Inl e, h)
     | (Inr r, h) \<Rightarrow> if r = test_answer then Some (Inr (), h) else testTarget_loop tp tm h)"

text \<open>A world made of two devices that do not touch each other.\<close>

definition on_scope :: "'d pyserial \<Rightarrow> ('d \<times> 't) pyserial" where
  "on_scope sp = \<lparr>ser_open = (\<lambda>p t (d, x). apsnd (\<lambda>d. (d, x)) (ser_open sp p t d)),
     ser_close = (\<lambda>(d, x). (ser_close sp d, x)),
     ser_write = (\<lambda>bs (d, x). apsnd (\<lambda>d. (d, x)) (ser_write sp bs d)),
     ser_read = (\<lambda>t n (d, x). apsnd (\<lambda>d. (d, x)) (ser_read sp t n d))\<rparr>"

definition on_target :: "'t pyserial \<Rightarrow> ('d \<times> 't) pyserial" where
  "on_target tp = \<lparr>ser_open = (\<lambda>p t (d, x). apsnd (Pair d) (ser_open tp p t x)),
     ser_close = (\<lambda>(d, x). (d, ser_close tp x)),
     ser_write = (\<lambda>bs (d, x). apsnd (Pair d) (ser_write tp bs x)),
     ser_read = (\<lambda>t n (d, x). apsnd (Pair d) (ser_read tp t n x))\<rparr>"

lemma on_scope_simps [simp]:
  "ser_open (on_scope sp) p t w = (fst (ser_open sp p t (fst w)), snd (ser_open sp p t (fst w)), snd w)"
  "ser_close (on_scope sp) w = (ser_close sp (fst w), snd w)"
  "ser_write (on_scope sp) bs w = (fst (ser_write sp bs (fst w)), snd (ser_write sp bs (fst w)), snd w)"
  "ser_read (on_scope sp) t n w = (fst (ser_read sp t n (fst w)), snd (ser_read sp t n (fst w)), snd w)"
  by (simp_all add: on_scope_def case_prod_unfold apsnd_def map_prod_def)

lemma on_target_simps [simp]:
  "ser_write (on_target tp) bs w = (fst (ser_write tp bs (snd w)), fst w, snd (ser_write tp bs (snd w)))"
  "ser_read (on_target tp) t n w = (fst (ser_read tp t n (snd w)), fst w, snd (ser_read tp t n (snd w)))"
  by (simp_all add: on_target_def case_prod_unfold apsnd_def map_prod_def)

subsection \<open>What the oscilloscope class leaves alone\<close>

text \<open>
  Whatever answers at the port of the oscilloscope, its methods do not touch the target, and the
  ones the script calls keep the number of samples and the width.
\<close>

definition keeps :: "('d Scope_obj \<Rightarrow> bool) \<Rightarrow> ('d, 'a) act \<Rightarrow> bool" where
  "keeps I m \<longleftrightarrow> (\<forall>h. I h \<longrightarrow> I (snd (m h)))"

lemma keepsD: "keeps I m \<Longrightarrow> m h = (r, h') \<Longrightarrow> I h \<Longrightarrow> I h'"
  by (force simp: keeps_def)

lemma keeps_basic:
  "keeps I (py_return x)" "keeps I (py_raise e)" "keeps I (py_assert b)" "(\<And>h. I h \<Longrightarrow> I (f h)) \<Longrightarrow> keeps I (py_set f)"
  by (simp_all add: keeps_def py_return_def py_raise_def py_assert_def py_set_def)

lemma keeps_bind: "keeps I m \<Longrightarrow> (\<And>x. keeps I (f x)) \<Longrightarrow> keeps I (py_bind m f)"
  by (auto simp: keeps_def py_bind_def split: prod.splits sum.splits)

lemma keeps_then: "keeps I m \<Longrightarrow> keeps I k \<Longrightarrow> keeps I (py_then m k)"
  by (simp add: py_then_def keeps_bind)

lemma keeps_if: "keeps I m \<Longrightarrow> keeps I k \<Longrightarrow> keeps I (if b then m else k)"
  by simp

lemma keeps_state: "(\<And>h. I h \<Longrightarrow> keeps I (f h)) \<Longrightarrow> keeps I (\<lambda>h. f h h)"
  by (simp add: keeps_def)

definition kept :: "'t \<Rightarrow> int \<Rightarrow> bool \<Rightarrow> ('d \<times> 't) Scope_obj \<Rightarrow> bool" where
  "kept x n b h \<longleftrightarrow> snd (device h) = x \<and> numSamples h = n \<and> self_bits12 h = b"

lemma kept_write: "keeps (kept x n b) (serial_write (on_scope sp) bs)"
  by (simp add: keeps_def kept_def serial_write_def split: option.splits sum.splits)

lemma kept_read: "keeps (kept x n b) (serial_read (on_scope sp) k)"
  by (simp add: keeps_def kept_def serial_read_def split: option.splits)

lemmas keeps_intros = keeps_then keeps_bind keeps_if keeps_basic kept_write kept_read

lemma kept_check: "keeps (kept x n b) (checkResponse (on_scope sp))"
  unfolding checkResponse_def by (intro keeps_intros)

lemma kept_test: "keeps (kept x n b) (testScope (on_scope sp))"
proof -
  have "keeps (kept x n b) (py_then (py_set (self_serial_update (\<lambda>_. Some (2 / 10))))
       (py_then (serial_write (on_scope sp) [py_ord CHR ''t''])
       (py_bind (serial_read (on_scope sp) 10) (\<lambda>val.
          py_then (py_set (self_serial_update (\<lambda>_. Some old))) (py_return (val = [ch CHR ''T''])))))) " for old
    by (intro keeps_intros) (simp_all add: kept_def)
  then show ?thesis unfolding keeps_def testScope_def by (simp split: option.splits)
qed

lemma kept_arm: "keeps (kept x n b) (arm (on_scope sp))"
  unfolding arm_def by (intro keeps_intros)

lemma kept_wait: "keeps (kept x n b) (waitForCompletion (on_scope sp))"
  unfolding waitForCompletion_def by (intro keeps_intros)

lemma kept_power: "keeps (kept x n b) (powerOn (on_scope sp))" "keeps (kept x n b) (powerOff (on_scope sp))"
  unfolding powerOn_def powerOff_def by (intro keeps_intros kept_check)+

lemma kept_glitch: "keeps (kept x n b) (setDelay (on_scope sp) c)" "keeps (kept x n b) (setGlitchLength (on_scope sp) c)"
  "keeps (kept x n b) (setPulses (on_scope sp) c)" "keeps (kept x n b) (glitchArm (on_scope sp))"
  "keeps (kept x n b) (waitForGlitcher (on_scope sp))"
  unfolding setDelay_def setGlitchLength_def setPulses_def glitchArm_def waitForGlitcher_def
  by (intro keeps_intros kept_check; simp add: kept_def)+

lemma kept_settings: "keeps (kept x n b) (reconnect_settings (on_scope sp))"
proof -
  have s: "keeps (kept x n b) (setSamples (on_scope sp) n)" "keeps (kept x n b) (setSampleSpeed (on_scope sp) c)"
    "keeps (kept x n b) (setBias (on_scope sp) c)" "keeps (kept x n b) (setGain (on_scope sp) c)"
    "keeps (kept x n b) (setDelay (on_scope sp) c)" for c
    unfolding setSamples_def setSampleSpeed_def setBias_def setGain_def setDelay_def
    by ((intro keeps_intros kept_check)?; simp add: kept_def)+
  have "keeps (kept x n b) (\<lambda>h. if self_bits12 h then serial_write (on_scope sp) [py_ord CHR ''8'', 1] h
      else serial_write (on_scope sp) [py_ord CHR ''8'', 0] h)"
    using kept_write [of x n b sp] by (simp add: keeps_def)
  then have b: "keeps (kept x n b) (set12Bits (on_scope sp) b)"
    unfolding set12Bits_def by (intro keeps_then keeps_basic(4) kept_check) (simp_all add: kept_def)
  have "keeps (kept x n b) (\<lambda>h. setSamples (on_scope sp) (numSamples h) h)"
    "keeps (kept x n b) (\<lambda>h. set12Bits (on_scope sp) (self_bits12 h) h)"
    "keeps (kept x n b) (\<lambda>h. setSampleSpeed (on_scope sp) (clockDivider h) h)"
    "keeps (kept x n b) (\<lambda>h. setBias (on_scope sp) (self_bias h) h)"
    "keeps (kept x n b) (\<lambda>h. setGain (on_scope sp) (self_gain h) h)"
    "keeps (kept x n b) (\<lambda>h. setDelay (on_scope sp) (self_delay h) h)"
    using s b by (simp_all add: keeps_def kept_def)
  then show ?thesis
    unfolding reconnect_settings_def [abs_def] by (intro keeps_then)
qed

lemma kept_reconnect_loop:
  "reconnect_loop p h = Some y \<Longrightarrow> p = on_scope sp \<longrightarrow> kept x n b h \<longrightarrow> kept x n b (snd y)"
proof (erule reconnect_loop.raw_induct [rotated], intro impI)
  fix loop p h y
  assume ih: "\<And>p h y. loop p h = Some y \<Longrightarrow> p = on_scope sp \<longrightarrow> kept x n b h \<longrightarrow> kept x n b (snd y)"
    and r: "(let h = if self_serial h \<noteq> None then h\<lparr>device := ser_close p (device h)\<rparr> else h
         in case ser_open p (self_port h) (self_timeout h) (device h) of (opened, d) \<Rightarrow>
           if \<not> opened then Some (Inl SerialException, h\<lparr>device := d\<rparr>)
           else case testScope p (h\<lparr>device := d, self_serial := Some (self_timeout h)\<rparr>) of
             (Inl e, h) \<Rightarrow> Some (Inl e, h)
           | (Inr good, h) \<Rightarrow> if good then Some (Inr (), h) else loop p h) = Some y"
    and p: "p = on_scope sp" and h: "kept x n b h"
  define g where "g = (if self_serial h \<noteq> None then h\<lparr>device := ser_close p (device h)\<rparr> else h)"
  obtain opened d where d: "ser_open p (self_port g) (self_timeout g) (device g) = (opened, d)" by (meson surj_pair)
  obtain t u where u: "testScope p (g\<lparr>device := d, self_serial := Some (self_timeout g)\<rparr>) = (t, u)" by (meson surj_pair)
  have k: "kept x n b (g\<lparr>device := d, self_serial := s\<rparr>)" "kept x n b (g\<lparr>device := d\<rparr>)" for s
    using h d by (auto simp: g_def p kept_def)
  have ku: "kept x n b u" by (rule keepsD [OF kept_test u [unfolded p] k(1)])
  have y: "(if \<not> opened then Some (Inl SerialException, g\<lparr>device := d\<rparr>)
      else case t of Inl e \<Rightarrow> Some (Inl e, u) | Inr good \<Rightarrow> if good then Some (Inr (), u) else loop p u) = Some y"
    using r unfolding Let_def g_def [symmetric] d prod.case u by simp
  show "kept x n b (snd y)"
  proof (cases "opened \<and> t = Inr False")
    case True
    then show ?thesis using y ih [of p u y] p ku by simp
  next
    case False
    then show ?thesis using y k(2) ku by (auto split: if_splits sum.splits)
  qed
qed

lemma kept_reconnect:
  assumes "reconnect (on_scope sp) h = Some (r, h')" "kept x n b h"
  shows "kept x n b h'"
proof -
  obtain y where y: "reconnect_loop (on_scope sp) h = Some y" using assms(1) by (auto simp: reconnect_def split: option.splits)
  obtain q g where g: "y = (q, g)" by (meson surj_pair)
  have k: "kept x n b g" using kept_reconnect_loop [OF y] assms(2) g by simp
  then have "kept x n b (snd (reconnect_settings (on_scope sp) g))" using kept_settings [of x n b sp] by (simp add: keeps_def)
  with k show ?thesis using assms(1) y g by (auto simp: reconnect_def split: sum.splits)
qed

lemma kept_samples:
  assumes "getSamples (on_scope sp) i2 u8 h = (r, h')" "kept x (int n) b h"
  shows "kept x (int n) b h' \<and> (\<forall>smp. r = Inr smp \<longrightarrow> (\<exists>bs. length bs = n \<and> (if b then i2 else u8) bs = Inr smp))"
proof -
  obtain r1 h1 where h1: "serial_write (on_scope sp) [py_ord CHR ''s''] h = (r1, h1)" by (cases "serial_write (on_scope sp) [py_ord CHR ''s''] h")
  obtain r2 h2 where h2: "serial_read (on_scope sp) (numSamples h1) h1 = (r2, h2)" by (cases "serial_read (on_scope sp) (numSamples h1) h1")
  have k1: "kept x (int n) b h1" by (rule keepsD [OF kept_write h1 assms(2)])
  have k2: "kept x (int n) b h2" by (rule keepsD [OF kept_read h2 k1])
  have r: "(r, h') = (case r1 of Inl e \<Rightarrow> (Inl e, h1) | Inr _ \<Rightarrow> (case r2 of Inl e \<Rightarrow> (Inl e, h2) | Inr bs \<Rightarrow>
      if int (length bs) \<noteq> numSamples h2 then py_raise (NotEnoughSamples (numSamples h2) (length bs)) h2
      else if self_bits12 h2 then (i2 bs, h2) else (u8 bs, h2)))"
    unfolding assms(1) [symmetric] getSamples_def py_then_def py_bind_def h1 prod.case
    by (cases r1; cases r2) (simp_all add: h2)
  show ?thesis
  proof (cases r1)
    case (Inr a)
    show ?thesis using r Inr k2 by (cases r2) (auto simp: py_raise_def kept_def split: if_splits)
  qed (use r k1 in simp)
qed

subsection \<open>The interface of a target\<close>

text \<open>
  What a script relies on. A target that is \<open>good\<close> has taken some bytes it waits to complete and has
  sent some the host has not read yet. It answers the test command at once; after the encrypt
  command and a block it waits for one more byte, whatever it is, and then answers with the
  encryption of the block.
\<close>

locale target_link =
  fixes tp :: "'t pyserial"
    and good :: "'t \<Rightarrow> bool"
    and taken :: "'t \<Rightarrow> byte list"
    and unread :: "'t \<Rightarrow> byte list"
    and enc :: "byte list \<Rightarrow> byte list"
  assumes asks_test: "\<And>x. good x \<Longrightarrow> taken x = [] \<Longrightarrow> \<exists>y. ser_write tp [ch CHR ''t''] x = (True, y) \<and> good y \<and>
      taken y = [] \<and> unread y = unread x @ test_answer"
    and takes_block: "\<And>x pt. good x \<Longrightarrow> taken x = [] \<Longrightarrow> length pt = 16 \<Longrightarrow>
      \<exists>y. ser_write tp (ch CHR ''a'' # pt) x = (True, y) \<and> good y \<and> taken y = ch CHR ''a'' # pt \<and> unread y = unread x"
    and ends_block: "\<And>x pt b. good x \<Longrightarrow> taken x = ch CHR ''a'' # pt \<Longrightarrow> length pt = 16 \<Longrightarrow>
      \<exists>y. ser_write tp [b] x = (True, y) \<and> good y \<and> taken y = [] \<and> unread y = unread x @ enc pt"
    and takes_line: "\<And>x pt b. good x \<Longrightarrow> taken x = [] \<Longrightarrow> length pt = 16 \<Longrightarrow>
      \<exists>y. ser_write tp (ch CHR ''a'' # pt @ [b]) x = (True, y) \<and> good y \<and> taken y = [] \<and> unread y = unread x @ enc pt"
    and reads: "\<And>x t n. good x \<Longrightarrow> 0 \<le> n \<Longrightarrow> \<exists>y. ser_read tp t n x = (Some (take (nat n) (unread x)), y) \<and> good y \<and>
      taken y = taken x \<and> unread y = drop (nat n) (unread x)"
    and enc_length: "\<And>pt. length pt = 16 \<Longrightarrow> length (enc pt) = 16"
begin

text \<open>Nothing is under way, or a block has been sent but not its line end.\<close>

definition idle_target :: "'t \<Rightarrow> bool" where
  "idle_target x \<longleftrightarrow> good x \<and> taken x = [] \<and> unread x = []"

definition half_target :: "'t \<Rightarrow> bool" where
  "half_target x \<longleftrightarrow> good x \<and> unread x = [] \<and> (\<exists>pt. taken x = ch CHR ''a'' # pt \<and> length pt = 16)"

text \<open>Between two uses the target is idle and the object has its settings; an exception may leave a block without its line end.\<close>

definition between :: "int \<Rightarrow> bool \<Rightarrow> ('d \<times> 't) Scope_obj \<Rightarrow> bool" where
  "between n b h \<longleftrightarrow> (\<exists>x. idle_target x \<and> kept x n b h)"

definition interrupted :: "int \<Rightarrow> bool \<Rightarrow> ('d \<times> 't) Scope_obj \<Rightarrow> bool" where
  "interrupted n b h \<longleftrightarrow> (\<exists>x. (idle_target x \<or> half_target x) \<and> kept x n b h)"

lemma write_block:
  assumes "idle_target (snd (device h))" "length pt = 16"
  shows "\<exists>y. target_write (on_target tp) (ch CHR ''a'' # pt) h = (Inr (), h\<lparr>device := (fst (device h), y)\<rparr>) \<and>
    half_target y \<and> taken y = ch CHR ''a'' # pt"
  using takes_block [of "snd (device h)" pt] assms by (auto simp: idle_target_def half_target_def target_write_def)

lemma read_answer:
  assumes "ser_write tp bs (snd (device h)) = (True, x)" "good x" "taken x = []" "unread x = enc pt" "length pt = 16" "16 \<le> k"
  shows "\<exists>y. py_then (target_write (on_target tp) bs) (target_read (on_target tp) tm k) h =
    (Inr (enc pt), h\<lparr>device := (fst (device h), y)\<rparr>) \<and> idle_target y"
proof -
  obtain y where "ser_read tp tm k x = (Some (enc pt), y)" "good y" "taken y = []" "unread y = []"
    using reads [OF assms(2), of k tm] assms(3-6) enc_length [OF assms(5)] by auto
  with assms(1) show ?thesis by (auto simp: py_then_def py_bind_def target_write_def target_read_def idle_target_def)
qed

lemma answer_block:
  assumes "half_target (snd (device h))" "taken (snd (device h)) = ch CHR ''a'' # pt" "16 \<le> k"
  shows "\<exists>y. py_then (target_write (on_target tp) [b]) (target_read (on_target tp) tm k) h =
    (Inr (enc pt), h\<lparr>device := (fst (device h), y)\<rparr>) \<and> idle_target y"
proof -
  have pt: "length pt = 16" "good (snd (device h))" "unread (snd (device h)) = []" using assms by (auto simp: half_target_def)
  from ends_block [OF pt(2) assms(2) pt(1), of b] read_answer [of "[b]" h _ pt k tm] pt assms(3) show ?thesis by auto
qed

lemma answer_line:
  assumes "idle_target (snd (device h))" "length pt = 16" "16 \<le> k"
  shows "\<exists>y. py_then (target_write (on_target tp) (ch CHR ''a'' # pt @ [b])) (target_read (on_target tp) tm k) h =
    (Inr (enc pt), h\<lparr>device := (fst (device h), y)\<rparr>) \<and> idle_target y"
  using takes_line [of "snd (device h)" pt b] read_answer [of "ch CHR ''a'' # pt @ [b]" h _ pt k tm] assms
  by (auto simp: idle_target_def)

text \<open>One test of a target that has an answer outstanding, or is still waiting for a line end.\<close>

lemma one_test:
  assumes "good x" "taken x = [] \<or> half_target x" "length (unread x) \<le> 80"
  shows "\<exists>y r. py_then (target_write (on_target tp) [ch CHR ''t'']) (target_read (on_target tp) tm 100) (h\<lparr>device := (d, x)\<rparr>) =
    (Inr r, h\<lparr>device := (d, y)\<rparr>) \<and> idle_target y \<and> (r = test_answer \<longleftrightarrow> idle_target x)"
proof -
  have s: "length test_answer = 3" by (simp add: test_answer_def text_bytes_def toe_crlf_def)
  obtain z where z: "ser_write tp [ch CHR ''t''] x = (True, z)" "good z" "taken z = []" "length (unread z) \<le> 100"
    "unread z = test_answer \<longleftrightarrow> idle_target x"
  proof (cases "taken x = []")
    case True
    then show thesis using asks_test [OF assms(1)] assms s that by (auto simp: idle_target_def)
  next
    case False
    then obtain pt where pt: "taken x = ch CHR ''a'' # pt" "length pt = 16" "unread x = []"
      using assms(2) by (auto simp: half_target_def)
    obtain z where z: "ser_write tp [ch CHR ''t''] x = (True, z)" "good z" "taken z = []" "unread z = enc pt"
      using ends_block [OF assms(1) pt(1,2), of "ch CHR ''t''"] pt(3) by auto
    moreover have "enc pt \<noteq> test_answer" using enc_length [OF pt(2)] s by auto
    ultimately show thesis using that pt(1) enc_length [OF pt(2)] by (simp add: idle_target_def)
  qed
  obtain y where "ser_read tp tm 100 z = (Some (unread z), y)" "good y" "taken y = []" "unread y = []"
    using reads [OF z(2), of 100 tm] z(3,4) by auto
  with z show ?thesis by (auto simp: py_then_def py_bind_def target_write_def target_read_def idle_target_def)
qed

lemma testTarget_syncs:
  assumes "good (snd (device h))" "taken (snd (device h)) = [] \<or> half_target (snd (device h))"
    "length (unread (snd (device h))) \<le> 80"
  shows "\<exists>y. testTarget_loop (on_target tp) tm h = Some (Inr (), h\<lparr>device := (fst (device h), y)\<rparr>) \<and> idle_target y"
proof -
  obtain d x where h: "device h = (d, x)" by (cases "device h")
  have hx: "h = h\<lparr>device := (d, x)\<rparr>" by (simp flip: h)
  have idle: "\<exists>z. testTarget_loop (on_target tp) tm (h\<lparr>device := (d, y)\<rparr>) = Some (Inr (), h\<lparr>device := (d, z)\<rparr>) \<and> idle_target z"
    if y: "idle_target y" for y
    using one_test [where x = y and tm = tm and h = h and d = d] y by (subst testTarget_loop.simps) (auto simp: idle_target_def)
  obtain y r where y: "py_then (target_write (on_target tp) [ch CHR ''t'']) (target_read (on_target tp) tm 100) (h\<lparr>device := (d, x)\<rparr>) =
    (Inr r, h\<lparr>device := (d, y)\<rparr>)" "idle_target y" using one_test [where x = x and tm = tm and h = h and d = d] assms h by auto
  show ?thesis
    by (subst hx, subst testTarget_loop.simps) (use y idle [OF y(2)] h in \<open>auto simp: hx [symmetric]\<close>)
qed

end

subsection \<open>Sketches behind a port\<close>

text \<open>
  A sketch behind its serial port: the state of the sketch and how many of the bytes it has sent
  the host has read. The loop function runs as long as it returns; a run that waits for input is
  repeated from its start when more input has come, which makes no difference because it has no
  other effect before. Every run takes a byte, so that the number of bytes received is enough.
\<close>

record toe_port =
  the_toe :: toe
  host_read :: nat

primrec serve :: "(toe \<Rightarrow> toe option) \<Rightarrow> nat \<Rightarrow> toe \<Rightarrow> toe" where
  "serve loop 0 t = t"
| "serve loop (Suc n) t = (case loop t of None \<Rightarrow> t | Some t \<Rightarrow> serve loop n t)"

definition receive :: "byte list \<Rightarrow> toe \<Rightarrow> toe" where
  "receive bs t = t\<lparr>toe.rx := toe.rx t @ bs\<rparr>"

definition toe_link :: "(toe \<Rightarrow> toe option) \<Rightarrow> toe_port pyserial" where
  "toe_link loop = \<lparr>ser_open = (\<lambda>_ _ p. (True, p)), ser_close = (\<lambda>p. p),
     ser_write = (\<lambda>bs p. let t = receive bs (the_toe p) in (True, p\<lparr>the_toe := serve loop (length (toe.rx t)) t\<rparr>)),
     ser_read = (\<lambda>_ n p. let bs = take (nat n) (drop (host_read p) (toe.tx (the_toe p))) in
       (Some bs, p\<lparr>host_read := host_read p + length bs\<rparr>))\<rparr>"

definition toe_taken :: "toe_port \<Rightarrow> byte list" where "toe_taken p = toe.rx (the_toe p)"

definition toe_unread :: "toe_port \<Rightarrow> byte list" where "toe_unread p = drop (host_read p) (toe.tx (the_toe p))"

definition toe_good :: "toe_port \<Rightarrow> bool" where
  "toe_good p \<longleftrightarrow> toe_ready (the_toe p) \<and> host_read p \<le> length (toe.tx (the_toe p))"

lemma serve_blocked: "loop t = None \<Longrightarrow> serve loop n t = t"
  by (cases n) simp_all

lemma ready_rx [simp]: "toe_ready (t\<lparr>toe.rx := bs\<rparr>) = toe_ready t"
  by (simp add: toe_ready_def)

text \<open>What the loop function of a sketch does with a test, an incomplete and a complete block.\<close>

locale sketch =
  fixes loop :: "toe \<Rightarrow> toe option" and enc :: "byte list \<Rightarrow> byte list"
  assumes waits: "\<And>t. toe_ready t \<Longrightarrow> toe.rx t = [] \<Longrightarrow> loop t = None"
    and waits_block: "\<And>t pt. toe_ready t \<Longrightarrow> toe.rx t = ch CHR ''a'' # pt \<Longrightarrow> length pt \<le> 16 \<Longrightarrow> loop t = None"
    and tests: "\<And>t. toe_ready t \<Longrightarrow> toe.rx t = [ch CHR ''t''] \<Longrightarrow>
      \<exists>u. loop t = Some u \<and> toe_ready u \<and> toe.rx u = [] \<and> toe.tx u = toe.tx t @ test_answer"
    and encrypts: "\<And>t pt b. toe_ready t \<Longrightarrow> toe.rx t = ch CHR ''a'' # pt @ [b] \<Longrightarrow> length pt = 16 \<Longrightarrow>
      \<exists>u. loop t = Some u \<and> toe_ready u \<and> toe.rx u = [] \<and> toe.tx u = toe.tx t @ enc pt"
    and block_length: "\<And>pt. length pt = 16 \<Longrightarrow> length (enc pt) = 16"
begin

lemma answers_once:
  assumes "loop t = Some u" "toe_ready u" "toe.rx u = []"
  shows "serve loop (Suc n) t = u"
  using assms waits [OF assms(2,3)] by (simp add: serve_blocked)

end

sublocale sketch \<subseteq> port: target_link "toe_link loop" toe_good toe_taken toe_unread enc
proof
  fix x assume x: "toe_good x" "toe_taken x = []"
  let ?t = "receive [ch CHR ''t''] (the_toe x)"
  have t: "toe_ready ?t" "toe.rx ?t = [ch CHR ''t'']" "toe.tx ?t = toe.tx (the_toe x)"
    using x by (simp_all add: receive_def toe_good_def toe_taken_def)
  obtain u where u: "loop ?t = Some u" "toe_ready u" "toe.rx u = []" "toe.tx u = toe.tx (the_toe x) @ test_answer"
    using tests [OF t(1,2)] t(3) by auto
  then show "\<exists>y. ser_write (toe_link loop) [ch CHR ''t''] x = (True, y) \<and> toe_good y \<and>
      toe_taken y = [] \<and> toe_unread y = toe_unread x @ test_answer"
    using x(1) t(2) answers_once [OF u(1-3), of 0] by (simp add: toe_link_def Let_def toe_good_def toe_taken_def toe_unread_def)
next
  fix x and pt :: "byte list" assume x: "toe_good x" "toe_taken x = []" "length pt = 16"
  let ?t = "receive (ch CHR ''a'' # pt) (the_toe x)"
  have t: "toe_ready ?t" "toe.rx ?t = ch CHR ''a'' # pt" "toe.tx ?t = toe.tx (the_toe x)"
    using x by (simp_all add: receive_def toe_good_def toe_taken_def)
  have "loop ?t = None" using waits_block [OF t(1,2)] x(3) by simp
  then show "\<exists>y. ser_write (toe_link loop) (ch CHR ''a'' # pt) x = (True, y) \<and> toe_good y \<and>
      toe_taken y = ch CHR ''a'' # pt \<and> toe_unread y = toe_unread x"
    using x(1) t by (simp add: toe_link_def Let_def toe_good_def toe_taken_def toe_unread_def)
next
  fix x and pt :: "byte list" and b
  assume x: "toe_good x" "toe_taken x = ch CHR ''a'' # pt" "length pt = 16"
  let ?t = "receive [b] (the_toe x)"
  have t: "toe_ready ?t" "toe.rx ?t = ch CHR ''a'' # pt @ [b]" "toe.tx ?t = toe.tx (the_toe x)"
    using x by (simp_all add: receive_def toe_good_def toe_taken_def)
  obtain u where u: "loop ?t = Some u" "toe_ready u" "toe.rx u = []" "toe.tx u = toe.tx (the_toe x) @ enc pt"
    using encrypts [OF t(1,2) x(3)] t(3) by auto
  have "serve loop (length (toe.rx ?t)) ?t = u" unfolding t(2) list.size add_Suc_right by (rule answers_once [OF u(1-3)])
  then show "\<exists>y. ser_write (toe_link loop) [b] x = (True, y) \<and> toe_good y \<and> toe_taken y = [] \<and> toe_unread y = toe_unread x @ enc pt"
    using x(1) u by (simp add: toe_link_def Let_def toe_good_def toe_taken_def toe_unread_def)
next
  fix x and pt :: "byte list" and b
  assume x: "toe_good x" "toe_taken x = []" "length pt = 16"
  let ?t = "receive (ch CHR ''a'' # pt @ [b]) (the_toe x)"
  have t: "toe_ready ?t" "toe.rx ?t = ch CHR ''a'' # pt @ [b]" "toe.tx ?t = toe.tx (the_toe x)"
    using x by (simp_all add: receive_def toe_good_def toe_taken_def)
  obtain u where u: "loop ?t = Some u" "toe_ready u" "toe.rx u = []" "toe.tx u = toe.tx (the_toe x) @ enc pt"
    using encrypts [OF t(1,2) x(3)] t(3) by auto
  have "serve loop (length (toe.rx ?t)) ?t = u" unfolding t(2) list.size add_Suc_right by (rule answers_once [OF u(1-3)])
  then show "\<exists>y. ser_write (toe_link loop) (ch CHR ''a'' # pt @ [b]) x = (True, y) \<and> toe_good y \<and> toe_taken y = [] \<and>
      toe_unread y = toe_unread x @ enc pt"
    using x(1) u by (simp add: toe_link_def Let_def toe_good_def toe_taken_def toe_unread_def)
next
  fix x and t :: rat and n :: int assume "toe_good x" "0 \<le> n"
  then show "\<exists>y. ser_read (toe_link loop) t n x = (Some (take (nat n) (toe_unread x)), y) \<and> toe_good y \<and>
      toe_taken y = toe_taken x \<and> toe_unread y = drop (nat n) (toe_unread x)"
    by (auto simp: toe_link_def Let_def toe_good_def toe_taken_def toe_unread_def add.commute drop_take min_def)
qed (rule block_length)

text \<open>
  The two sketches. The first has an uninitialised array of the size of the key schedule, whatever
  it holds; for the second the library computes AES-128.
\<close>

definition slow_sketch :: "byte list \<Rightarrow> toe \<Rightarrow> toe option" where
  "slow_sketch junk = slow_loop (take 176 (junk @ replicate 176 0))"

lemma ch_letters: "ch CHR ''a'' = of_char CHR ''a''" "ch CHR ''t'' = of_char CHR ''t''" "ch CHR ''a'' \<noteq> ch CHR ''t''"
  by (simp_all add: ch_def)

interpretation slow: sketch "slow_sketch junk" "aes128 toe_key" for junk
proof
  fix t assume "toe_ready t" "toe.rx t = []"
  then show "slow_sketch junk t = None" by (simp add: slow_sketch_def slow_loop_def split: prod.splits)
next
  fix t and pt :: "byte list" assume "toe_ready t" "toe.rx t = ch CHR ''a'' # pt" "length pt \<le> 16"
  then show "slow_sketch junk t = None"
    using short_block_waits [of pt "t\<lparr>toe_R := R\<rparr>" for R]
    by (auto simp: slow_sketch_def slow_loop_def ch_letters toe_ready_def split: prod.splits)
next
  fix t assume t: "toe_ready t" "toe.rx t = [ch CHR ''t'']"
  define w where "w = take 176 (junk @ replicate 176 (0 :: byte))"
  have "length w = 176" by (simp add: w_def)
  then obtain w' r' where "key_expansion (toe_Nk t) (toe_Nr t) toe_key w (toe_R t) = (w', [r', 0, 0, 0])"
    using toe_schedule [OF t(1)] by metis
  then show "\<exists>u. slow_sketch junk t = Some u \<and> toe_ready u \<and> toe.rx u = [] \<and> toe.tx u = toe.tx t @ test_answer"
    using t unfolding slow_sketch_def w_def [symmetric]
    by (auto simp: slow_loop_def ch_letters Serial_write_def toe_ready_def test_answer_def)
next
  fix t and pt :: "byte list" and b assume "toe_ready t" "toe.rx t = ch CHR ''a'' # pt @ [b]" "length pt = 16"
  then show "\<exists>u. slow_sketch junk t = Some u \<and> toe_ready u \<and> toe.rx u = [] \<and> toe.tx u = toe.tx t @ aes128 toe_key pt"
    using slow_loop_encrypt_eq [of t "take 176 (junk @ replicate 176 0)" pt b "[]"] by (simp add: slow_sketch_def ch_letters)
qed (rule aes128_length)

interpretation lib: sketch "lib_loop aes128" "aes128 toe_key"
proof
  fix t assume "toe_ready t" "toe.rx t = []"
  then show "lib_loop aes128 t = None" by (simp add: lib_loop_def)
next
  fix t and pt :: "byte list" assume "toe_ready t" "toe.rx t = ch CHR ''a'' # pt" "length pt \<le> 16"
  then show "lib_loop aes128 t = None"
    using short_block_waits [of pt t] by (auto simp: lib_loop_def ch_letters toe_ready_def)
next
  fix t assume "toe_ready t" "toe.rx t = [ch CHR ''t'']"
  then show "\<exists>u. lib_loop aes128 t = Some u \<and> toe_ready u \<and> toe.rx u = [] \<and> toe.tx u = toe.tx t @ test_answer"
    by (auto simp: lib_loop_def ch_letters Serial_write_def toe_ready_def test_answer_def)
next
  fix t and pt :: "byte list" and b assume "toe_ready t" "toe.rx t = ch CHR ''a'' # pt @ [b]" "length pt = 16"
  then show "\<exists>u. lib_loop aes128 t = Some u \<and> toe_ready u \<and> toe.rx u = [] \<and> toe.tx u = toe.tx t @ aes128 toe_key pt"
    using read_block_ok [of 16 "t\<lparr>toe.rx := pt @ [b]\<rparr>" 0]
    by (auto simp: lib_loop_def ch_letters Serial_write_def toe_ready_def aes128_length)
qed (rule aes128_length)

text \<open>The first sketch after its start.\<close>

definition fresh_toe :: toe_port where
  "fresh_toe = \<lparr>the_toe = slow_setup \<lparr>rx = [], tx = [], toe_Nk = 0, toe_Nr = 0, toe_R = [2, 0, 0, 0], out = replicate 16 0,
     toe_data = replicate 16 0\<rparr>, host_read = 0\<rparr>"

lemma fresh_toe_ok: "toe_good fresh_toe" "toe_taken fresh_toe = []" "length (toe_unread fresh_toe) \<le> 80"
  by (simp_all add: fresh_toe_def toe_good_def toe_taken_def toe_unread_def slow_setup_ready slow_setup_def Serial_write_def
      toe_key_def text_bytes_def toe_ready_def)

lemma toe_link_open: "ser_open (toe_link loop) p t x = (True, x)"
  by (simp add: toe_link_def)

end
