(* ===== verification/Acquisition.thy ===== *)
theory Acquisition
  imports TargetLink TraceFile
begin

text \<open>
  The acquisition script \<open>acq/runSetup.py\<close>: it sends random blocks to the target while the
  oscilloscope samples, and stores every block with its encryption and its samples in a trace set.
  The class \<open>Scope\<close>, the trace set and the two sketches are the models of their theories; the serial
  port package, NumPy, the random generator and the file system are parameters. Pauses and
  console output are left out.
\<close>

subsection \<open>The script\<close>

record ('w, 's) acq_env =
  env_scope :: "'w pyserial"
  env_target :: "'w pyserial"
  env_np :: "'s numpy"
  env_i2 :: "byte list \<Rightarrow> host_error + 's"
  env_u8 :: "byte list \<Rightarrow> host_error + 's"
  env_urandom :: "nat \<Rightarrow> byte list"
  env_isfile :: "string \<Rightarrow> bool"

definition acq_timeout :: rat where "acq_timeout = 1 / 2"
definition numberOfAttempts :: nat where "numberOfAttempts = 10000"
definition numberOfRepeatedInputs :: nat where "numberOfRepeatedInputs = 10"
definition acq_numSamples :: nat where "acq_numSamples = 2500"
definition titleLen :: nat where "titleLen = 0"
definition dataLen :: nat where "dataLen = 32"

lemmas acq_consts = acq_numSamples_def titleLen_def dataLen_def

text \<open>The loop that draws a block without a line end; \<open>k\<close> blocks have been drawn before.\<close>

partial_function (option) draw_block :: "(nat \<Rightarrow> byte list) \<Rightarrow> nat \<Rightarrow> (byte list \<times> nat) option" where
  "draw_block urandom k =
    (if 0x0A \<in> set (urandom k) then draw_block urandom (Suc k) else Some (urandom k, Suc k))"

text \<open>The guarded part of a repetition up to the call that stores the trace; no value is a missed trigger.\<close>

definition acquire_block :: "('w, 's) acq_env \<Rightarrow> byte list \<Rightarrow> ('w, (byte list \<times> 's) option) act" where
  "acquire_block E dataIn =
     py_then (target_write (env_target E) (ch CHR ''a'' # dataIn))
     (py_then (arm (env_scope E))
     (py_bind (py_then (target_write (env_target E) [0x0A]) (target_read (env_target E) acq_timeout 16)) (\<lambda>response.
        if length response \<noteq> 16 then py_raise (TargetTimeout response)
        else py_bind (waitForCompletion (env_scope E)) (\<lambda>caught.
          if \<not> caught then py_return None
          else py_bind (getSamples (env_scope E) (env_i2 E) (env_u8 E)) (\<lambda>samples.
            py_return (Some (dataIn @ response, samples)))))))"

text \<open>
  How the script stands: it goes on, an exception has left it, or storing a trace has raised. The
  trace set is then only partly written, so that the model ends there.
\<close>

datatype acq_end = Going | Raised host_error | StoreRaised trace_error | Usage

type_synonym 'w acq = "acq_end \<times> 'w Scope_obj \<times> traceset"

definition resync :: "('w, 's) acq_env \<Rightarrow> traceset \<Rightarrow> 'w Scope_obj \<Rightarrow> 'w acq option" where
  "resync E ts h = (case reconnect (env_scope E) h of
     None \<Rightarrow> None
   | Some (Inl e, h) \<Rightarrow> Some (Raised e, h, ts)
   | Some (Inr _, h) \<Rightarrow> (case testTarget_loop (env_target E) acq_timeout h of
       None \<Rightarrow> None
     | Some (Inl e, h) \<Rightarrow> Some (Raised e, h, ts)
     | Some (Inr _, h) \<Rightarrow> Some (Going, h, ts)))"

definition repeat_input :: "('w, 's) acq_env \<Rightarrow> byte list \<Rightarrow> 'w Scope_obj \<Rightarrow> traceset \<Rightarrow> 'w acq option" where
  "repeat_input E dataIn h ts = (case acquire_block E dataIn h of
     (Inl e, h) \<Rightarrow> resync E ts h
   | (Inr None, h) \<Rightarrow> Some (Going, h, ts)
   | (Inr (Some (d, smp)), h) \<Rightarrow>
       (case addTrace (env_np E) \<lparr>title = [], data = map unat d, samples = smp\<rparr> ts of
          Inl e \<Rightarrow> Some (StoreRaised e, h, ts)
        | Inr ts \<Rightarrow> Some (Going, h, ts)))"

primrec repeat_inputs :: "('w, 's) acq_env \<Rightarrow> byte list \<Rightarrow> nat \<Rightarrow> 'w Scope_obj \<Rightarrow> traceset \<Rightarrow> 'w acq option" where
  "repeat_inputs E dataIn 0 h ts = Some (Going, h, ts)"
| "repeat_inputs E dataIn (Suc n) h ts = do {
     (r, h, ts) \<leftarrow> repeat_input E dataIn h ts;
     if r = Going then repeat_inputs E dataIn n h ts else Some (r, h, ts)
   }"

primrec acq_attempts :: "('w, 's) acq_env \<Rightarrow> nat \<Rightarrow> nat \<Rightarrow> nat \<Rightarrow> 'w Scope_obj \<Rightarrow> traceset \<Rightarrow> 'w acq option" where
  "acq_attempts E reps 0 k h ts = Some (Going, h, ts)"
| "acq_attempts E reps (Suc n) k h ts = do {
     (dataIn, k) \<leftarrow> draw_block (env_urandom E) k;
     (r, h, ts) \<leftarrow> repeat_inputs E dataIn reps h ts;
     if r = Going then acq_attempts E reps n k h ts else Some (r, h, ts)
   }"

text \<open>The part of the script behind the construction of the oscilloscope object.\<close>

definition acq_run :: "('w, 's) acq_env \<Rightarrow> nat \<Rightarrow> nat \<Rightarrow> string list \<Rightarrow> 'w Scope_obj \<Rightarrow> 'w acq option" where
  "acq_run E n reps argv h =
    (if length argv \<noteq> 2 then Some (Usage, h, TraceSet_init)
     else case ser_open (env_target E) ''/dev/ttyUSB0'' acq_timeout (device h) of (opened, w) \<Rightarrow>
       if \<not> opened then Some (Raised SerialException, h\<lparr>device := w\<rparr>, TraceSet_init)
       else (case testTarget_loop (env_target E) acq_timeout (h\<lparr>device := w\<rparr>) of
         None \<Rightarrow> None
       | Some (Inl e, h) \<Rightarrow> Some (Raised e, h, TraceSet_init)
       | Some (Inr _, h) \<Rightarrow> do {
           ts \<leftarrow> TraceSet_new (env_isfile E) (argv ! 1) titleLen CodingFloat dataLen
                 (if self_bits12 h then acq_numSamples div 2 else acq_numSamples) (0, 0) TraceSet_init;
           (r, h, ts) \<leftarrow> acq_attempts E reps n 0 h ts;
           if r = Going then Some (Going, snd (close_scope (env_scope E) h), ts) else Some (r, h, ts)
         }))"

text \<open>The script for \<open>n\<close> attempts of \<open>reps\<close> repetitions, and with the numbers it has.\<close>

definition acq_main :: "('w, 's) acq_env \<Rightarrow> nat \<Rightarrow> nat \<Rightarrow> string list \<Rightarrow> 'w \<Rightarrow> 'w acq option" where
  "acq_main E n reps argv w =
    (case init_Scope (env_scope E) ''/dev/ttyACM0'' (1 / 2) (int acq_numSamples) 1 True 0x444 0 3000 w of
       None \<Rightarrow> None
     | Some (Inl e, h) \<Rightarrow> Some (Raised e, h, TraceSet_init)
     | Some (Inr _, h) \<Rightarrow> acq_run E n reps argv h)"

abbreviation acq_script :: "('w, 's) acq_env \<Rightarrow> string list \<Rightarrow> 'w \<Rightarrow> 'w acq option" where
  "acq_script E \<equiv> acq_main E numberOfAttempts numberOfRepeatedInputs"

lemma draw_block_ok:
  "draw_block urandom k = Some y \<Longrightarrow> \<exists>i. k \<le> i \<and> fst y = urandom i \<and> 0x0A \<notin> set (fst y)"
  by (erule draw_block.raw_induct [rotated]) (fastforce split: if_splits dest: Suc_leD)

lemma draw_block_returns: "k \<le> i \<Longrightarrow> 0x0A \<notin> set (urandom i) \<Longrightarrow> \<exists>y. draw_block urandom k = Some y"
proof (induction "i - k" arbitrary: k)
  case 0
  then show ?case by (subst draw_block.simps) simp
next
  case (Suc n)
  then have "\<exists>y. draw_block urandom (Suc k) = Some y" by simp
  then show ?case by (subst draw_block.simps) simp
qed

subsection \<open>The trace set\<close>

text \<open>
  What the script relies on of NumPy: the array the oscilloscope class returns for the \<open>n\<close> bytes of a
  measurement is written as \<open>ns\<close> numbers of four bytes and read back from them.
\<close>

definition numpy_fits :: "'s numpy \<Rightarrow> (byte list \<Rightarrow> host_error + 's) \<Rightarrow> nat \<Rightarrow> nat \<Rightarrow> bool" where
  "numpy_fits np conv n ns \<longleftrightarrow> (\<forall>bs smp. length bs = n \<longrightarrow> conv bs = Inr smp \<longrightarrow>
     length (tofile np Float32 smp) = ns * 4 \<and> (\<forall>rest. fst (fromfile np Float32 ns (tofile np Float32 smp @ rest)) = smp))"

text \<open>The trace set holds the traces \<open>trs\<close>, each of which carries a block and its encryption.\<close>

definition stored :: "(byte list \<Rightarrow> byte list) \<Rightarrow> 's numpy \<Rightarrow> nat \<Rightarrow> 's trace list \<Rightarrow> traceset \<Rightarrow> bool" where
  "stored enc np ns trs ts \<longleftrightarrow>
     writing titleLen CodingFloat dataLen ns (length trs) (concat (map (trace_bytes np Float32) trs)) 0 0 ts \<and>
     (\<forall>tr\<in>set trs. trace_ok np Float32 4 titleLen dataLen ns tr \<and> (\<exists>pt. length pt = 16 \<and> data tr = map unat (pt @ enc pt)))"

lemma float_coding: "dtype_of CodingFloat = Some Float32" "codingByteSize CodingFloat = 4"
  by (simp_all add: dtype_of_def codingByteSize_def coding_defs)

lemma stored_new:
  assumes "finite {nm. isfile nm}" "ns < 2 ^ 32"
  shows "\<exists>ts. TraceSet_new isfile name titleLen CodingFloat dataLen ns (0, 0) TraceSet_init = Some ts \<and> stored enc np ns [] ts"
proof -
  obtain nm where nm: "fresh_name isfile name 1 name = Some nm" using fresh_name_ok [OF assms(1)] by blast
  have "header_ok titleLen CodingFloat dataLen ns" using assms(2) by (simp add: header_ok_def acq_consts float_coding)
  from new_writing [OF this nm, of 0 0] show ?thesis by (auto simp: stored_def)
qed

lemma stored_add:
  assumes "stored enc np ns trs ts" "Suc (length trs) < 2 ^ 32" "length pt = 16" "length (enc pt) = 16"
    "length (tofile np Float32 smp) = ns * 4" "\<forall>rest. fst (fromfile np Float32 ns (tofile np Float32 smp @ rest)) = smp"
    "tr = \<lparr>title = [], data = map unat (pt @ enc pt), samples = smp\<rparr>"
  shows "\<exists>ts'. addTrace np tr ts = Inr ts' \<and> stored enc np ns (trs @ [tr]) ts'"
proof -
  have "\<exists>ts'. addTrace np tr ts = Inr ts' \<and> writing titleLen CodingFloat dataLen ns (Suc (length trs))
      (concat (map (trace_bytes np Float32) trs) @ trace_bytes np Float32 tr) 0 0 ts'"
    by (rule add_writing) (use assms in \<open>simp_all add: stored_def float_coding acq_consts\<close>)
  moreover have "trace_ok np Float32 4 titleLen dataLen ns tr"
    using assms(3-7) unat_byte_bound by (auto simp: trace_ok_def acq_consts)
  ultimately show ?thesis using assms(1,3,7) by (auto simp: stored_def)
qed

lemma stored_read:
  assumes "stored enc np ns trs ts" "length trs < 2 ^ 32" "ns < 2 ^ 32"
  shows "\<exists>f t. handle ts = Some f \<and> TraceSet_open (content f) TraceSet_init = Inr t \<and> TraceSet_iter np t = Inr (map Some trs)"
proof -
  have "header_ok titleLen CodingFloat dataLen ns" using assms(3) by (simp add: header_ok_def acq_consts float_coding)
  from file_read_back [OF this float_coding(1) assms(2), of np 0 0] assms(1)
  show ?thesis by (auto simp: stored_def writing_def float_coding)
qed

text \<open>
  An oscilloscope that does its work, as a predicate on the object at three points of a repetition:
  it arms, reports the completion and returns samples, whatever the target does meanwhile.
\<close>

definition cooperative ::
  "'d pyserial \<Rightarrow> (byte list \<Rightarrow> host_error + 's) \<Rightarrow> (byte list \<Rightarrow> host_error + 's) \<Rightarrow> (nat \<Rightarrow> ('d \<times> 't) Scope_obj \<Rightarrow> bool) \<Rightarrow> bool" where
  "cooperative sp i2 u8 G \<longleftrightarrow>
     (\<forall>i h x. G i h \<longrightarrow> G i (h\<lparr>device := (fst (device h), x)\<rparr>)) \<and>
     (\<forall>h. G 0 h \<longrightarrow> (\<exists>h'. arm (on_scope sp) h = (Inr (), h') \<and> G 1 h')) \<and>
     (\<forall>h. G 1 h \<longrightarrow> (\<exists>h'. waitForCompletion (on_scope sp) h = (Inr True, h') \<and> G 2 h')) \<and>
     (\<forall>h. G 2 h \<longrightarrow> (\<exists>smp h'. getSamples (on_scope sp) i2 u8 h = (Inr smp, h') \<and> G 0 h'))"

lemma cooperativeD:
  assumes "cooperative sp i2 u8 G"
  shows "G i h \<Longrightarrow> G i (h\<lparr>device := (fst (device h), x)\<rparr>)"
    "G 0 h \<Longrightarrow> \<exists>h'. arm (on_scope sp) h = (Inr (), h') \<and> G 1 h'"
    "G 1 h \<Longrightarrow> \<exists>h'. waitForCompletion (on_scope sp) h = (Inr True, h') \<and> G 2 h'"
    "G 2 h \<Longrightarrow> \<exists>smp h'. getSamples (on_scope sp) i2 u8 h = (Inr smp, h') \<and> G 0 h'"
  using assms unfolding cooperative_def by blast+

subsection \<open>One repetition\<close>

context target_link
begin

text \<open>
  What a repetition leaves behind, whatever the oscilloscope does: an exception leaves at most a
  block without its line end with the target, and a result is the block with its encryption.
\<close>

lemma acquire_result:
  fixes E :: "('d \<times> 't, 's) acq_env"
  assumes E: "env_scope E = on_scope sp" "env_target E = on_target tp"
    and "between (int n) b h" "length pt = 16" "acquire_block E pt h = (r, h')"
  shows "case r of Inl e \<Rightarrow> interrupted (int n) b h' | Inr None \<Rightarrow> between (int n) b h'
    | Inr (Some (d, smp)) \<Rightarrow> between (int n) b h' \<and> d = pt @ enc pt \<and>
        (\<exists>bs. length bs = n \<and> (if b then env_i2 E else env_u8 E) bs = Inr smp)"
proof -
  obtain x where x: "idle_target x" "kept x (int n) b h" using assms(3) by (auto simp: between_def)
  then have dx: "snd (device h) = x" by (simp add: kept_def)
  obtain y where y: "target_write (on_target tp) (ch CHR ''a'' # pt) h = (Inr (), h\<lparr>device := (fst (device h), y)\<rparr>)"
    "half_target y" "taken y = ch CHR ''a'' # pt" using write_block [of h pt] x(1) dx assms(4) by auto
  define h1 where "h1 = h\<lparr>device := (fst (device h), y)\<rparr>"
  have k1: "kept y (int n) b h1" using x(2) by (simp add: h1_def kept_def)
  obtain r2 h2 where h2: "arm (on_scope sp) h1 = (r2, h2)" by (meson surj_pair)
  have k2: "kept y (int n) b h2" by (rule keepsD [OF kept_arm h2 k1])
  then have d2: "snd (device h2) = y" by (simp add: kept_def)
  obtain z where z: "py_then (target_write (on_target tp) [0x0A]) (target_read (on_target tp) acq_timeout 16) h2 =
      (Inr (enc pt), h2\<lparr>device := (fst (device h2), z)\<rparr>)" "idle_target z"
    using answer_block [of h2 pt 16 "0x0A" acq_timeout] y(2,3) d2 by auto
  define h3 where "h3 = h2\<lparr>device := (fst (device h2), z)\<rparr>"
  have k3: "kept z (int n) b h3" using k2 by (simp add: h3_def kept_def)
  obtain r4 h4 where h4: "waitForCompletion (on_scope sp) h3 = (r4, h4)" by (meson surj_pair)
  have k4: "kept z (int n) b h4" by (rule keepsD [OF kept_wait h4 k3])
  obtain r5 h5 where h5: "getSamples (on_scope sp) (env_i2 E) (env_u8 E) h4 = (r5, h5)" by (meson surj_pair)
  note k5 = kept_samples [OF h5 k4]
  have res: "(r, h') = (case r2 of Inl e \<Rightarrow> (Inl e, h2) | Inr _ \<Rightarrow> (case r4 of Inl e \<Rightarrow> (Inl e, h4)
      | Inr caught \<Rightarrow> if \<not> caught then (Inr None, h4) else (case r5 of Inl e \<Rightarrow> (Inl e, h5)
      | Inr smp \<Rightarrow> (Inr (Some (pt @ enc pt, smp)), h5))))"
    using assms(4) unfolding assms(5) [symmetric] acquire_block_def E py_then_def py_bind_def y(1) [folded h1_def] prod.case sum.case h2
    by (cases r2; cases r4; cases r5)
      (use z(1) h4 h5 in \<open>simp_all add: h3_def [symmetric] py_then_def py_bind_def enc_length py_return_def\<close>)
  show ?thesis
    using res k2 k4 k5 y(2) z(2)
    by (cases r2; cases r4; cases r5) (auto simp: between_def interrupted_def split: if_splits)
qed

lemma resync_result:
  fixes E :: "('d \<times> 't, 's) acq_env"
  assumes E: "env_scope E = on_scope sp" "env_target E = on_target tp"
    and "interrupted n b h" "resync E ts h = Some (r, h', ts')"
  shows "ts' = ts \<and> (r = Going \<longrightarrow> between n b h') \<and> (\<exists>e. r = Going \<or> r = Raised e)"
proof -
  obtain x where x: "idle_target x \<or> half_target x" "kept x n b h" using assms(3) by (auto simp: interrupted_def)
  have "\<exists>z. testTarget_loop (on_target tp) acq_timeout g = Some (Inr (), g\<lparr>device := (fst (device g), z)\<rparr>) \<and> idle_target z"
    if "kept x n b g" for g :: "('d \<times> 't) Scope_obj"
    using testTarget_syncs [of g acq_timeout] x(1) that by (auto simp: kept_def idle_target_def half_target_def)
  then have t: "\<exists>g'. testTarget_loop (on_target tp) acq_timeout g = Some (Inr (), g') \<and> between n b g'"
    if "kept x n b g" for g :: "('d \<times> 't) Scope_obj"
    using that by (fastforce simp: between_def kept_def)
  obtain q g where g: "reconnect (on_scope sp) h = Some (q, g)" "kept x n b g"
    using assms(4) kept_reconnect [OF _ x(2), of sp] by (auto simp: resync_def E split: option.splits)
  show ?thesis using assms(4) g t [OF g(2)] by (cases q) (auto simp: resync_def E)
qed

lemma repeat_input_result:
  fixes E :: "('d \<times> 't, 's) acq_env"
  assumes E: "env_scope E = on_scope sp" "env_target E = on_target tp"
    and fits: "numpy_fits (env_np E) (if b then env_i2 E else env_u8 E) n ns"
    and st: "between (int n) b h" "stored enc (env_np E) ns trs ts" "Suc (length trs) < 2 ^ 32"
    and pt: "length pt = 16" and r: "repeat_input E pt h ts = Some (r, h', ts')"
  shows "(\<exists>new. stored enc (env_np E) ns (trs @ new) ts' \<and> length new \<le> 1) \<and> (r = Going \<longrightarrow> between (int n) b h') \<and>
    (\<exists>e. r = Going \<or> r = Raised e)"
proof -
  obtain q g where q: "acquire_block E pt h = (q, g)" by (meson surj_pair)
  note a = acquire_result [OF E st(1) pt q]
  consider (failed) e where "q = Inl e" | (missed) "q = Inr None" | (got) d smp where "q = Inr (Some (d, smp))"
    by (metis option.exhaust prod.exhaust sum.exhaust)
  then show ?thesis
  proof cases
    case failed
    then show ?thesis using a q r resync_result [OF E, of "int n" b g ts r h' ts'] st(2)
      by (auto simp: repeat_input_def intro: exI [of _ "[]"])
  next
    case missed
    then show ?thesis using a q r st(2) by (auto simp: repeat_input_def intro: exI [of _ "[]"])
  next
    case got
    let ?tr = "\<lparr>title = [], data = map unat d, samples = smp\<rparr>"
    have d: "d = pt @ enc pt" "between (int n) b g" using a got by auto
    obtain bs where bs: "length bs = n" "(if b then env_i2 E else env_u8 E) bs = Inr smp" using a got by auto
    obtain u where u: "addTrace (env_np E) ?tr ts = Inr u" "stored enc (env_np E) ns (trs @ [?tr]) u"
      using stored_add [OF st(2,3) pt enc_length [OF pt], of smp ?tr] fits bs by (auto simp: numpy_fits_def d(1))
    then show ?thesis using q r got d(2) by (auto simp: repeat_input_def intro: exI [of _ "[?tr]"])
  qed
qed

lemma repeat_inputs_result:
  fixes E :: "('d \<times> 't, 's) acq_env"
  assumes E: "env_scope E = on_scope sp" "env_target E = on_target tp"
    and fits: "numpy_fits (env_np E) (if b then env_i2 E else env_u8 E) n ns" and pt: "length pt = 16"
  shows "between (int n) b h \<Longrightarrow> stored enc (env_np E) ns trs ts \<Longrightarrow> length trs + m < 2 ^ 32 \<Longrightarrow>
    repeat_inputs E pt m h ts = Some (r, h', ts') \<Longrightarrow>
    (\<exists>new. stored enc (env_np E) ns (trs @ new) ts' \<and> length new \<le> m) \<and> (r = Going \<longrightarrow> between (int n) b h') \<and>
    (\<exists>e. r = Going \<or> r = Raised e)"
proof (induction m arbitrary: h trs ts)
  case 0
  then show ?case by (auto intro: exI [of _ "[]"])
next
  case (Suc m)
  obtain q g u where q: "repeat_input E pt h ts = Some (q, g, u)"
    "(if q = Going then repeat_inputs E pt m g u else Some (q, g, u)) = Some (r, h', ts')"
    using Suc.prems(4) by (auto simp: bind_eq_Some_conv)
  have "Suc (length trs) < 2 ^ 32" using Suc.prems(3) by simp
  from repeat_input_result [OF E fits Suc.prems(1,2) this pt q(1)] obtain new where
    new: "stored enc (env_np E) ns (trs @ new) u" "length new \<le> 1" "q = Going \<longrightarrow> between (int n) b g" "\<exists>e. q = Going \<or> q = Raised e" by blast
  show ?case
  proof (cases "q = Going")
    case True
    with Suc.IH [OF _ new(1), of g] new q(2) Suc.prems(3) obtain more where
      "stored enc (env_np E) ns ((trs @ new) @ more) ts'" "length more \<le> m" "r = Going \<longrightarrow> between (int n) b h'" "\<exists>e. r = Going \<or> r = Raised e"
      by auto
    then show ?thesis using new(2) by (intro conjI exI [of _ "new @ more"]) simp_all
  next
    case False
    then show ?thesis using q(2) new by (auto intro: exI [of _ new])
  qed
qed

lemma attempts_result:
  fixes E :: "('d \<times> 't, 's) acq_env"
  assumes E: "env_scope E = on_scope sp" "env_target E = on_target tp"
    and fits: "numpy_fits (env_np E) (if b then env_i2 E else env_u8 E) n ns" and random: "\<And>k. length (env_urandom E k) = 16"
  shows "between (int n) b h \<Longrightarrow> stored enc (env_np E) ns trs ts \<Longrightarrow> length trs + m * reps < 2 ^ 32 \<Longrightarrow>
    acq_attempts E reps m k h ts = Some (r, h', ts') \<Longrightarrow>
    (\<exists>new. stored enc (env_np E) ns (trs @ new) ts' \<and> length new \<le> m * reps) \<and> (\<exists>e. r = Going \<or> r = Raised e)"
proof (induction m arbitrary: h trs ts k)
  case 0
  then show ?case by (auto intro: exI [of _ "[]"])
next
  case (Suc m)
  obtain pt k' q g u where pt: "draw_block (env_urandom E) k = Some (pt, k')"
    and q: "repeat_inputs E pt reps h ts = Some (q, g, u)"
    "(if q = Going then acq_attempts E reps m k' g u else Some (q, g, u)) = Some (r, h', ts')"
    using Suc.prems(4) by (auto simp: bind_eq_Some_conv)
  have l: "length pt = 16" using draw_block_ok [OF pt] random by auto
  have "length trs + reps < 2 ^ 32" using Suc.prems(3) by simp
  from repeat_inputs_result [OF E fits l Suc.prems(1,2) this q(1)] obtain new where
    new: "stored enc (env_np E) ns (trs @ new) u" "length new \<le> reps" "q = Going \<longrightarrow> between (int n) b g" "\<exists>e. q = Going \<or> q = Raised e" by blast
  show ?case
  proof (cases "q = Going")
    case True
    then have "(\<exists>more. stored enc (env_np E) ns ((trs @ new) @ more) ts' \<and> length more \<le> m * reps) \<and> (\<exists>e. r = Going \<or> r = Raised e)"
      using new q(2) Suc.prems(3) by (intro Suc.IH [OF _ new(1), of g k']) simp_all
    then obtain more where
      "stored enc (env_np E) ns ((trs @ new) @ more) ts'" "length more \<le> m * reps" "\<exists>e. r = Going \<or> r = Raised e" by blast
    then show ?thesis using new(2) by (intro conjI exI [of _ "new @ more"]) simp_all
  next
    case False
    then show ?thesis using q(2) new by (auto intro!: exI [of _ new])
  qed
qed

lemma run_result:
  fixes E :: "('d \<times> 't, 's) acq_env"
  assumes E: "env_scope E = on_scope sp" "env_target E = on_target tp"
    and fits: "numpy_fits (env_np E) (if self_bits12 h then env_i2 E else env_u8 E) acq_numSamples ns"
      "ns = (if self_bits12 h then acq_numSamples div 2 else acq_numSamples)"
    and random: "\<And>k. length (env_urandom E k) = 16" and files: "finite {nm. env_isfile E nm}"
    and h: "numSamples h = int acq_numSamples" "m * reps < 2 ^ 32"
    and x: "ser_open tp ''/dev/ttyUSB0'' acq_timeout (snd (device h)) = (True, x)" "good x" "taken x = []" "length (unread x) \<le> 80"
    and r: "acq_run E m reps argv h = Some (r, h', ts)" "length argv = 2"
  shows "\<exists>trs. stored enc (env_np E) ns trs ts \<and> length trs \<le> m * reps \<and> (\<exists>e. r = Going \<or> r = Raised e)"
proof -
  have ns: "ns < 2 ^ 32" by (simp add: fits(2) acq_consts)
  define g where "g = h\<lparr>device := (fst (device h), x)\<rparr>"
  obtain y where y: "testTarget_loop (on_target tp) acq_timeout g = Some (Inr (), g\<lparr>device := (fst (device h), y)\<rparr>)" "idle_target y"
    using testTarget_syncs [of g acq_timeout] x(2-4) by (auto simp: g_def)
  define k where "k = g\<lparr>device := (fst (device h), y)\<rparr>"
  have bt: "between (int acq_numSamples) (self_bits12 h) k"
    using y(2) h(1) by (auto simp: between_def kept_def k_def g_def)
  obtain t0 where t0: "TraceSet_new (env_isfile E) (argv ! 1) titleLen CodingFloat dataLen ns (0, 0) TraceSet_init = Some t0"
    "stored enc (env_np E) ns [] t0" using stored_new [OF files ns] by blast
  have op: "ser_open (on_target tp) ''/dev/ttyUSB0'' acq_timeout (device h) = (True, fst (device h), x)"
    using x(1) by (simp add: on_target_def case_prod_unfold apsnd_def map_prod_def)
  have kb: "self_bits12 k = self_bits12 h" by (simp add: k_def g_def)
  obtain q i u where q: "acq_attempts E reps m 0 k t0 = Some (q, i, u)" "r = q" "u = ts"
    using r(1) unfolding acq_run_def E(2) op prod.case g_def [symmetric] y(1) option.case sum.case k_def [symmetric]
    by (simp add: r(2) kb fits(2) [symmetric] t0(1) [unfolded One_nat_def] bind_eq_Some_conv) (auto split: if_splits)
  have "length [] + m * reps < 2 ^ 32" using h(2) by simp
  from attempts_result [OF E fits(1) random bt t0(2) this q(1)] q(2,3) show ?thesis by auto
qed

lemma main_result:
  fixes E :: "('d \<times> 't, 's) acq_env"
  assumes E: "env_scope E = on_scope sp" "env_target E = on_target tp"
    and fits: "numpy_fits (env_np E) (env_i2 E) acq_numSamples (acq_numSamples div 2)"
    and random: "\<And>k. length (env_urandom E k) = 16" and files: "finite {nm. env_isfile E nm}" and bound: "m * reps < 2 ^ 32"
    and x: "ser_open tp ''/dev/ttyUSB0'' acq_timeout (snd w) = (True, x)" "good x" "taken x = []" "length (unread x) \<le> 80"
    and r: "acq_main E m reps argv w = Some (r, h', ts)"
  shows "ts = TraceSet_init \<or> (\<exists>trs. stored enc (env_np E) (acq_numSamples div 2) trs ts \<and> length trs \<le> m * reps \<and>
    (\<exists>e. r = Going \<or> r = Raised e))"
proof -
  obtain q h where q: "init_Scope (on_scope sp) ''/dev/ttyACM0'' (1 / 2) (int acq_numSamples) 1 True 0x444 0 3000 w = Some (q, h)"
    using r by (auto simp: acq_main_def E split: option.splits)
  have k: "kept (snd w) (int acq_numSamples) True h"
    using q unfolding init_Scope_def by (rule kept_reconnect) (simp add: kept_def)
  show ?thesis
  proof (cases "q = Inr () \<and> length argv = 2")
    case True
    with r q have run: "acq_run E m reps argv h = Some (r, h', ts)" by (simp add: acq_main_def E)
    have "\<exists>trs. stored enc (env_np E) (acq_numSamples div 2) trs ts \<and> length trs \<le> m * reps \<and> (\<exists>e. r = Going \<or> r = Raised e)"
      by (rule run_result [OF E _ _ random files _ bound _ x(2-4) run]) (use k fits x(1) True in \<open>simp_all add: kept_def\<close>)
    then show ?thesis ..
  next
    case False
    then show ?thesis using r q by (cases q) (auto simp: acq_main_def acq_run_def E)
  qed
qed

text \<open>With an oscilloscope that does its work every repetition stores a trace.\<close>

lemma repeat_input_stores:
  fixes E :: "('d \<times> 't, 's) acq_env"
  assumes E: "env_scope E = on_scope sp" "env_target E = on_target tp"
    and fits: "numpy_fits (env_np E) (if b then env_i2 E else env_u8 E) n ns"
    and coop: "cooperative sp (env_i2 E) (env_u8 E) G" "G 0 h"
    and st: "between (int n) b h" "stored enc (env_np E) ns trs ts" "Suc (length trs) < 2 ^ 32" and pt: "length pt = 16"
  shows "\<exists>h' ts' tr. repeat_input E pt h ts = Some (Going, h', ts') \<and> G 0 h' \<and> between (int n) b h' \<and>
    stored enc (env_np E) ns (trs @ [tr]) ts'"
proof -
  obtain y where y: "target_write (on_target tp) (ch CHR ''a'' # pt) h = (Inr (), h\<lparr>device := (fst (device h), y)\<rparr>)"
    "half_target y" "taken y = ch CHR ''a'' # pt" using write_block [of h pt] st(1) pt by (auto simp: between_def kept_def)
  define h1 where "h1 = h\<lparr>device := (fst (device h), y)\<rparr>"
  note D = cooperativeD [OF coop(1)]
  have k1: "kept y (int n) b h1" "G 0 h1" using st(1) D(1) [OF coop(2)] by (auto simp: h1_def between_def kept_def)
  obtain h2 where h2: "arm (on_scope sp) h1 = (Inr (), h2)" "G 1 h2" using D(2) [OF k1(2)] by blast
  have "kept y (int n) b h2" by (rule keepsD [OF kept_arm h2(1) k1(1)])
  then have d2: "snd (device h2) = y" by (simp add: kept_def)
  obtain z where z: "py_then (target_write (on_target tp) [0x0A]) (target_read (on_target tp) acq_timeout 16) h2 =
      (Inr (enc pt), h2\<lparr>device := (fst (device h2), z)\<rparr>)" "idle_target z"
    using answer_block [of h2 pt 16 "0x0A" acq_timeout] y(2,3) d2 by auto
  define h3 where "h3 = h2\<lparr>device := (fst (device h2), z)\<rparr>"
  have "G 1 h3" using D(1) [OF h2(2)] by (simp add: h3_def)
  then obtain h4 where h4: "waitForCompletion (on_scope sp) h3 = (Inr True, h4)" "G 2 h4" using D(3) by blast
  obtain h5 smp where h5: "getSamples (on_scope sp) (env_i2 E) (env_u8 E) h4 = (Inr smp, h5)" "G 0 h5" using D(4) [OF h4(2)] by blast
  have acq: "acquire_block E pt h = (Inr (Some (pt @ enc pt, smp)), h5)"
    unfolding acquire_block_def E py_then_def py_bind_def y(1) [folded h1_def] prod.case sum.case h2
    using z(1) h4(1) h5(1) by (simp add: h3_def [symmetric] py_then_def py_bind_def enc_length pt py_return_def)
  from acquire_result [OF E st(1) pt acq] obtain bs where bs: "between (int n) b h5" "length bs = n"
    "(if b then env_i2 E else env_u8 E) bs = Inr smp" by auto
  have np: "length (tofile (env_np E) Float32 smp) = ns * 4"
    "\<forall>rest. fst (fromfile (env_np E) Float32 ns (tofile (env_np E) Float32 smp @ rest)) = smp"
    using fits bs(2,3) by (auto simp: numpy_fits_def)
  from stored_add [OF st(2,3) pt enc_length [OF pt] np refl] acq h5(2) bs(1) show ?thesis
    by (auto simp: repeat_input_def)
qed

lemma repeat_inputs_stores:
  fixes E :: "('d \<times> 't, 's) acq_env"
  assumes E: "env_scope E = on_scope sp" "env_target E = on_target tp"
    and fits: "numpy_fits (env_np E) (if b then env_i2 E else env_u8 E) n ns"
    and coop: "cooperative sp (env_i2 E) (env_u8 E) G" and pt: "length pt = 16"
  shows "G 0 h \<Longrightarrow> between (int n) b h \<Longrightarrow> stored enc (env_np E) ns trs ts \<Longrightarrow> length trs + m < 2 ^ 32 \<Longrightarrow>
    \<exists>h' ts' new. repeat_inputs E pt m h ts = Some (Going, h', ts') \<and> G 0 h' \<and> between (int n) b h' \<and>
      stored enc (env_np E) ns (trs @ new) ts' \<and> length new = m"
proof (induction m arbitrary: h trs ts)
  case (Suc m)
  have "Suc (length trs) < 2 ^ 32" using Suc.prems(4) by simp
  from repeat_input_stores [OF E fits coop Suc.prems(1-3) this pt] obtain g u tr where
    g: "repeat_input E pt h ts = Some (Going, g, u)" "G 0 g" "between (int n) b g" "stored enc (env_np E) ns (trs @ [tr]) u" by blast
  from Suc.IH [OF g(2-4)] Suc.prems(4) obtain h' ts' new where
    "repeat_inputs E pt m g u = Some (Going, h', ts')" "G 0 h'" "between (int n) b h'"
    "stored enc (env_np E) ns ((trs @ [tr]) @ new) ts'" "length new = m" by auto
  with g(1) show ?case by (intro exI [of _ h'] exI [of _ ts'] exI [of _ "tr # new"]) simp
qed auto

lemma attempts_store:
  fixes E :: "('d \<times> 't, 's) acq_env"
  assumes E: "env_scope E = on_scope sp" "env_target E = on_target tp"
    and fits: "numpy_fits (env_np E) (if b then env_i2 E else env_u8 E) n ns"
    and coop: "cooperative sp (env_i2 E) (env_u8 E) G" and random: "\<And>k. length (env_urandom E k) = 16"
    and draws: "\<And>k. \<exists>i\<ge>k. 0x0A \<notin> set (env_urandom E i)"
  shows "G 0 h \<Longrightarrow> between (int n) b h \<Longrightarrow> stored enc (env_np E) ns trs ts \<Longrightarrow> length trs + m * reps < 2 ^ 32 \<Longrightarrow>
    \<exists>h' ts' new. acq_attempts E reps m k h ts = Some (Going, h', ts') \<and> stored enc (env_np E) ns (trs @ new) ts' \<and> length new = m * reps"
proof (induction m arbitrary: h trs ts k)
  case (Suc m)
  obtain pt k' where pt: "draw_block (env_urandom E) k = Some (pt, k')" using draws [of k] draw_block_returns [of k] by (metis surj_pair)
  have l: "length pt = 16" using draw_block_ok [OF pt] random by auto
  have "length trs + reps < 2 ^ 32" using Suc.prems(4) by simp
  from repeat_inputs_stores [OF E fits coop l Suc.prems(1-3) this] obtain g u new where
    g: "repeat_inputs E pt reps h ts = Some (Going, g, u)" "G 0 g" "between (int n) b g" "stored enc (env_np E) ns (trs @ new) u"
      "length new = reps" by blast
  have "length (trs @ new) + m * reps < 2 ^ 32" using Suc.prems(4) g(5) by simp
  from Suc.IH [OF g(2-4) this, of k'] obtain h' ts' more where
    "acq_attempts E reps m k' g u = Some (Going, h', ts')" "stored enc (env_np E) ns ((trs @ new) @ more) ts'" "length more = m * reps" by blast
  with g(1,5) pt show ?case by (intro exI [of _ h'] exI [of _ ts'] exI [of _ "new @ more"]) simp
qed auto

lemma main_stores:
  fixes E :: "('d \<times> 't, 's) acq_env"
  assumes E: "env_scope E = on_scope sp" "env_target E = on_target tp"
    and fits: "numpy_fits (env_np E) (env_i2 E) acq_numSamples (acq_numSamples div 2)"
    and random: "\<And>k. length (env_urandom E k) = 16" and files: "finite {nm. env_isfile E nm}" and bound: "m * reps < 2 ^ 32"
    and x: "ser_open tp ''/dev/ttyUSB0'' acq_timeout (snd w) = (True, x)" "good x" "taken x = []" "length (unread x) \<le> 80"
    and draws: "\<And>k. \<exists>i\<ge>k. 0x0A \<notin> set (env_urandom E i)" and coop: "cooperative sp (env_i2 E) (env_u8 E) G"
    and h: "init_Scope (on_scope sp) ''/dev/ttyACM0'' (1 / 2) (int acq_numSamples) 1 True 0x444 0 3000 w = Some (Inr (), h)" "G 0 h"
    and argv: "length argv = 2"
  shows "\<exists>h' ts trs. acq_main E m reps argv w = Some (Going, h', ts) \<and> stored enc (env_np E) (acq_numSamples div 2) trs ts \<and>
    length trs = m * reps"
proof -
  have ns: "acq_numSamples div 2 < 2 ^ 32" by (simp add: acq_consts)
  have kh: "kept (snd w) (int acq_numSamples) True h"
    using h(1) unfolding init_Scope_def by (rule kept_reconnect) (simp add: kept_def)
  define g where "g = h\<lparr>device := (fst (device h), x)\<rparr>"
  obtain y where y: "testTarget_loop (on_target tp) acq_timeout g = Some (Inr (), g\<lparr>device := (fst (device h), y)\<rparr>)" "idle_target y"
    using testTarget_syncs [of g acq_timeout] x(2-4) by (auto simp: g_def)
  define k where "k = g\<lparr>device := (fst (device h), y)\<rparr>"
  have bt: "between (int acq_numSamples) True k" and Gk: "G 0 k" and kb: "self_bits12 k"
    using y(2) kh cooperativeD(1) [OF coop cooperativeD(1) [OF coop h(2)], of x y]
    by (auto simp: between_def kept_def k_def g_def)
  obtain t0 where t0: "TraceSet_new (env_isfile E) (argv ! 1) titleLen CodingFloat dataLen (acq_numSamples div 2) (0, 0) TraceSet_init = Some t0"
    "stored enc (env_np E) (acq_numSamples div 2) [] t0" using stored_new [OF files ns] by blast
  have op: "ser_open (on_target tp) ''/dev/ttyUSB0'' acq_timeout (device h) = (True, fst (device h), x)"
    using x(1) kh by (simp add: on_target_def case_prod_unfold apsnd_def map_prod_def kept_def)
  have "\<exists>h' ts new. acq_attempts E reps m 0 k t0 = Some (Going, h', ts) \<and> stored enc (env_np E) (acq_numSamples div 2) ([] @ new) ts \<and>
      length new = m * reps"
    by (rule attempts_store [OF E _ coop random draws Gk bt t0(2)]) (use fits bound in simp_all)
  then obtain h' ts trs where at: "acq_attempts E reps m 0 k t0 = Some (Going, h', ts)"
    "stored enc (env_np E) (acq_numSamples div 2) trs ts" "length trs = m * reps" by auto
  have "acq_run E m reps argv h = Some (Going, snd (close_scope (env_scope E) h'), ts)"
    unfolding acq_run_def E(2) op prod.case g_def [symmetric] y(1) option.case sum.case k_def [symmetric]
    by (simp add: argv kb t0(1) [unfolded One_nat_def] at(1))
  with at show ?thesis by (auto simp: acq_main_def E h(1))
qed

end

subsection \<open>Properties\<close>

lemma stored_readable:
  assumes "stored enc (env_np E) (acq_numSamples div 2) trs ts" "length trs \<le> n" "n < 2 ^ 32"
  shows "\<exists>f t. handle ts = Some f \<and> TraceSet_open (content f) TraceSet_init = Inr t \<and> TraceSet_iter (env_np E) t = Inr (map Some trs)"
  by (rule stored_read [OF assms(1)]) (use assms(2,3) in \<open>simp_all add: acq_consts\<close>)

text \<open>A board that only answers, and arrays that keep the bytes and write two for each of them.\<close>

definition answering_board :: "byte list pyserial" where
  "answering_board = \<lparr>ser_open = (\<lambda>_ _ q. (True, q)), ser_close = (\<lambda>q. q),
     ser_write = (\<lambda>bs q. (True, if hd bs = ch CHR ''t'' then [ch CHR ''T'']
       else if hd bs = ch CHR ''d'' then [ch CHR ''r'', ch CHR ''d'']
       else if hd bs = ch CHR ''s'' then replicate 2500 0 else [ch CHR ''d''])),
     ser_read = (\<lambda>_ n q. (Some (take (nat n) q), drop (nat n) q))\<rparr>"

definition doubling_numpy :: "byte list numpy" where
  "doubling_numpy = \<lparr>tofile = (\<lambda>_ xs. concat (map (\<lambda>x. [x, 0]) xs)),
     fromfile = (\<lambda>_ n bs. (map (\<lambda>i. bs ! (2 * i)) [0..<2 * n], 4 * n))\<rparr>"

definition acq_demo :: "(byte list \<times> toe_port, byte list) acq_env" where
  "acq_demo = \<lparr>env_scope = on_scope answering_board, env_target = on_target (toe_link (slow_sketch [])), env_np = doubling_numpy,
     env_i2 = Inr, env_u8 = Inr, env_urandom = (\<lambda>k. if even k then replicate 16 0x0A else replicate 16 7), env_isfile = (\<lambda>_. False)\<rparr>"

text \<open>C7. Every stored trace is a plaintext with its encryption. With either sketch behind the port
  of the target and anything at all behind the port of the oscilloscope, also a port that raises or
  a board that answers nonsense, the script either ends before it creates a file, or the file it
  leaves behind is a readable trace set, and the data of every trace in it are sixteen bytes
  followed by their AES-128 encryption under the key of the target. This holds after any number
  of attempts and also when an exception ends the script early; storing a trace never raises.
\<close>

theorem acquisition_stores_encryptions:
  assumes "env_scope E = on_scope sp"
    "env_target E = on_target (toe_link (slow_sketch junk)) \<or> env_target E = on_target (toe_link (lib_loop aes128))"
    "numpy_fits (env_np E) (env_i2 E) acq_numSamples (acq_numSamples div 2)"
    "\<And>k. length (env_urandom E k) = 16" "finite {nm. env_isfile E nm}" "m * reps < 2 ^ 32"
    "toe_good (snd w)" "toe_taken (snd w) = []" "length (toe_unread (snd w)) \<le> 80"
    "acq_main E m reps argv w = Some (r, h', ts)"
  shows "ts = TraceSet_init \<or> (\<exists>trs f t. handle ts = Some f \<and> TraceSet_open (content f) TraceSet_init = Inr t \<and>
    TraceSet_iter (env_np E) t = Inr (map Some trs) \<and> length trs \<le> m * reps \<and> (\<exists>e. r = Going \<or> r = Raised e) \<and>
    (\<forall>tr\<in>set trs. \<exists>pt. length pt = 16 \<and> data tr = map unat (pt @ aes128 toe_key pt)))"
proof -
  have "ts = TraceSet_init \<or> (\<exists>trs. stored (aes128 toe_key) (env_np E) (acq_numSamples div 2) trs ts \<and> length trs \<le> m * reps \<and>
    (\<exists>e. r = Going \<or> r = Raised e))"
    using assms(2)
  proof
    assume "env_target E = on_target (toe_link (slow_sketch junk))"
    from slow.port.main_result [OF assms(1) this assms(3-6) toe_link_open assms(7-10)] show ?thesis .
  next
    assume "env_target E = on_target (toe_link (lib_loop aes128))"
    from lib.port.main_result [OF assms(1) this assms(3-6) toe_link_open assms(7-10)] show ?thesis .
  qed
  then show ?thesis using stored_readable [of "aes128 toe_key" E _ ts "m * reps"] assms(6) by (fastforce simp: stored_def)
qed

text \<open>C8. With an oscilloscope that does its work the acquisition completes. When the oscilloscope
  arms, reports completion and returns its samples whenever it is asked, and the random generator
  keeps coming up with blocks without a line end, the script returns without an exception and the
  file holds exactly one trace for every repetition of every attempt.
\<close>

theorem acquisition_completes:
  assumes "env_scope E = on_scope sp"
    "env_target E = on_target (toe_link (slow_sketch junk)) \<or> env_target E = on_target (toe_link (lib_loop aes128))"
    "numpy_fits (env_np E) (env_i2 E) acq_numSamples (acq_numSamples div 2)"
    "\<And>k. length (env_urandom E k) = 16" "finite {nm. env_isfile E nm}" "m * reps < 2 ^ 32"
    "toe_good (snd w)" "toe_taken (snd w) = []" "length (toe_unread (snd w)) \<le> 80"
    "\<And>k. \<exists>i\<ge>k. 0x0A \<notin> set (env_urandom E i)" "cooperative sp (env_i2 E) (env_u8 E) G"
    "init_Scope (on_scope sp) ''/dev/ttyACM0'' (1 / 2) (int acq_numSamples) 1 True 0x444 0 3000 w = Some (Inr (), h)" "G 0 h"
    "length argv = 2"
  shows "\<exists>h' ts trs f t. acq_main E m reps argv w = Some (Going, h', ts) \<and> handle ts = Some f \<and>
    TraceSet_open (content f) TraceSet_init = Inr t \<and> TraceSet_iter (env_np E) t = Inr (map Some trs) \<and> length trs = m * reps"
proof -
  have "\<exists>h' ts trs. acq_main E m reps argv w = Some (Going, h', ts) \<and> stored (aes128 toe_key) (env_np E) (acq_numSamples div 2) trs ts \<and>
    length trs = m * reps"
    using assms(2)
  proof
    assume "env_target E = on_target (toe_link (slow_sketch junk))"
    from slow.port.main_stores [OF assms(1) this assms(3-6) toe_link_open assms(7-14)] show ?thesis .
  next
    assume "env_target E = on_target (toe_link (lib_loop aes128))"
    from lib.port.main_stores [OF assms(1) this assms(3-6) toe_link_open assms(7-14)] show ?thesis .
  qed
  then show ?thesis using stored_readable [of "aes128 toe_key" E _ _ "m * reps"] assms(6) by fastforce
qed

lemma doubling_nth: "i < length xs \<Longrightarrow> (concat (map (\<lambda>x. [x, 0]) xs) @ rest) ! (2 * i) = xs ! i"
proof (induction xs arbitrary: i)
  case (Cons x xs)
  then show ?case by (cases i) simp_all
qed simp

lemma doubling_fits: "numpy_fits doubling_numpy Inr acq_numSamples (acq_numSamples div 2)"
proof -
  have "length (concat (map (\<lambda>x. [x, 0 :: byte]) xs)) = 2 * length xs" for xs by (induction xs) simp_all
  moreover have "map (\<lambda>i. (concat (map (\<lambda>x. [x, 0]) xs) @ rest) ! (2 * i)) [0..<2500] = xs" if "length xs = 2500" for xs rest :: "byte list"
    by (rule nth_equalityI) (use that in \<open>simp_all add: doubling_nth\<close>)
  ultimately show ?thesis by (simp add: numpy_fits_def doubling_numpy_def acq_consts)
qed

definition demo_ready :: "nat \<Rightarrow> (byte list \<times> toe_port) Scope_obj \<Rightarrow> bool" where
  "demo_ready i h \<longleftrightarrow> self_serial h \<noteq> None \<and> numSamples h = 2500 \<and> fst (device h) = (if i = 1 then [ch CHR ''d''] else [])"

lemmas demo_simps = py_then_def py_bind_def py_return_def py_raise_def py_assert_def py_set_def serial_write_def serial_read_def
  py_bytes_def answering_board_def ch_def py_ord_def

lemma demo_cooperative: "cooperative answering_board Inr Inr demo_ready"
  unfolding cooperative_def
  by (auto simp: demo_ready_def arm_def waitForCompletion_def getSamples_def demo_simps)

lemma demo_init:
  "\<exists>h. init_Scope (on_scope answering_board) ''/dev/ttyACM0'' (1 / 2) (int acq_numSamples) 1 True 0x444 0 3000 ([], fresh_toe) = Some (Inr (), h) \<and>
    demo_ready 0 h"
  unfolding init_Scope_def reconnect_def
  by (subst reconnect_loop.simps, simp add: demo_simps testScope_def reconnect_settings_def setSamples_def setSampleSpeed_def
    set12Bits_def setBias_def setGain_def setDelay_def checkResponse_def demo_ready_def acq_consts)
    (rule exI [of _ "1 / 2"], simp)

lemma demo_env:
  "env_scope acq_demo = on_scope answering_board" "env_target acq_demo = on_target (toe_link (slow_sketch []))"
  "env_np acq_demo = doubling_numpy" "env_i2 acq_demo = Inr" "env_u8 acq_demo = Inr" "length (env_urandom acq_demo k) = 16"
  "env_isfile acq_demo = (\<lambda>_. False)"
  by (simp_all add: acq_demo_def)

lemma demo_draws: "\<exists>i\<ge>k. 0x0A \<notin> set (env_urandom acq_demo i)"
  by (rule exI [of _ "2 * k + 1"]) (simp add: acq_demo_def)

theorem acquisition_completes_witness:
  "\<exists>h' ts trs f t. acq_main acq_demo 3 2 [''runSetup.py'', ''out.trs''] ([], fresh_toe) = Some (Going, h', ts) \<and> handle ts = Some f \<and>
    TraceSet_open (content f) TraceSet_init = Inr t \<and> TraceSet_iter doubling_numpy t = Inr (map Some trs) \<and> length trs = 6"
proof -
  obtain h where h: "init_Scope (on_scope answering_board) ''/dev/ttyACM0'' (1 / 2) (int acq_numSamples) 1 True 0x444 0 3000 ([], fresh_toe) = Some (Inr (), h)"
    "demo_ready 0 h" using demo_init by blast
  have "\<exists>h' ts trs f t. acq_main acq_demo 3 2 [''runSetup.py'', ''out.trs''] ([], fresh_toe) = Some (Going, h', ts) \<and> handle ts = Some f \<and>
    TraceSet_open (content f) TraceSet_init = Inr t \<and> TraceSet_iter (env_np acq_demo) t = Inr (map Some trs) \<and> length trs = 3 * 2"
    by (intro acquisition_completes [where sp = answering_board and G = demo_ready and junk = "[]", OF _ _ _ _ _ _ _ _ _ _ _ h])
      (simp_all add: demo_env demo_draws doubling_fits fresh_toe_ok demo_cooperative)
  then show ?thesis by (simp add: demo_env)
qed

theorem acquisition_stores_encryptions_witness:
  "\<exists>h' ts trs f t. acq_main acq_demo 3 2 [''runSetup.py'', ''out.trs''] ([], fresh_toe) = Some (Going, h', ts) \<and>
    handle ts = Some f \<and> TraceSet_open (content f) TraceSet_init = Inr t \<and> TraceSet_iter doubling_numpy t = Inr (map Some trs) \<and>
    (\<forall>tr\<in>set trs. \<exists>pt. length pt = 16 \<and> data tr = map unat (pt @ aes128 toe_key pt))"
proof -
  obtain h where h: "init_Scope (on_scope answering_board) ''/dev/ttyACM0'' (1 / 2) (int acq_numSamples) 1 True 0x444 0 3000 ([], fresh_toe) = Some (Inr (), h)"
    "demo_ready 0 h" using demo_init by blast
  have "\<exists>h' ts trs. acq_main acq_demo 3 2 [''runSetup.py'', ''out.trs''] ([], fresh_toe) = Some (Going, h', ts) \<and>
      stored (aes128 toe_key) (env_np acq_demo) (acq_numSamples div 2) trs ts \<and> length trs = 3 * 2"
    by (intro slow.port.main_stores [where sp = answering_board and G = demo_ready, OF _ _ _ _ _ _ toe_link_open _ _ _ _ _ h])
      (simp_all add: demo_env demo_draws doubling_fits fresh_toe_ok demo_cooperative)
  then obtain h' ts where r: "acq_main acq_demo 3 2 [''runSetup.py'', ''out.trs''] ([], fresh_toe) = Some (Going, h', ts)" "handle ts \<noteq> None"
    by (auto simp: stored_def writing_def)
  have "ts = TraceSet_init \<or> (\<exists>trs f t. handle ts = Some f \<and> TraceSet_open (content f) TraceSet_init = Inr t \<and>
    TraceSet_iter (env_np acq_demo) t = Inr (map Some trs) \<and> length trs \<le> 3 * 2 \<and> (\<exists>e. Going = Going \<or> Going = Raised e) \<and>
    (\<forall>tr\<in>set trs. \<exists>pt. length pt = 16 \<and> data tr = map unat (pt @ aes128 toe_key pt)))"
    by (rule acquisition_stores_encryptions [OF demo_env(1) _ _ demo_env(6) _ _ _ _ _ r(1), where junk = "[]"]) (simp_all add: demo_env demo_draws doubling_fits fresh_toe_ok)
  moreover have "ts \<noteq> TraceSet_init" using r(2) by (auto simp: TraceSet_init_def)
  ultimately show ?thesis using r(1) by (fastforce simp: demo_env)
qed

end
