(* ===== verification/GlitchCampaign.thy ===== *)
theory GlitchCampaign
  imports TargetLink "HOL-Library.Sublist"
begin

text \<open>
  The glitching script \<open>fi/runSetup.py\<close> and the comparison routines of \<open>fi/parseLog.py\<close>. The script
  disturbs the target during encryptions and sorts the answers. The board switches the power of the
  target, so that the two serial ports share their world. The random generator is a parameter;
  pauses and console output are left out.
\<close>

subsection \<open>The script\<close>

definition fi_timeout :: rat where "fi_timeout = 15 / 100"
definition minWait :: int where "minWait = 0"
definition maxWait :: int where "maxWait = 64000"
definition minGlitch :: int where "minGlitch = 1"
definition maxGlitch :: int where "maxGlitch = 100"
definition maxMutesInARow :: nat where "maxMutesInARow = 1"
definition minPulses :: int where "minPulses = 1"
definition maxPulses :: int where "maxPulses = 1"

text \<open>The counters of the script.\<close>

record fi_stats =
  mutesInARow :: nat
  expected :: nat
  glitched :: nat
  mute :: nat
  corrupted :: nat

definition fi_stats_init :: fi_stats where
  "fi_stats_init = \<lparr>mutesInARow = 0, expected = 0, glitched = 0, mute = 0, corrupted = 0\<rparr>"

definition arduino :: "byte list" where "arduino = map ch ''arduino''"

definition resetTarget :: "'w pyserial \<Rightarrow> 'w pyserial \<Rightarrow> ('w, unit) act" where
  "resetTarget sp tp = py_then (powerOff sp) (py_then (powerOn sp)
     (py_bind (target_read tp fi_timeout 100) (\<lambda>response. py_return ())))"

definition fi_testTarget :: "'w pyserial \<Rightarrow> 'w pyserial \<Rightarrow> 'w Scope_obj \<Rightarrow> ((host_error + unit) \<times> 'w Scope_obj) option" where
  "fi_testTarget sp tp h = (case resetTarget sp tp h of
     (Inl e, h) \<Rightarrow> Some (Inl e, h)
   | (Inr _, h) \<Rightarrow> testTarget_loop tp fi_timeout h)"

definition fi_dataIn :: "byte list" where "fi_dataIn = replicate 16 (ch CHR ''B'')"

text \<open>The encryption without a glitch, whose answer is the expected one.\<close>

definition reference_response :: "'w pyserial \<Rightarrow> ('w, byte list) act" where
  "reference_response tp = py_then (target_write tp (ch CHR ''a'' # fi_dataIn @ [0x0A])) (target_read tp fi_timeout 16)"

text \<open>One glitch: the settings, the encryption with the glitcher armed, and whether the glitcher timed out.\<close>

definition glitch_once ::
  "'w pyserial \<Rightarrow> 'w pyserial \<Rightarrow> int \<Rightarrow> int \<Rightarrow> int \<Rightarrow> ('w, bool \<times> byte list) act" where
  "glitch_once sp tp gl gd gp =
     py_then (setDelay sp gd)
     (py_then (setGlitchLength sp gl)
     (py_then (setPulses sp gp)
     (py_then (target_write tp (ch CHR ''a'' # fi_dataIn))
     (py_then (py_bind (glitchArm sp) (\<lambda>_. py_return ()))
     (py_then (target_write tp [0x0A])
     (py_bind (target_read tp fi_timeout 100) (\<lambda>response.
        py_bind (waitForGlitcher sp) (\<lambda>glitcherTimeout.
          py_return (glitcherTimeout, response)))))))))"

text \<open>The answer is sorted: expected, mute, corrupted or another response.\<close>

definition sort_response :: "byte list \<Rightarrow> byte list \<Rightarrow> fi_stats \<Rightarrow> fi_stats" where
  "sort_response expectedResponse response s =
    (if expectedResponse = response then s\<lparr>expected := expected s + 1, mutesInARow := 0\<rparr>
     else if length response < 16 \<or> sublist arduino response
     then s\<lparr>mute := mute s + 1, mutesInARow := mutesInARow s + 1\<rparr>
     else if length response = 16 then s\<lparr>corrupted := corrupted s + 1, mutesInARow := mutesInARow s + 1\<rparr>
     else s\<lparr>glitched := glitched s + 1, mutesInARow := mutesInARow s + 1\<rparr>)"

text \<open>
  The guarded body of an attempt. Raising leaves the counters as they are at that point: the
  result holds them in both cases.
\<close>

definition fi_body ::
  "'w pyserial \<Rightarrow> 'w pyserial \<Rightarrow> byte list \<Rightarrow> int \<Rightarrow> int \<Rightarrow> int \<Rightarrow> fi_stats \<Rightarrow> 'w Scope_obj \<Rightarrow>
   (host_error + unit) \<times> fi_stats \<times> 'w Scope_obj" where
  "fi_body sp tp expectedResponse gl gd gp s h =
    (case glitch_once sp tp gl gd gp h of
       (Inl e, h) \<Rightarrow> (Inl e, s, h)
     | (Inr (glitcherTimeout, response), h) \<Rightarrow>
         (case (if glitcherTimeout then resetTarget sp tp h else (Inr (), h)) of
            (Inl e, h) \<Rightarrow> (Inl e, s, h)
          | (Inr _, h) \<Rightarrow>
              let s = (if glitcherTimeout then s else sort_response expectedResponse response s) in
              if mutesInARow s > maxMutesInARow
              then (case resetTarget sp tp h of (r, h) \<Rightarrow> (r, s\<lparr>mutesInARow := 0\<rparr>, h))
              else (Inr (), s, h)))"

definition fi_attempt ::
  "'w pyserial \<Rightarrow> 'w pyserial \<Rightarrow> byte list \<Rightarrow> int \<Rightarrow> int \<Rightarrow> int \<Rightarrow> fi_stats \<Rightarrow> 'w Scope_obj \<Rightarrow>
   ((host_error + unit) \<times> fi_stats \<times> 'w Scope_obj) option" where
  "fi_attempt sp tp expectedResponse gl gd gp s h =
    (case fi_body sp tp expectedResponse gl gd gp s h of
       (Inr _, s, h) \<Rightarrow> Some (Inr (), s, h)
     | (Inl e, s, h) \<Rightarrow> (case testScope sp h of
         (Inl e, h) \<Rightarrow> Some (Inl e, s, h)
       | (Inr _, h) \<Rightarrow> (case fi_testTarget sp tp h of
           None \<Rightarrow> None
         | Some (r, h) \<Rightarrow> Some (r, s, h))))"

text \<open>\<open>randint\<close> is given by the numbers it returns for the \<open>k\<close>-th attempt.\<close>

primrec fi_attempts ::
  "'w pyserial \<Rightarrow> 'w pyserial \<Rightarrow> (int \<Rightarrow> int \<Rightarrow> nat \<Rightarrow> int) \<Rightarrow> byte list \<Rightarrow> nat \<Rightarrow> nat \<Rightarrow> fi_stats \<Rightarrow> 'w Scope_obj \<Rightarrow>
   ((host_error + unit) \<times> fi_stats \<times> 'w Scope_obj) option" where
  "fi_attempts sp tp randint expectedResponse 0 k s h = Some (Inr (), s, h)"
| "fi_attempts sp tp randint expectedResponse (Suc n) k s h = do {
     (r, s, h) \<leftarrow> fi_attempt sp tp expectedResponse (randint minGlitch maxGlitch (3 * k)) (randint minWait maxWait (3 * k + 1))
       (randint minPulses maxPulses (3 * k + 2)) s h;
     if r = Inr () then fi_attempts sp tp randint expectedResponse n (Suc k) s h else Some (r, s, h)
   }"

definition fi_main :: "'w pyserial \<Rightarrow> 'w pyserial \<Rightarrow> (int \<Rightarrow> int \<Rightarrow> nat \<Rightarrow> int) \<Rightarrow> nat \<Rightarrow> 'w \<Rightarrow>
   ((host_error + unit) \<times> fi_stats \<times> 'w Scope_obj) option" where
  "fi_main sp tp randint n w =
    (case init_Scope sp ''/dev/ttyACM0'' (1 / 2) 3500 2 True 0x444 0 0 w of
       None \<Rightarrow> None
     | Some (Inl e, h) \<Rightarrow> Some (Inl e, fi_stats_init, h)
     | Some (Inr _, h) \<Rightarrow> (case ser_open tp ''/dev/ttyUSB0'' fi_timeout (device h) of (opened, w) \<Rightarrow>
         if \<not> opened then Some (Inl SerialException, fi_stats_init, h\<lparr>device := w\<rparr>)
         else (case fi_testTarget sp tp (h\<lparr>device := w\<rparr>) of
           None \<Rightarrow> None
         | Some (Inl e, h) \<Rightarrow> Some (Inl e, fi_stats_init, h)
         | Some (Inr _, h) \<Rightarrow> (case reference_response tp h of
             (Inl e, h) \<Rightarrow> Some (Inl e, fi_stats_init, h)
           | (Inr expectedResponse, h) \<Rightarrow> fi_attempts sp tp randint expectedResponse n 0 fi_stats_init h))))"

abbreviation fi_script :: "'w pyserial \<Rightarrow> 'w pyserial \<Rightarrow> (int \<Rightarrow> int \<Rightarrow> nat \<Rightarrow> int) \<Rightarrow> 'w \<Rightarrow>
   ((host_error + unit) \<times> fi_stats \<times> 'w Scope_obj) option" where
  "fi_script sp tp randint \<equiv> fi_main sp tp randint 100000"

subsection \<open>Comparing answers\<close>

text \<open>Both routines stop at the end of the shorter answer.\<close>

definition diffBytes :: "byte list \<Rightarrow> byte list \<Rightarrow> nat" where
  "diffBytes normal changed = sum_list (map (\<lambda>(x, y). if x \<noteq> y then 1 else 0) (zip changed normal))"

definition diffX :: "byte list \<Rightarrow> byte list \<Rightarrow> string" where
  "diffX normal changed = map (\<lambda>(x, y). if x \<noteq> y then CHR ''x'' else CHR ''.'') (zip changed normal)"

lemma diffBytes_count: "diffBytes normal changed = length (filter (\<lambda>c. c = CHR ''x'') (diffX normal changed))"
proof -
  have "sum_list (map (\<lambda>(x, y). if x \<noteq> y then 1 else 0) ps) =
      length (filter (\<lambda>c. c = CHR ''x'') (map (\<lambda>(x, y). if x \<noteq> y then CHR ''x'' else CHR ''.'') ps))" for ps :: "(byte \<times> byte) list"
    by (induction ps) (auto split: if_splits)
  then show ?thesis by (simp add: diffBytes_def diffX_def)
qed

lemma diffBytes_zero: "length normal = length changed \<Longrightarrow> diffBytes normal changed = 0 \<longleftrightarrow> normal = changed"
  unfolding diffBytes_def by (induction normal changed rule: list_induct2) auto

subsection \<open>The counters\<close>

definition answers :: "fi_stats \<Rightarrow> nat" where
  "answers s = expected s + glitched s + mute s + corrupted s"

lemma answers_mutes [simp]: "answers (s\<lparr>mutesInARow := m\<rparr>) = answers s"
  by (simp add: answers_def)

lemma sort_counts: "answers (sort_response e r s) = answers s + 1" "mutesInARow (sort_response e r s) \<le> mutesInARow s + 1"
  by (simp_all add: sort_response_def answers_def)

lemma body_counts:
  assumes "fi_body sp tp e gl gd gp s h = (r, s', h')" "mutesInARow s \<le> maxMutesInARow"
  shows "answers s' \<le> answers s + 1 \<and> mutesInARow s' \<le> maxMutesInARow"
  using assms sort_counts [of e _ s]
  by (auto simp: fi_body_def Let_def split: prod.splits sum.splits if_splits)

lemma attempt_counts:
  assumes "fi_attempt sp tp e gl gd gp s h = Some (r, s', h')" "mutesInARow s \<le> maxMutesInARow"
  shows "answers s' \<le> answers s + 1 \<and> mutesInARow s' \<le> maxMutesInARow"
proof -
  obtain q u g where b: "fi_body sp tp e gl gd gp s h = (q, u, g)" by (metis surj_pair)
  have "s' = u" using assms(1) b by (auto simp: fi_attempt_def split: sum.splits prod.splits option.splits)
  with body_counts [OF b assms(2)] show ?thesis by simp
qed

lemma attempts_count:
  assumes "fi_attempts sp tp rnd e n k s h = Some (r, s', h')" "mutesInARow s \<le> maxMutesInARow"
  shows "answers s' \<le> answers s + n \<and> mutesInARow s' \<le> maxMutesInARow"
  using assms
proof (induction n arbitrary: k s h)
  case (Suc n)
  obtain q u g where u: "fi_attempt sp tp e (rnd minGlitch maxGlitch (3 * k)) (rnd minWait maxWait (3 * k + 1))
       (rnd minPulses maxPulses (3 * k + 2)) s h = Some (q, u, g)"
    "(if q = Inr () then fi_attempts sp tp rnd e n (Suc k) u g else Some (q, u, g)) = Some (r, s', h')"
    using Suc.prems(1) by (auto simp: bind_eq_Some_conv)
  from attempt_counts [OF u(1) Suc.prems(2)] Suc.IH [of "Suc k" u g] u(2) show ?case by (fastforce split: if_splits)
qed simp

subsection \<open>A glitcher without effect\<close>

text \<open>No answer has been counted but expected ones.\<close>

definition quiet_stats :: "fi_stats \<Rightarrow> bool" where
  "quiet_stats s \<longleftrightarrow> glitched s = 0 \<and> mute s = 0 \<and> corrupted s = 0 \<and> mutesInARow s = 0"

context target_link
begin

text \<open>The target may still have something to say, like the greeting of its start.\<close>

definition greeting :: "int \<Rightarrow> bool \<Rightarrow> ('d \<times> 't) Scope_obj \<Rightarrow> bool" where
  "greeting n b h \<longleftrightarrow> (\<exists>x. good x \<and> (taken x = [] \<or> half_target x) \<and> length (unread x) \<le> 80 \<and> kept x n b h)"

lemma between_interrupted: "between n b h \<Longrightarrow> interrupted n b h"
  by (auto simp: between_def interrupted_def)

lemma interrupted_greeting: "interrupted n b h \<Longrightarrow> greeting n b h"
  by (auto simp: interrupted_def greeting_def idle_target_def half_target_def)

lemma reset_kept:
  assumes "resetTarget (on_scope sp) (on_target tp) h = (r, h')" "greeting n b h"
  shows "greeting n b h' \<and> (interrupted n b h \<longrightarrow> interrupted n b h') \<and> (between n b h \<longrightarrow> between n b h')"
proof -
  obtain x where x: "good x" "taken x = [] \<or> half_target x" "length (unread x) \<le> 80" "kept x n b h"
    using assms(2) by (auto simp: greeting_def)
  obtain r1 h1 where h1: "powerOff (on_scope sp) h = (r1, h1)" by (meson surj_pair)
  obtain r2 h2 where h2: "powerOn (on_scope sp) h1 = (r2, h2)" by (meson surj_pair)
  have k: "kept x n b h1" by (rule keepsD [OF kept_power(2) h1 x(4)])
  have k2: "kept x n b h2" by (rule keepsD [OF kept_power(1) h2 k])
  obtain y where y: "ser_read tp fi_timeout 100 (snd (device h2)) = (Some (unread x), y)" "good y" "taken y = taken x" "unread y = []"
    using reads [OF x(1), of 100 fi_timeout] x(3) k2 by (auto simp: kept_def)
  have yx: "taken y = [] \<or> half_target y" "idle_target x \<Longrightarrow> idle_target y" "half_target x \<Longrightarrow> half_target y"
    using y(2-4) x(2) by (auto simp: idle_target_def half_target_def)
  have "h' = h1 \<or> h' = h2 \<or> h' = h2\<lparr>device := (fst (device h2), y)\<rparr>"
    using assms(1) h1 h2 y(1)
    by (auto simp: resetTarget_def py_then_def py_bind_def target_read_def py_return_def split: sum.splits prod.splits)
  moreover have "kept y n b (h2\<lparr>device := (fst (device h2), y)\<rparr>)" using k2 by (simp add: kept_def)
  ultimately obtain z where z: "kept z n b h'" "z = x \<or> z = y" using k k2 by blast
  then have "greeting n b h'" using x y yx(1) by (auto simp: greeting_def)
  moreover have "interrupted n b h'" if "interrupted n b h"
    using that z yx x(4) by (auto simp: interrupted_def kept_def)
  moreover have "between n b h'" if "between n b h"
    using that z yx x(4) by (auto simp: between_def kept_def)
  ultimately show ?thesis by blast
qed

lemma testTarget_between:
  assumes "fi_testTarget (on_scope sp) (on_target tp) h = Some (r, h')" "greeting n b h"
  shows "r = Inr () \<longrightarrow> between n b h'"
proof -
  obtain q g where g: "resetTarget (on_scope sp) (on_target tp) h = (q, g)" by (meson surj_pair)
  obtain x where x: "good x" "taken x = [] \<or> half_target x" "length (unread x) \<le> 80" "kept x n b g"
    using reset_kept [OF g assms(2)] by (auto simp: greeting_def)
  obtain y where y: "testTarget_loop (on_target tp) fi_timeout g = Some (Inr (), g\<lparr>device := (fst (device g), y)\<rparr>)" "idle_target y"
    using testTarget_syncs [of g fi_timeout] x by (auto simp: kept_def)
  then have "between n b (g\<lparr>device := (fst (device g), y)\<rparr>)" using x(4) by (auto simp: between_def kept_def)
  then show ?thesis using assms(1) g y(1) by (auto simp: fi_testTarget_def split: sum.splits)
qed

lemma testTarget_returns:
  assumes "greeting n b h"
  shows "\<exists>r h'. fi_testTarget (on_scope sp) (on_target tp) h = Some (r, h')"
proof -
  obtain q g where g: "resetTarget (on_scope sp) (on_target tp) h = (q, g)" by (meson surj_pair)
  obtain x where x: "good x" "taken x = [] \<or> half_target x" "length (unread x) \<le> 80" "kept x n b g"
    using reset_kept [OF g assms] by (auto simp: greeting_def)
  then have "\<exists>y. testTarget_loop (on_target tp) fi_timeout g = Some (Inr (), g\<lparr>device := (fst (device g), y)\<rparr>)"
    using testTarget_syncs [of g fi_timeout] by (auto simp: kept_def)
  then show ?thesis using g by (cases q) (auto simp: fi_testTarget_def)
qed

lemma glitch_between:
  assumes "between n b h" "glitch_once (on_scope sp) (on_target tp) gl gd gp h = (r, h')"
  shows "case r of Inl e \<Rightarrow> interrupted n b h' | Inr (t, response) \<Rightarrow> between n b h' \<and> response = enc fi_dataIn"
proof -
  obtain x where x: "idle_target x" "kept x n b h" using assms(1) by (auto simp: between_def)
  obtain r1 h1 r2 h2 r3 h3 where h1: "setDelay (on_scope sp) gd h = (r1, h1)" and h2: "setGlitchLength (on_scope sp) gl h1 = (r2, h2)"
    and h3: "setPulses (on_scope sp) gp h2 = (r3, h3)" by (meson surj_pair)
  have k1: "kept x n b h1" by (rule keepsD [OF kept_glitch(1) h1 x(2)])
  have k2: "kept x n b h2" by (rule keepsD [OF kept_glitch(2) h2 k1])
  have k3: "kept x n b h3" by (rule keepsD [OF kept_glitch(3) h3 k2])
  have pt: "length fi_dataIn = 16" by (simp add: fi_dataIn_def)
  obtain y where y: "target_write (on_target tp) (ch CHR ''a'' # fi_dataIn) h3 = (Inr (), h3\<lparr>device := (fst (device h3), y)\<rparr>)"
    "half_target y" "taken y = ch CHR ''a'' # fi_dataIn" using write_block [OF _ pt, of h3] x(1) k3 by (auto simp: kept_def)
  define h4 where "h4 = h3\<lparr>device := (fst (device h3), y)\<rparr>"
  have k4: "kept y n b h4" using k3 by (simp add: h4_def kept_def)
  obtain r5 h5 where h5: "glitchArm (on_scope sp) h4 = (r5, h5)" by (meson surj_pair)
  have k5: "kept y n b h5" by (rule keepsD [OF kept_glitch(4) h5 k4])
  obtain z where z: "py_then (target_write (on_target tp) [0x0A]) (target_read (on_target tp) fi_timeout 100) h5 =
      (Inr (enc fi_dataIn), h5\<lparr>device := (fst (device h5), z)\<rparr>)" "idle_target z"
    using answer_block [of h5 fi_dataIn 100 "0x0A" fi_timeout] y(2,3) k5 by (auto simp: kept_def)
  define h6 where "h6 = h5\<lparr>device := (fst (device h5), z)\<rparr>"
  have k6: "kept z n b h6" using k5 by (simp add: h6_def kept_def)
  obtain r7 h7 where h7: "waitForGlitcher (on_scope sp) h6 = (r7, h7)" by (meson surj_pair)
  have k7: "kept z n b h7" by (rule keepsD [OF kept_glitch(5) h7 k6])
  have res: "(r, h') = (case r1 of Inl e \<Rightarrow> (Inl e, h1) | Inr _ \<Rightarrow> case r2 of Inl e \<Rightarrow> (Inl e, h2) | Inr _ \<Rightarrow>
      case r3 of Inl e \<Rightarrow> (Inl e, h3) | Inr _ \<Rightarrow> case r5 of Inl e \<Rightarrow> (Inl e, h5) | Inr _ \<Rightarrow>
      case r7 of Inl e \<Rightarrow> (Inl e, h7) | Inr t \<Rightarrow> (Inr (t, enc fi_dataIn), h7))"
    unfolding assms(2) [symmetric] glitch_once_def
    using h1 h2 h3 y(1) h5 z(1) h7
    by (cases r1; cases r2; cases r3; cases r5; cases r7)
      (auto simp: py_then_def py_bind_def py_return_def h4_def [symmetric] h6_def [symmetric] split: prod.splits sum.splits)
  show ?thesis
    using res k1 k2 k3 k5 k7 x(1) y(2) z(2)
    by (cases r1; cases r2; cases r3; cases r5; cases r7) (auto simp: between_def interrupted_def)
qed

lemma body_quiet:
  assumes "between n b h" "quiet_stats s" "fi_body (on_scope sp) (on_target tp) (enc fi_dataIn) gl gd gp s h = (r, s', h')"
  shows "quiet_stats s' \<and> interrupted n b h' \<and> (r = Inr () \<longrightarrow> between n b h')"
proof -
  obtain q g where g: "glitch_once (on_scope sp) (on_target tp) gl gd gp h = (q, g)" by (meson surj_pair)
  note k = glitch_between [OF assms(1) g]
  show ?thesis
  proof (cases q)
    case (Inl e)
    then show ?thesis using assms(2,3) g k by (auto simp: fi_body_def)
  next
    case (Inr p)
    then obtain t where q: "q = Inr (t, enc fi_dataIn)" "between n b g" using k by (cases p) auto
    obtain w f where f: "resetTarget (on_scope sp) (on_target tp) g = (w, f)" by (meson surj_pair)
    have kf: "interrupted n b f" "between n b f" using reset_kept [OF f interrupted_greeting [OF between_interrupted [OF q(2)]]] q(2) between_interrupted [OF q(2)] by auto
    have s: "quiet_stats (sort_response (enc fi_dataIn) (enc fi_dataIn) s)" using assms(2) by (simp add: sort_response_def quiet_stats_def)
    have m: "\<not> maxMutesInARow < mutesInARow u" if "quiet_stats u" for u using that by (simp add: quiet_stats_def)
    show ?thesis
    proof (cases t)
      case True
      then show ?thesis using assms(2,3) g q f kf m [OF assms(2)] by (cases w) (auto simp: fi_body_def)
    next
      case False
      then show ?thesis using assms(3) g q s m [OF s] between_interrupted [OF q(2)] by (auto simp: fi_body_def Let_def)
    qed
  qed
qed

lemma attempt_quiet:
  assumes "between n b h" "quiet_stats s"
  shows "\<exists>r s' h'. fi_attempt (on_scope sp) (on_target tp) (enc fi_dataIn) gl gd gp s h = Some (r, s', h') \<and>
    quiet_stats s' \<and> (r = Inr () \<longrightarrow> between n b h')"
proof -
  obtain q u g where u: "fi_body (on_scope sp) (on_target tp) (enc fi_dataIn) gl gd gp s h = (q, u, g)" by (metis surj_pair)
  note k = body_quiet [OF assms(1,2) u]
  show ?thesis
  proof (cases q)
    case (Inr x)
    then show ?thesis using u k by (simp add: fi_attempt_def)
  next
    case (Inl e)
    obtain p f where f: "testScope (on_scope sp) g = (p, f)" by (meson surj_pair)
    obtain x where x: "idle_target x \<or> half_target x" "kept x n b g" using k by (auto simp: interrupted_def)
    have "interrupted n b f" using x(1) keepsD [OF kept_test f x(2)] by (auto simp: interrupted_def)
    then have gr: "greeting n b f" by (rule interrupted_greeting)
    obtain w i where w: "fi_testTarget (on_scope sp) (on_target tp) f = Some (w, i)" using testTarget_returns [OF gr] by blast
    have "fi_attempt (on_scope sp) (on_target tp) (enc fi_dataIn) gl gd gp s h =
        Some (case p of Inl e \<Rightarrow> (Inl e, u, f) | Inr _ \<Rightarrow> (w, u, i))"
      using u Inl f w by (cases p) (simp_all add: fi_attempt_def)
    then show ?thesis using k testTarget_between [OF w gr] by (cases p) simp_all
  qed
qed

lemma attempts_quiet:
  assumes "between n b h" "quiet_stats s"
  shows "\<exists>r s' h'. fi_attempts (on_scope sp) (on_target tp) rnd (enc fi_dataIn) m k s h = Some (r, s', h') \<and> quiet_stats s'"
  using assms
proof (induction m arbitrary: k s h)
  case (Suc m)
  obtain q u g where u: "fi_attempt (on_scope sp) (on_target tp) (enc fi_dataIn) (rnd minGlitch maxGlitch (3 * k)) (rnd minWait maxWait (3 * k + 1))
       (rnd minPulses maxPulses (3 * k + 2)) s h = Some (q, u, g)" "quiet_stats u" "q = Inr () \<longrightarrow> between n b g"
    using attempt_quiet [OF Suc.prems] by blast
  then show ?case using Suc.IH [of g u "Suc k"] by (cases "q = Inr ()") simp_all
qed simp

lemma main_quiet:
  fixes w :: "'d \<times> 't"
  assumes "ser_open tp ''/dev/ttyUSB0'' fi_timeout (snd w) = (True, x)" "good x" "taken x = []" "length (unread x) \<le> 80"
    "init_Scope (on_scope sp) ''/dev/ttyACM0'' (1 / 2) 3500 2 True 0x444 0 0 w = Some (q0, h0)"
  shows "\<exists>r s h. fi_main (on_scope sp) (on_target tp) rnd m w = Some (r, s, h) \<and> quiet_stats s"
proof -
  have i: "quiet_stats fi_stats_init" by (simp add: quiet_stats_def fi_stats_init_def)
  note h0 = assms(5)
  have k0: "kept (snd w) 3500 True h0" using h0 unfolding init_Scope_def by (rule kept_reconnect) (simp add: kept_def)
  define h1 where "h1 = h0\<lparr>device := (fst (device h0), x)\<rparr>"
  have op: "ser_open (on_target tp) ''/dev/ttyUSB0'' fi_timeout (device h0) = (True, fst (device h0), x)"
    using assms(1) k0 by (simp add: on_target_def case_prod_unfold apsnd_def map_prod_def kept_def)
  have gr: "greeting 3500 True h1" using assms(2-4) k0 by (auto simp: greeting_def h1_def kept_def)
  show ?thesis
  proof (cases "q0 = Inr () \<and> (\<exists>h2. fi_testTarget (on_scope sp) (on_target tp) h1 = Some (Inr (), h2))")
    case True
    then obtain h2 where h2: "q0 = Inr ()" "fi_testTarget (on_scope sp) (on_target tp) h1 = Some (Inr (), h2)" by blast
    obtain z where z: "idle_target z" "kept z 3500 True h2" using testTarget_between [OF h2(2) gr] by (auto simp: between_def)
    obtain y where y: "reference_response (on_target tp) h2 = (Inr (enc fi_dataIn), h2\<lparr>device := (fst (device h2), y)\<rparr>)" "idle_target y"
      using answer_line [of h2 fi_dataIn 16 "0x0A" fi_timeout] z by (auto simp: reference_response_def kept_def fi_dataIn_def)
    define h3 where "h3 = h2\<lparr>device := (fst (device h2), y)\<rparr>"
    have b3: "between 3500 True h3" using y(2) z(2) by (auto simp: h3_def between_def kept_def)
    have "fi_main (on_scope sp) (on_target tp) rnd m w = fi_attempts (on_scope sp) (on_target tp) rnd (enc fi_dataIn) m 0 fi_stats_init h3"
      using h0 op h2 y(1) by (simp add: fi_main_def h1_def [symmetric] h3_def [symmetric])
    with attempts_quiet [OF b3 i] show ?thesis by simp
  next
    case False
    obtain q g where "fi_testTarget (on_scope sp) (on_target tp) h1 = Some (q, g)" using testTarget_returns [OF gr] by blast
    with False show ?thesis
      using h0 op i by (cases q0; cases q) (auto simp: fi_main_def h1_def [symmetric])
  qed
qed

end

subsection \<open>Properties\<close>

text \<open>C10. The counters of a campaign. Whatever the two ports do, after \<open>n\<close> attempts at most \<open>n\<close> answers have
  been counted as expected, glitched, mute or corrupted together, and at most one unexpected
  answer in a row is outstanding, because the second one resets the target.
\<close>

theorem campaign_counters:
  assumes "fi_main sp tp randint n w = Some (r, s, h)"
  shows "expected s + glitched s + mute s + corrupted s \<le> n \<and> mutesInARow s \<le> maxMutesInARow"
proof -
  have i: "answers fi_stats_init = 0" "mutesInARow fi_stats_init = 0" by (simp_all add: answers_def fi_stats_init_def)
  have "s = fi_stats_init \<or> (\<exists>e h'. fi_attempts sp tp randint e n 0 fi_stats_init h' = Some (r, s, h))"
    using assms by (auto simp: fi_main_def split: option.splits sum.splits prod.splits if_splits)
  then have "answers s \<le> n \<and> mutesInARow s \<le> maxMutesInARow"
    using attempts_count [of sp tp randint _ n 0 fi_stats_init _ r s h] i by auto
  then show ?thesis by (simp add: answers_def)
qed


text \<open>A glitcher that acknowledges everything.\<close>

definition idle_glitcher :: "byte list pyserial" where
  "idle_glitcher = \<lparr>ser_open = (\<lambda>_ _ q. (True, q)), ser_close = (\<lambda>q. q),
     ser_write = (\<lambda>bs q. (True, if hd bs = ch CHR ''t'' then [ch CHR ''T'']
       else if hd bs = ch CHR ''h'' then [ch CHR ''r'', ch CHR ''d''] else [ch CHR ''d''])),
     ser_read = (\<lambda>_ n q. (Some (take (nat n) q), drop (nat n) q))\<rparr>"

lemma idle_glitcher_init:
  "\<exists>h. init_Scope (on_scope idle_glitcher) ''/dev/ttyACM0'' (1 / 2) 3500 2 True 0x444 0 0 ([], x) = Some (Inr (), h)"
  unfolding init_Scope_def reconnect_def
  by (subst reconnect_loop.simps) (simp add: py_then_def py_bind_def py_return_def py_raise_def py_assert_def py_set_def
    serial_write_def serial_read_def py_bytes_def idle_glitcher_def ch_def py_ord_def testScope_def reconnect_settings_def
    setSamples_def setSampleSpeed_def set12Bits_def setBias_def setGain_def setDelay_def checkResponse_def)


theorem campaign_counters_witness:
  "\<exists>r s h. fi_main (on_scope idle_glitcher) (on_target (toe_link (slow_sketch []))) (\<lambda>a b k. a) 5 ([], fresh_toe) = Some (r, s, h) \<and>
    expected s + glitched s + mute s + corrupted s \<le> 5 \<and> mutesInARow s \<le> maxMutesInARow"
proof -
  obtain h where h: "init_Scope (on_scope idle_glitcher) ''/dev/ttyACM0'' (1 / 2) 3500 2 True 0x444 0 0 ([], fresh_toe) = Some (Inr (), h)"
    using idle_glitcher_init [of fresh_toe] by (elim exE)
  have "\<exists>r s h. fi_main (on_scope idle_glitcher) (on_target (toe_link (slow_sketch []))) (\<lambda>a b k. a) 5 ([], fresh_toe) = Some (r, s, h) \<and> quiet_stats s"
    by (rule slow.port.main_quiet [OF toe_link_open _ _ _ h]) (simp_all add: fresh_toe_ok)
  then obtain r s h where
    r: "fi_main (on_scope idle_glitcher) (on_target (toe_link (slow_sketch []))) (\<lambda>a b k. a) 5 ([], fresh_toe) = Some (r, s, h)" by blast
  from r campaign_counters [OF r] show ?thesis by blast
qed

end
