(* ===== verification/Spec2Isabelle.thy ===== *)
theory Spec2Isabelle
  imports HostLink Toe Aes_Vectors TraceFile ConfigDescriptors HidSafety DeviceProperties Acquisition GlitchCampaign
begin

text \<open>
  Verification of HorrorScope, a low-cost oscilloscope and glitcher for side-channel experiments.

  \<^bold>\<open>The program.\<close> The oscilloscope is firmware for an ATxmega32A4U
  (\<open>scope/lufa-LUFA-170418/Projects/HorrorScope\<close>) on the USB library LUFA of the same tree. It appears to
  its host as a serial port and obeys one-letter commands. On the host, the Python class \<open>Scope\<close>
  (\<open>acq/scope.py\<close>, a copy is \<open>fi/scope.py\<close>) sends these commands. The experiments are run against a
  target, an Arduino that encrypts blocks with AES-128 (\<open>toe-arduino\<close>). The script
  \<open>acq/runSetup.py\<close> measures encryptions and stores them with \<open>acq/Trace.py\<close>; the script
  \<open>fi/runSetup.py\<close> disturbs them and sorts the answers.

  \<^bold>\<open>Theories and sources.\<close> Definitions keep the names of the sources.

  \<^item> \<^verbatim>\<open>Prelude\<close>: bytes and words, arrays with the access outside of them written out as \<open>None\<close>, and the
    two judgements on calls: \<open>returns r Q\<close>, every result satisfies \<open>Q\<close>; \<open>yields r Q\<close>, there is a result
    and it satisfies \<open>Q\<close>.
  \<^item> \<^verbatim>\<open>RingBuffer\<close>: \<open>Misc/RingBuffer.h\<close>. The locale \<open>byte_fifo\<close> is the interface of a queue of bytes.
  \<^item> \<^verbatim>\<open>Firmware\<close>: the registers of the controller and the variables of the firmware, as the records
    \<open>xmega\<close> and \<open>fw\<close>.
  \<^item> \<^verbatim>\<open>Endpoint\<close>, \<^verbatim>\<open>UsbController\<close>, \<^verbatim>\<open>EndpointStream\<close>: the XMEGA port of the USB library (\<open>Endpoint_XMEGA\<close>,
    \<open>USBController_XMEGA\<close>, \<open>USBInterrupt_XMEGA\<close>, \<open>Device_XMEGA\<close>, \<open>EndpointStream_XMEGA\<close> and its templates).
  \<^item> \<^verbatim>\<open>CdcDevice\<close>, \<^verbatim>\<open>Descriptors\<close>, \<^verbatim>\<open>StdRequests\<close>: the class driver of the serial port, the descriptors, the
    standard requests and the device task.
  \<^item> \<^verbatim>\<open>UsbSerial\<close>, \<^verbatim>\<open>Analog\<close>, \<^verbatim>\<open>Scope\<close>: the firmware proper: \<open>usb_serial.c\<close>; \<open>adc.c\<close>, \<open>dmaadc.c\<close>, \<open>trigger.c\<close>,
    \<open>hires_glitch.c\<close> and \<open>usartx.c\<close>; \<open>HorrorScope.c\<close> with one definition per command.
  \<^item> \<^verbatim>\<open>UsbInvariant\<close>, \<^verbatim>\<open>TransferSafety\<close>, \<^verbatim>\<open>RequestSafety\<close>, \<^verbatim>\<open>SerialSafety\<close>, \<^verbatim>\<open>ScopeSafety\<close>, \<^verbatim>\<open>ScopeStartup\<close>: the
    invariant of the USB stack and that every operation keeps it, up to the states the command loop
    reaches from power-on.
  \<^item> \<^verbatim>\<open>SerialPort\<close>, \<^verbatim>\<open>ScopeProtocol\<close>: the serial port as two byte streams, and the command loop as an
    interpreter of the protocol (\<open>command_spec\<close>).
  \<^item> \<^verbatim>\<open>DeviceProperties\<close>: single routines: endpoint sizes, bus reset, configuration, acquisition, trigger.
  \<^item> \<^verbatim>\<open>HostScope\<close>, \<^verbatim>\<open>HostLink\<close>: the class \<open>Scope\<close>, and the class joined to the firmware by the interface
    \<open>scope_link\<close>.
  \<^item> \<^verbatim>\<open>Aes_Field\<close>, \<^verbatim>\<open>Aes\<close>, \<^verbatim>\<open>Aes_Vectors\<close>, \<^verbatim>\<open>Toe\<close>: \<open>aes.c\<close> and the two sketches of the target.
  \<^item> \<^verbatim>\<open>TraceFile\<close>: the trace set files of \<open>acq/Trace.py\<close>, on the bytes of the file.
  \<^item> \<^verbatim>\<open>TargetLink\<close>, \<^verbatim>\<open>Acquisition\<close>, \<^verbatim>\<open>GlitchCampaign\<close>: the target behind its serial port (interface
    \<open>target_link\<close>, which both sketches provide through the interface \<open>sketch\<close>), and the two scripts.
  \<^item> \<^verbatim>\<open>ConfigDescriptors\<close>, \<^verbatim>\<open>HidParser\<close>, \<^verbatim>\<open>HidReport\<close>, \<^verbatim>\<open>HidSafety\<close>: two parsers of the USB library that do
    not depend on the port: the walk over a configuration descriptor and the report parser.

  \<^bold>\<open>Hardware and host.\<close> What the hardware and the USB host do on their own is not fixed. The state of the
  firmware holds a schedule, a list of arbitrary changes of the registers. Each time the code samples
  a status register the next change happens, and then the bus event interrupt runs when it is due
  (\<open>poll\<close>). An interrupt between two samples is therefore seen at the next one. Permitted changes
  are those of \<open>hw_ok\<close>: the hardware may write anything into the packet buffers and registers, but it moves
  neither the endpoint table nor the interrupt mask, reports at most 64 received bytes, and takes back
  neither a setup packet nor a completed reception the code has not yet released. An
  access through a null pointer or outside of an array raises the flag \<open>fault\<close>, which is never lowered.

  \<^bold>\<open>Loops.\<close> A loop that waits for hardware is a \<open>partial_function\<close> with the value \<open>None\<close> when it never
  ends. Claims about its result are of two kinds. The safety of the command loop holds for all permitted
  schedules and needs no termination. The claims that a call returns assume a host that takes the
  packets it is offered at its turns: \<open>online k s\<close> and \<open>settled k s\<close> say that it will do so for
  the next \<open>k\<close> samples, and the lemmas count how many samples a call needs: five for reading a byte,
  seven per byte sent, \<open>turn_cost\<close> (seven times the 3584 bytes of the sample buffer, and 130) for a command. The
  number of turns is an upper bound for every command. Where a run is counted by fuel (\<open>run_pending\<close>,
  \<open>serve\<close>) every step takes at least one received byte, so that the number of bytes is enough.

  \<^bold>\<open>Interfaces.\<close> Each is a locale, interpreted on the definitions of the model: \<open>byte_fifo\<close> on the ring
  buffer; \<open>poll_stable\<close> and its extension \<open>serial_port\<close> (what the application relies on while the USB stack runs
  underneath) on the states before and after the start of the USB; \<open>scope_link\<close> (what the host class relies on)
  on the firmware behind its serial port; \<open>sketch\<close>, which gives \<open>target_link\<close>, on both
  sketches; \<open>xor_linear\<close> on the multiplications of the field.

  \<^bold>\<open>What is shown.\<close>

  \<^item> Firmware: from power-on, under all permitted schedules and inputs, no state of the command loop has
    accessed memory outside of its arrays. With a cooperative host the loop executes every script of
    commands that do not wait for the trigger or the DMA controller (\<open>waits_for_hardware\<close>) as the interpreter of the protocol prescribes, and the
    serial port loses and repeats nothing.
  \<^item> Host and firmware: the methods of the class set what they say on the board, \<open>getSamples\<close> returns the
    sample memory, connecting ends, refused and negative values raise.
  \<^item> Target: field arithmetic, substitution table, round and key schedule agree with the mathematical
    definitions, decryption inverts encryption, the cipher gives the answer of the standard, and the two
    sketches cannot be told apart.
  \<^item> Trace sets: what is written is read back, no file is overwritten.
  \<^item> Scripts: whatever the oscilloscope does, every stored trace holds a block and its encryption under the
    key of the target; with a working oscilloscope the acquisition completes. A campaign
    whose glitches do not reach the target reports none, and its counters are bounded.
  \<^item> Parsers: the search routines find what they look for on well formed descriptors, the report
    parser keeps to its tables and its collections form trees, report values are read back.
  \<^item> Several theorems state behaviour the sources do not intend: the acquisition is not awaited, a push of the
    report parser writes behind its table, a descriptor of length zero makes the search run forever, the
    comparator is called behind the end, a request for configuration zero does not lead to the addressed
    state, rejected traces leave their title, refused numbers of samples are kept.

  \<^bold>\<open>Not modelled.\<close> The other ports of the USB library, its host mode, the class drivers the firmware does
  not use, its bootloaders, demos and other projects are not linked into the firmware. The time an
  instruction takes, sleep modes and the analogue side of converter and glitcher are not represented;
  register accesses happen in program order. Of the scripts, plotting, the graphical interface, the notebook,
  console output and pauses are left out, and so are the command line and the line matching of the log parser. The serial
  port package, NumPy, the random generator, the file system, the AES library of the second
  sketch, the filter callback of the report parser and the addresses chosen by the linker are parameters.
\<close>

end
